(* ===== verification/Prelude.thy ===== *)
theory Prelude
  imports Main "HOL-Library.Sublist" "HOL-Library.Multiset" "HOL-Library.Monad_Syntax"
begin

text \<open>
  What every component shares: the names of the Go types that have no structure of their
  own (byte slices, error values), the parts of Go's standard library the sources call on
  strings and slices, and the generic lemmas the component proofs use.

  A Go string is a sequence of bytes, and so is a \<open>string\<close> of HOL (a list of 8-bit
  characters), so strings and byte slices are the same type here. An \<open>error\<close> value is
  known to the program by its text only; \<open>nil\<close> is \<open>None\<close>. A function that panics
  returns an option, with \<open>None\<close> for the panic.
\<close>

section \<open>Types\<close>

type_synonym bytes = string
type_synonym err = string

named_theorems store_simps \<open>what a read returns after a write, and which reads a write leaves alone\<close>
named_theorems key_simps \<open>when two database keys are equal\<close>
named_theorems handler_defs \<open>the definitions of the request handlers\<close>

section \<open>Strings: the parts of package strings that the sources call\<close>

text \<open>\<open>strings.Split(s, sep)\<close> for a separator of one byte.\<close>

fun split_on :: "'a \<Rightarrow> 'a list \<Rightarrow> 'a list list" where
  "split_on c [] = [[]]"
| "split_on c (x # xs) =
     (if x = c then [] # split_on c xs
      else (case split_on c xs of [] \<Rightarrow> [[x]] | p # ps \<Rightarrow> (x # p) # ps))"

text \<open>\<open>strings.Join(parts, sep)\<close>.\<close>

fun join_with :: "'a list \<Rightarrow> 'a list list \<Rightarrow> 'a list" where
  "join_with sep [] = []"
| "join_with sep [p] = p"
| "join_with sep (p # q # ps) = p @ sep @ join_with sep (q # ps)"

text \<open>\<open>strings.Trim(s, cutset)\<close> for a cutset of one byte.\<close>

definition trim_char :: "'a \<Rightarrow> 'a list \<Rightarrow> 'a list" where
  "trim_char c s = rev (dropWhile (\<lambda>x. x = c) (rev (dropWhile (\<lambda>x. x = c) s)))"

lemma split_on_not_Nil [simp]: "split_on c s \<noteq> []"
  by (induction s) (auto split: list.splits)

lemma join_split: "join_with [c] (split_on c s) = s"
proof (induction s)
  case Nil
  show ?case by simp
next
  case (Cons x xs)
  obtain p ps where s: "split_on c xs = p # ps"
    by (cases "split_on c xs") auto
  with Cons.IH show ?case
    by (cases ps) auto
qed

lemma split_on_plain: "c \<notin> set s \<Longrightarrow> split_on c s = [s]"
  by (induction s) auto

lemma split_on_sep: "c \<notin> set p \<Longrightarrow> split_on c (p @ c # s) = p # split_on c s"
  by (induction p) auto

lemma split_join:
  "ps \<noteq> [] \<Longrightarrow> \<forall>p\<in>set ps. c \<notin> set p \<Longrightarrow> split_on c (join_with [c] ps) = ps"
proof (induction "[c]" ps rule: join_with.induct)
  case 1
  then show ?case by simp
next
  case (2 p)
  then show ?case by (simp add: split_on_plain)
next
  case (3 p q ps)
  then show ?case by (simp add: split_on_sep)
qed

lemma split_on_parts: "p \<in> set (split_on c s) \<Longrightarrow> c \<notin> set p"
proof (induction s arbitrary: p)
  case Nil
  then show ?case by simp
next
  case (Cons x xs)
  obtain q qs where s: "split_on c xs = q # qs"
    by (cases "split_on c xs") auto
  with Cons show ?case by (auto split: if_splits)
qed

section \<open>Package path\<close>

text \<open>
  \<open>path.Join\<close>: the non-empty elements joined by slashes, then cleaned: empty and \<open>.\<close>
  elements go, \<open>..\<close> removes the element before it, and at the root it goes too.
\<close>

fun clean_parts :: "bool \<Rightarrow> string list \<Rightarrow> string list \<Rightarrow> string list" where
  "clean_parts rooted acc [] = rev acc"
| "clean_parts rooted acc (p # ps) =
     (if p = [] \<or> p = ''.'' then clean_parts rooted acc ps
      else if p = ''..'' then
        (case acc of
           [] \<Rightarrow> clean_parts rooted (if rooted then [] else [p]) ps
         | q # qs \<Rightarrow> clean_parts rooted (if q = ''..'' then p # acc else qs) ps)
      else clean_parts rooted (p # acc) ps)"

definition path_Clean :: "string \<Rightarrow> string" where
  "path_Clean s =
    (let rooted = (s \<noteq> [] \<and> hd s = CHR ''/'');
         out = join_with ''/'' (clean_parts rooted [] (split_on (CHR ''/'') s))
     in if rooted then CHR ''/'' # out else if out = [] then ''.'' else out)"

definition path_Join :: "string list \<Rightarrow> string" where
  "path_Join elems =
    (let es = filter (\<lambda>e. e \<noteq> []) elems
     in if es = [] then [] else path_Clean (join_with ''/'' es))"

lemma split_on_append_sep: "split_on c (s @ c # t) = split_on c s @ split_on c t"
  by (induction s) (auto split: list.splits)

lemma join_with_snoc:
  "join_with sep (qs @ [p]) = (if qs = [] then p else join_with sep qs @ sep @ p)"
  by (induction sep qs rule: join_with.induct) auto

text \<open>A plain element: one that cleaning keeps as it is.\<close>

definition plain_name :: "string \<Rightarrow> bool" where
  "plain_name p \<longleftrightarrow> p \<noteq> [] \<and> p \<noteq> ''.'' \<and> p \<noteq> ''..'' \<and> CHR ''/'' \<notin> set p"

lemma clean_parts_snoc:
  "plain_name p \<Longrightarrow> clean_parts r acc (ps @ [p]) = clean_parts r acc ps @ [p]"
  by (induction r acc ps rule: clean_parts.induct) (auto simp: plain_name_def split: list.splits)

lemma path_Join_plain:
  assumes "h \<noteq> []"
  shows "\<exists>pre. \<forall>q. plain_name q \<longrightarrow> path_Join [h, q] = pre @ q"
proof -
  let ?r = "hd h = CHR ''/''"
  let ?qs = "clean_parts ?r [] (split_on (CHR ''/'') h)"
  let ?pre = "(if ?r then ''/'' else []) @ (if ?qs = [] then [] else join_with ''/'' ?qs @ ''/'')"
  have "path_Join [h, q] = ?pre @ q" if q: "plain_name q" for q
  proof -
    have "split_on (CHR ''/'') (h @ CHR ''/'' # q) = split_on (CHR ''/'') h @ [q]"
      using q by (simp add: split_on_append_sep split_on_plain plain_name_def)
    moreover from q have "q \<noteq> []" by (simp add: plain_name_def)
    ultimately show ?thesis
      using assms q by (auto simp: path_Join_def path_Clean_def Let_def clean_parts_snoc join_with_snoc)
  qed
  then show ?thesis by blast
qed

lemma path_Join_single: "plain_name q \<Longrightarrow> path_Join [[], q] = q"
  by (cases q) (auto simp: path_Join_def path_Clean_def Let_def plain_name_def split_on_plain)

lemma path_Join_inj:
  assumes "plain_name p" and "plain_name q"
  shows "path_Join [h, p] = path_Join [h, q] \<longleftrightarrow> p = q"
proof (cases "h = []")
  case True
  with assms show ?thesis by (simp add: path_Join_single)
next
  case False
  from path_Join_plain [OF False] obtain pre
    where "\<forall>q. plain_name q \<longrightarrow> path_Join [h, q] = pre @ q" ..
  with assms show ?thesis by simp
qed

section \<open>Numbers and digests as text\<close>

text \<open>\<open>%d\<close> of package fmt, and \<open>hex.EncodeToString\<close>.\<close>

fun nat_text :: "nat \<Rightarrow> string" where
  "nat_text n = (if n < 10 then [char_of (48 + n)] else nat_text (n div 10) @ [char_of (48 + n mod 10)])"

declare nat_text.simps [simp del]

definition int_text :: "int \<Rightarrow> string" where
  "int_text i = (if i < 0 then CHR ''-'' # nat_text (nat (- i)) else nat_text (nat i))"

definition hex_digit :: "nat \<Rightarrow> char" where
  "hex_digit n = (if n < 10 then char_of (48 + n) else char_of (87 + n))"

definition hex_encode :: "bytes \<Rightarrow> string" where
  "hex_encode b = concat (map (\<lambda>c. [hex_digit (of_char c div 16), hex_digit (of_char c mod 16)]) b)"

lemma length_hex_encode: "length (hex_encode b) = 2 * length b"
  by (induction b) (auto simp: hex_encode_def)

lemma hex_digit_inj:
  assumes "m < 16" and "n < 16" and "hex_digit m = hex_digit n"
  shows "m = n"
proof -
  have "(of_char (hex_digit k) :: nat) = (if k < 10 then 48 + k else 87 + k)" if "k < 16" for k
    using that by (simp add: hex_digit_def)
  from this [OF assms(1)] this [OF assms(2)] assms(3)
  have "(if m < 10 then 48 + m else 87 + m) = (if n < 10 then 48 + n else 87 + n)" by simp
  with assms(1,2) show ?thesis by (auto split: if_splits)
qed

lemma hex_encode_inj: "hex_encode a = hex_encode b \<Longrightarrow> a = b"
proof (induction a arbitrary: b)
  case Nil
  then show ?case using length_hex_encode [of b] by (simp add: hex_encode_def)
next
  case (Cons x a)
  then obtain y b' where b: "b = y # b'"
    using length_hex_encode [of b] length_hex_encode [of "x # a"] by (cases b) auto
  have lt: "of_char c div 16 < (16::nat)" "of_char c mod 16 < (16::nat)" for c :: char
    using nat_of_char_less_256 [of c] by (auto simp: less_mult_imp_div_less)
  from Cons.prems b have "hex_encode a = hex_encode b'"
    "of_char x div 16 = (of_char y div 16 :: nat)" "of_char x mod 16 = (of_char y mod 16 :: nat)"
    using hex_digit_inj lt by (auto simp: hex_encode_def)
  moreover from this have "(of_char x :: nat) = of_char y"
    by (metis div_mult_mod_eq)
  ultimately show ?case using Cons.IH b by simp
qed

section \<open>Prefixes and cuts of fixed length\<close>

lemma append_eq_same_length:
  "length a = length b \<Longrightarrow> a @ x = b @ y \<longleftrightarrow> a = b \<and> x = y"
  by (rule append_eq_append_conv) simp

lemma take_prefix_iff: "length p \<le> length k \<Longrightarrow> take (length p) k = p \<longleftrightarrow> prefix p k"
  by (auto simp: prefix_def) (metis append_take_drop_id)

lemma append_suffix_neq:
  assumes "xs \<noteq> []" and "ys \<noteq> []" and "last xs \<noteq> last ys"
  shows "a @ xs \<noteq> b @ ys"
proof
  assume "a @ xs = b @ ys"
  then have "last (a @ xs) = last (b @ ys)" by simp
  with assms show False by simp
qed

section \<open>Options and sums\<close>

lemma fst_None_E: "fst p = None \<Longrightarrow> (\<And>d. p = (None, d) \<Longrightarrow> P) \<Longrightarrow> P"
  by (cases p) auto

end
