(* ===== verification/Platform.thy ===== *)
theory Platform
  imports Prelude
begin

text \<open>
  The third-party code the program runs on, as parameters. LevelDB (goleveldb), the amino
  codec and the peer-to-peer service (go-alibp2p) are not part of the repository: each is a
  record of the operations the sources call, passed to the definitions that use it, and a
  locale states the documented behaviour the program relies on. Nothing here defines what
  these libraries do; the theory Reference gives one concrete instance of each contract.
\<close>

section \<open>LevelDB\<close>

text \<open>
  The methods of \<open>*leveldb.DB\<close> the sources call, over a type \<open>'d\<close> of database states.
  A read leaves the state alone; a write returns its error and the new state.
\<close>

record 'd leveldb =
  lvPut :: "bytes \<Rightarrow> bytes \<Rightarrow> 'd \<Rightarrow> err option \<times> 'd"
  lvGet :: "bytes \<Rightarrow> 'd \<Rightarrow> err + bytes"
  lvHas :: "bytes \<Rightarrow> 'd \<Rightarrow> err + bool"
  lvDelete :: "bytes \<Rightarrow> 'd \<Rightarrow> err option \<times> 'd"
  lvIter :: "'d \<Rightarrow> (bytes \<times> bytes) list"
  lvWrite :: "(bytes \<times> bytes) list \<Rightarrow> 'd \<Rightarrow> err option \<times> 'd"
  lvClose :: "'d \<Rightarrow> 'd"

text \<open>
  The documented behaviour of an open, healthy database: \<open>view\<close> is its contents as a map;
  writes succeed, \<open>Get\<close> returns what was put last and an error for an absent key, and
  the iterator over the whole database yields every entry once.
\<close>

locale leveldb_laws =
  fixes L :: "'d leveldb"
    and ok :: "'d \<Rightarrow> bool"
    and view :: "'d \<Rightarrow> bytes \<rightharpoonup> bytes"
  assumes lv_put: "ok d \<Longrightarrow> fst (lvPut L k v d) = None"
    and lv_put_ok: "ok d \<Longrightarrow> ok (snd (lvPut L k v d))"
    and lv_put_view: "ok d \<Longrightarrow> view (snd (lvPut L k v d)) = (view d)(k \<mapsto> v)"
    and lv_get_Some: "ok d \<Longrightarrow> view d k = Some v \<Longrightarrow> lvGet L k d = Inr v"
    and lv_get_None: "ok d \<Longrightarrow> view d k = None \<Longrightarrow> \<exists>e. lvGet L k d = Inl e"
    and lv_has: "ok d \<Longrightarrow> lvHas L k d = Inr (view d k \<noteq> None)"
    and lv_delete: "ok d \<Longrightarrow> fst (lvDelete L k d) = None"
    and lv_delete_ok: "ok d \<Longrightarrow> ok (snd (lvDelete L k d))"
    and lv_delete_view: "ok d \<Longrightarrow> view (snd (lvDelete L k d)) = (view d)(k := None)"
    and lv_write: "ok d \<Longrightarrow> fst (lvWrite L kvs d) = None"
    and lv_write_ok: "ok d \<Longrightarrow> ok (snd (lvWrite L kvs d))"
    and lv_write_view: "ok d \<Longrightarrow> view (snd (lvWrite L kvs d)) = view d ++ map_of (rev kvs)"
    and lv_iter: "ok d \<Longrightarrow> map_of (lvIter L d) = view d"
    and lv_iter_distinct: "ok d \<Longrightarrow> distinct (map fst (lvIter L d))"

section \<open>The amino codec\<close>

text \<open>
  The calls of package amino, for one type of values: \<open>MarshalBinaryLengthPrefixed\<close>,
  \<open>UnmarshalBinaryLengthPrefixed\<close> and \<open>UnmarshalBinaryLengthPrefixedReader\<close> (which takes
  the largest size it accepts), \<open>MarshalJSON\<close> and \<open>UnmarshalJSON\<close>. An unmarshal call
  decodes into an existing value: it takes that value and returns an error, if any,
  together with the value as it left it.
\<close>

record 'a amino =
  aMarshal :: "'a \<Rightarrow> err + bytes"
  aUnmarshal :: "bytes \<Rightarrow> 'a \<Rightarrow> err option \<times> 'a"
  aUnmarshalReader :: "bytes \<Rightarrow> 'a \<Rightarrow> nat \<Rightarrow> err option \<times> 'a"
  aMarshalJSON :: "'a \<Rightarrow> err + bytes"
  aUnmarshalJSON :: "bytes \<Rightarrow> 'a \<Rightarrow> err option \<times> 'a"

text \<open>
  The documented behaviour: values of the program's message types can be marshalled (\<open>wf\<close>
  excludes what amino refuses, a nil pointer in a list), and decoding what was marshalled into a fresh value gives back its exported fields. Fields
  that start with a lower-case letter are not encoded: \<open>exported\<close> maps a value to the
  one with these fields cleared (it is the identity for the types that have none), and no
  decoding into a fresh value sets them. The reader variant does the same within its size limit and fails above it.
\<close>

locale codec_laws =
  fixes C :: "'a amino"
    and zero :: 'a
    and exported :: "'a \<Rightarrow> 'a"
    and wf :: "'a \<Rightarrow> bool"
  assumes marshal_total: "wf x \<Longrightarrow> \<exists>b. aMarshal C x = Inr b"
    and unmarshal_marshal: "aMarshal C x = Inr b \<Longrightarrow> aUnmarshal C b zero = (None, exported x)"
    and reader_fits: "aMarshal C x = Inr b \<Longrightarrow> length b \<le> n \<Longrightarrow> 0 < n \<Longrightarrow>
      aUnmarshalReader C b zero n = (None, exported x)"
    and reader_overflow: "aMarshal C x = Inr b \<Longrightarrow> n < length b \<Longrightarrow> 0 < n \<Longrightarrow>
      fst (aUnmarshalReader C b zero n) \<noteq> None"
    and unmarshal_exported: "aUnmarshal C b zero = (None, y) \<Longrightarrow> exported y = y"
    and reader_exported: "aUnmarshalReader C b zero n = (None, y) \<Longrightarrow> exported y = y"

text \<open>
  \<open>encoded\<close>: the bytes of a value, when a caller ignores the error of the marshal call,
  as \<open>Message.Bytes\<close> does (the call returns nil bytes along with an error).
\<close>

definition encoded :: "'a amino \<Rightarrow> 'a \<Rightarrow> bytes" where
  "encoded C x = (case aMarshal C x of Inl e \<Rightarrow> [] | Inr b \<Rightarrow> b)"

context codec_laws
begin

lemma marshal_encoded: "wf x \<Longrightarrow> aMarshal C x = Inr (encoded C x)"
  using marshal_total[of x] by (auto simp: encoded_def)

lemma unmarshal_encoded [simp]: "wf x \<Longrightarrow> aUnmarshal C (encoded C x) zero = (None, exported x)"
  by (rule unmarshal_marshal [OF marshal_encoded])

lemma reader_encoded:
  "wf x \<Longrightarrow> length (encoded C x) \<le> n \<Longrightarrow> 0 < n \<Longrightarrow>
    aUnmarshalReader C (encoded C x) zero n = (None, exported x)"
  by (rule reader_fits [OF marshal_encoded])

lemma encoded_inj: "wf x \<Longrightarrow> wf y \<Longrightarrow> encoded C x = encoded C y \<Longrightarrow> exported x = exported y"
  using unmarshal_encoded[of x] unmarshal_encoded[of y] by simp

end

section \<open>Package sort\<close>

text \<open>
  \<open>sort.Sort\<close> promises a permutation of the slice in ascending order; it is documented
  not to be stable, so which of several permutations it yields is left open.
\<close>

locale sort_contract =
  fixes less :: "'a \<Rightarrow> 'a \<Rightarrow> bool"
    and srt :: "'a list \<Rightarrow> 'a list"
  assumes sort_perm: "mset (srt xs) = mset xs"
    and sort_ordered: "sorted_wrt (\<lambda>x y. \<not> less y x) (srt xs)"
begin

lemma sort_set [simp]: "set (srt xs) = set xs"
  by (metis sort_perm set_mset_mset)

lemma sort_length [simp]: "length (srt xs) = length xs"
  by (metis sort_perm size_mset)

lemma sort_distinct: "distinct (srt xs) \<longleftrightarrow> distinct xs"
  by (metis sort_perm mset_eq_imp_distinct_iff)

end

section \<open>The peer-to-peer service\<close>

text \<open>
  The calls of \<open>alibp2p.Libp2pService\<close>, over a type \<open>'w\<close> of states of the world outside
  the node. \<open>RequestWithTimeout\<close> takes the peer, the protocol, the request and the
  timeout in seconds; it changes the world, the remote node included.
\<close>

record 'w p2p =
  pRequest :: "string \<Rightarrow> string \<Rightarrow> bytes \<Rightarrow> nat \<Rightarrow> 'w \<Rightarrow> (err + bytes) \<times> 'w"
  pMyid :: "'w \<Rightarrow> string"
  pPeers :: "'w \<Rightarrow> string list \<times> (string \<times> string list) list \<times> nat"
  pFindpeer :: "string \<Rightarrow> 'w \<Rightarrow> err + string list"

end
