(* ===== verification/Reference.thy ===== *)
theory Reference
  imports Platform "HOL-Library.Char_ord" "HOL-Library.List_Lexorder"
begin

text \<open>
  One concrete instance of each contract of theory Platform: an ordered in-memory store that
  behaves as LevelDB is documented to, and a codec that writes a value as a list of fields.
  They show that the contracts can be met together, and the witnesses of the properties run
  on them. They are not a model of the libraries.
\<close>

section \<open>An ordered in-memory store\<close>

type_synonym mem = "(bytes \<times> bytes) list"

definition mem_ok :: "mem \<Rightarrow> bool" where
  "mem_ok d \<longleftrightarrow> sorted (map fst d) \<and> distinct (map fst d)"

definition mem_put :: "bytes \<Rightarrow> bytes \<Rightarrow> mem \<Rightarrow> mem" where
  "mem_put k v d = insort_key fst (k, v) (filter (\<lambda>p. fst p \<noteq> k) d)"

definition mem_del :: "bytes \<Rightarrow> mem \<Rightarrow> mem" where
  "mem_del k d = filter (\<lambda>p. fst p \<noteq> k) d"

definition mem_leveldb :: "mem leveldb" where
  "mem_leveldb =
    \<lparr>lvPut = (\<lambda>k v d. (None, mem_put k v d)),
     lvGet = (\<lambda>k d. case map_of d k of None \<Rightarrow> Inl ''leveldb: not found'' | Some v \<Rightarrow> Inr v),
     lvHas = (\<lambda>k d. Inr (map_of d k \<noteq> None)),
     lvDelete = (\<lambda>k d. (None, mem_del k d)),
     lvIter = (\<lambda>d. d),
     lvWrite = (\<lambda>kvs d. (None, fold (\<lambda>(k, v). mem_put k v) kvs d)),
     lvClose = (\<lambda>d. d)\<rparr>"

lemma map_of_insort:
  "k \<notin> fst ` set d \<Longrightarrow> map_of (insort_key fst (k, v) d) = (map_of d)(k \<mapsto> v)"
  by (induction d) (auto simp: fun_eq_iff)

lemma distinct_keys_insort:
  "distinct (map fst (insort_key fst p d)) \<longleftrightarrow> fst p \<notin> fst ` set d \<and> distinct (map fst d)"
  by (induction d) (auto simp: set_insort_key)

lemma map_of_mem_del: "map_of (mem_del k d) = (map_of d)(k := None)"
  by (induction d) (auto simp: mem_del_def fun_eq_iff)

lemma mem_ok_del: "mem_ok d \<Longrightarrow> mem_ok (mem_del k d)"
  by (auto simp: mem_ok_def mem_del_def sorted_filter distinct_map_filter)

lemma mem_ok_put: "mem_ok d \<Longrightarrow> mem_ok (mem_put k v d)"
  by (auto simp: mem_ok_def mem_put_def sorted_insort_key sorted_filter distinct_map_filter
      distinct_keys_insort)

lemma mem_ok_distinct: "mem_ok d \<Longrightarrow> distinct (map fst d)"
  by (simp add: mem_ok_def)

lemma map_of_mem_put: "map_of (mem_put k v d) = (map_of d)(k \<mapsto> v)"
proof -
  have "map_of (mem_put k v d) = (map_of (mem_del k d))(k \<mapsto> v)"
    unfolding mem_put_def mem_del_def by (rule map_of_insort) auto
  then show ?thesis by (simp add: map_of_mem_del)
qed

lemma mem_fold_put:
  "mem_ok d \<Longrightarrow> mem_ok (fold (\<lambda>(k, v). mem_put k v) kvs d) \<and>
    map_of (fold (\<lambda>(k, v). mem_put k v) kvs d) = map_of d ++ map_of (rev kvs)"
  by (induction kvs arbitrary: d)
    (auto simp: mem_ok_put map_of_mem_put map_add_def fun_eq_iff split: option.split)

interpretation mem: leveldb_laws mem_leveldb mem_ok map_of
  by unfold_locales
    (auto simp: mem_leveldb_def mem_ok_put mem_ok_del map_of_mem_put map_of_mem_del mem_fold_put mem_ok_distinct)

lemma mem_ok_empty: "mem_ok []"
  by (simp add: mem_ok_def)

section \<open>A field codec\<close>

text \<open>
  A list of strings as one string: every character is marked with \<open>c\<close>, every string ends
  with \<open>n\<close>.
\<close>

fun pack :: "string list \<Rightarrow> string" where
  "pack [] = []"
| "pack ([] # ss) = CHR ''n'' # pack ss"
| "pack ((x # s) # ss) = CHR ''c'' # x # pack (s # ss)"

fun unpack :: "string \<Rightarrow> string list option" where
  "unpack [] = Some []"
| "unpack (m # r) =
     (if m = CHR ''n'' then map_option (\<lambda>ss. [] # ss) (unpack r)
      else (case r of
              [] \<Rightarrow> None
            | x # r' \<Rightarrow> (case unpack r' of
                  Some (s # ss) \<Rightarrow> Some ((x # s) # ss)
                | _ \<Rightarrow> None)))"

lemma unpack_pack [simp]: "unpack (pack ss) = Some ss"
  by (induction ss rule: pack.induct) auto

definition int_str :: "int \<Rightarrow> string" where
  "int_str i = (if i < 0 then CHR ''-'' else CHR ''+'') # replicate (nat \<bar>i\<bar>) (CHR ''1'')"

definition str_int :: "string \<Rightarrow> int" where
  "str_int s = (if hd s = CHR ''-'' then - int (length (tl s)) else int (length (tl s)))"

lemma str_int_str [simp]: "str_int (int_str i) = i"
  by (simp add: str_int_def int_str_def)

definition field_codec :: "('a \<Rightarrow> string list) \<Rightarrow> (string list \<Rightarrow> 'a option) \<Rightarrow> 'a amino" where
  "field_codec to from =
    (let decode = (\<lambda>b z. case Option.bind (unpack b) from of
                     None \<Rightarrow> (Some ''malformed'', z) | Some x \<Rightarrow> (None, x))
     in \<lparr>aMarshal = (\<lambda>x. Inr (pack (to x))),
         aUnmarshal = decode,
         aUnmarshalReader = (\<lambda>b z n. if n < length b then (Some ''read overflow'', z) else decode b z),
         aMarshalJSON = (\<lambda>x. Inr (pack (to x))),
         aUnmarshalJSON = decode\<rparr>)"

lemma field_codec_laws:
  assumes "\<And>x. from (to x) = Some (e x)" and "\<And>ss y. from ss = Some y \<Longrightarrow> e y = y"
  shows "codec_laws (field_codec to from) z e w"
  using assms
  by unfold_locales
    (auto simp: field_codec_def Let_def Option.bind_eq_Some_conv split: option.splits if_splits)

text \<open>A codec of strings that writes them as they are, for identifiers.\<close>

definition plain_codec :: "string amino" where
  "plain_codec =
    \<lparr>aMarshal = Inr,
     aUnmarshal = (\<lambda>b z. (None, b)),
     aUnmarshalReader = (\<lambda>b z n. if n < length b then (Some ''read overflow'', z) else (None, b)),
     aMarshalJSON = Inr,
     aUnmarshalJSON = (\<lambda>b z. (None, b))\<rparr>"

lemma plain_codec_laws: "codec_laws plain_codec [] (\<lambda>x. x) w"
  by unfold_locales (auto simp: plain_codec_def split: if_splits)

end
