(* ===== verification/Ldb.thy ===== *)
theory Ldb
  imports Reference
begin

text \<open>
  The storage layer of ldb/: the \<open>Database\<close> and \<open>Batch\<close> interfaces with their two
  implementations each, and the key filter. An interface value is a value of a datatype
  with one constructor per implementing type, and a method dispatches on it. The LevelDB
  handle is the parameter \<open>L\<close>; the contents of the database are passed as state.
\<close>

section \<open>Opening a database\<close>

record ldb_options =
  OpenFilesCacheCapacity :: int
  BlockCacheCapacity :: int
  WriteBuffer :: int
  BloomBits :: int

text \<open>A Go \<open>int\<close> has 64 bits and its product wraps around.\<close>

definition wrap64 :: "int \<Rightarrow> int" where
  "wrap64 x = (x + 2 ^ 63) mod 2 ^ 64 - 2 ^ 63"

definition MiB :: int where "MiB = 1024 * 1024"

definition ldb_opts :: "int \<Rightarrow> int \<Rightarrow> ldb_options" where
  "ldb_opts cache handles =
    (let cache = (if cache < 16 then 16 else cache);
         handles = (if handles < 16 then 16 else handles)
     in \<lparr>OpenFilesCacheCapacity = handles,
         BlockCacheCapacity = wrap64 (cache div 2 * MiB),
         WriteBuffer = wrap64 (cache div 4 * MiB),
         BloomBits = 10\<rparr>)"

lemma wrap64_small: "- (2 ^ 63) \<le> x \<Longrightarrow> x < 2 ^ 63 \<Longrightarrow> wrap64 x = x"
  by (simp add: wrap64_def)

section \<open>Databases and tables\<close>

datatype Database =
    LDBDatabase string
  | table Database string

text \<open>\<open>openFile\<close> stands for \<open>leveldb.OpenFile\<close>, which yields the contents it found.\<close>

definition NewLDBDatabase ::
    "(string \<Rightarrow> ldb_options \<Rightarrow> err + 'd) \<Rightarrow> string \<Rightarrow> int \<Rightarrow> int \<Rightarrow> err + (Database \<times> 'd)" where
  "NewLDBDatabase openFile file cache handles =
    (case openFile file (ldb_opts cache handles) of
       Inl e \<Rightarrow> Inl e
     | Inr d \<Rightarrow> Inr (LDBDatabase file, d))"

definition NewTable :: "Database \<Rightarrow> string \<Rightarrow> Database" where
  "NewTable db pre = table db pre"

text \<open>
  The methods of \<open>*LDBDatabase\<close>, which pass the call to the LevelDB handle \<open>L\<close>; the handle
  itself is what \<open>LDB\<close> returns. The errors of \<open>Close\<close> are dropped.
\<close>

definition LDB_Put :: "'d leveldb \<Rightarrow> bytes \<Rightarrow> bytes \<Rightarrow> 'd \<Rightarrow> err option \<times> 'd" where
  [simp]: "LDB_Put L key val d = lvPut L key val d"

definition LDB_Has :: "'d leveldb \<Rightarrow> bytes \<Rightarrow> 'd \<Rightarrow> err + bool" where
  [simp]: "LDB_Has L key d = lvHas L key d"

definition LDB_Get :: "'d leveldb \<Rightarrow> bytes \<Rightarrow> 'd \<Rightarrow> err + bytes" where
  [simp]: "LDB_Get L key d = lvGet L key d"

definition LDB_Delete :: "'d leveldb \<Rightarrow> bytes \<Rightarrow> 'd \<Rightarrow> err option \<times> 'd" where
  [simp]: "LDB_Delete L key d = lvDelete L key d"

definition LDB_NewIterator :: "'d leveldb \<Rightarrow> 'd \<Rightarrow> (bytes \<times> bytes) list" where
  [simp]: "LDB_NewIterator L d = lvIter L d"

definition LDB_Close :: "'d leveldb \<Rightarrow> 'd \<Rightarrow> 'd" where
  [simp]: "LDB_Close L d = lvClose L d"

definition LDB :: "'d leveldb \<Rightarrow> 'd leveldb" where
  "LDB L = L"

text \<open>
  The methods of a \<open>Database\<close>: a table passes the call to the database it wraps with its prefix
  before the key.
\<close>

fun db_Path :: "Database \<Rightarrow> string option" where
  "db_Path (LDBDatabase fn) = Some fn"
| "db_Path (table db pre) = None"

fun db_Put :: "'d leveldb \<Rightarrow> Database \<Rightarrow> bytes \<Rightarrow> bytes \<Rightarrow> 'd \<Rightarrow> err option \<times> 'd" where
  "db_Put L (LDBDatabase fn) k v d = LDB_Put L k v d"
| "db_Put L (table db pre) k v d = db_Put L db (pre @ k) v d"

fun db_Has :: "'d leveldb \<Rightarrow> Database \<Rightarrow> bytes \<Rightarrow> 'd \<Rightarrow> err + bool" where
  "db_Has L (LDBDatabase fn) k d = LDB_Has L k d"
| "db_Has L (table db pre) k d = db_Has L db (pre @ k) d"

fun db_Get :: "'d leveldb \<Rightarrow> Database \<Rightarrow> bytes \<Rightarrow> 'd \<Rightarrow> err + bytes" where
  "db_Get L (LDBDatabase fn) k d = LDB_Get L k d"
| "db_Get L (table db pre) k d = db_Get L db (pre @ k) d"

fun db_Delete :: "'d leveldb \<Rightarrow> Database \<Rightarrow> bytes \<Rightarrow> 'd \<Rightarrow> err option \<times> 'd" where
  "db_Delete L (LDBDatabase fn) k d = LDB_Delete L k d"
| "db_Delete L (table db pre) k d = db_Delete L db (pre @ k) d"

text \<open>The iterator of a table is the iterator of the whole database.\<close>

fun db_NewIterator :: "'d leveldb \<Rightarrow> Database \<Rightarrow> 'd \<Rightarrow> (bytes \<times> bytes) list" where
  "db_NewIterator L (LDBDatabase fn) d = LDB_NewIterator L d"
| "db_NewIterator L (table db pre) d = db_NewIterator L db d"

fun db_Close :: "'d leveldb \<Rightarrow> Database \<Rightarrow> 'd \<Rightarrow> 'd" where
  "db_Close L (LDBDatabase fn) d = LDB_Close L d"
| "db_Close L (table db pre) d = d"

section \<open>Batches\<close>

text \<open>
  An \<open>ldbBatch\<close> holds the batch of LevelDB, which is the list of its writes, and the total size
  of their values, a Go \<open>int\<close>; a \<open>tableBatch\<close> prefixes the keys it passes on.
\<close>

record ldb_batch =
  lbB :: "(bytes \<times> bytes) list"
  lbSize :: int

definition ldbBatch_Put :: "ldb_batch \<Rightarrow> bytes \<Rightarrow> bytes \<Rightarrow> err option \<times> ldb_batch" where
  "ldbBatch_Put b key val =
    (None, b\<lparr>lbB := lbB b @ [(key, val)], lbSize := wrap64 (lbSize b + int (length val))\<rparr>)"

definition ldbBatch_Write :: "'d leveldb \<Rightarrow> ldb_batch \<Rightarrow> 'd \<Rightarrow> err option \<times> 'd" where
  "ldbBatch_Write L b d = lvWrite L (lbB b) d"

definition ldbBatch_ValueSize :: "ldb_batch \<Rightarrow> int" where
  "ldbBatch_ValueSize b = lbSize b"

definition LDB_NewBatch :: ldb_batch where
  "LDB_NewBatch = \<lparr>lbB = [], lbSize = 0\<rparr>"

datatype Batch =
    ldbBatch ldb_batch
  | tableBatch Batch string

fun db_NewBatch :: "Database \<Rightarrow> Batch" where
  "db_NewBatch (LDBDatabase fn) = ldbBatch LDB_NewBatch"
| "db_NewBatch (table db pre) = tableBatch (db_NewBatch db) pre"

definition NewTableBatch :: "Database \<Rightarrow> string \<Rightarrow> Batch" where
  "NewTableBatch db pre = tableBatch (db_NewBatch db) pre"

fun batch_Put :: "Batch \<Rightarrow> bytes \<Rightarrow> bytes \<Rightarrow> err option \<times> Batch" where
  "batch_Put (ldbBatch b) k v = (let (e, b') = ldbBatch_Put b k v in (e, ldbBatch b'))"
| "batch_Put (tableBatch b pre) k v =
     (let (e, b') = batch_Put b (pre @ k) v in (e, tableBatch b' pre))"

fun batch_Write :: "'d leveldb \<Rightarrow> Batch \<Rightarrow> 'd \<Rightarrow> err option \<times> 'd" where
  "batch_Write L (ldbBatch b) d = ldbBatch_Write L b d"
| "batch_Write L (tableBatch b pre) d = batch_Write L b d"

fun batch_ValueSize :: "Batch \<Rightarrow> int" where
  "batch_ValueSize (ldbBatch b) = ldbBatch_ValueSize b"
| "batch_ValueSize (tableBatch b pre) = batch_ValueSize b"

lemmas ldbBatch_defs = ldbBatch_Put_def ldbBatch_Write_def ldbBatch_ValueSize_def LDB_NewBatch_def

section \<open>The interfaces\<close>

text \<open>
  The method sets of ldb/interface.go as records of functions on a state: what a client of a
  \<open>Putter\<close>, a \<open>Database\<close> or a \<open>Batch\<close> can do with it. The two functions after them are the method
  tables of the values this package hands out.
\<close>

definition IdealBatchSize :: int where "IdealBatchSize = 100 * 1024"

record 's Putter =
  iPut :: "bytes \<Rightarrow> bytes \<Rightarrow> 's \<Rightarrow> err option \<times> 's"

record ('s, 'b) iDatabase = "'s Putter" +
  iGet :: "bytes \<Rightarrow> 's \<Rightarrow> err + bytes"
  iHas :: "bytes \<Rightarrow> 's \<Rightarrow> err + bool"
  iDelete :: "bytes \<Rightarrow> 's \<Rightarrow> err option \<times> 's"
  iClose :: "'s \<Rightarrow> 's"
  iNewBatch :: 'b
  iNewIterator :: "'s \<Rightarrow> (bytes \<times> bytes) list"

record ('s, 'd) iBatch = "'s Putter" +
  iValueSize :: "'s \<Rightarrow> int"
  iWrite :: "'s \<Rightarrow> 'd \<Rightarrow> err option \<times> 'd"

definition database_methods :: "'d leveldb \<Rightarrow> Database \<Rightarrow> ('d, Batch) iDatabase" where
  "database_methods L db =
    \<lparr>iPut = db_Put L db, iGet = db_Get L db, iHas = db_Has L db, iDelete = db_Delete L db,
     iClose = db_Close L db, iNewBatch = db_NewBatch db, iNewIterator = db_NewIterator L db\<rparr>"

definition batch_methods :: "'d leveldb \<Rightarrow> (Batch, 'd) iBatch" where
  "batch_methods L =
    \<lparr>iPut = (\<lambda>k v b. batch_Put b k v), iValueSize = batch_ValueSize, iWrite = batch_Write L\<rparr>"

text \<open>A client of a \<open>Putter\<close>: it puts a list of entries one by one.\<close>

definition put_all :: "('s, 'z) Putter_scheme \<Rightarrow> (bytes \<times> bytes) list \<Rightarrow> 's \<Rightarrow> 's" where
  "put_all P kvs s = fold (\<lambda>(k, v) s. snd (iPut P k v s)) kvs s"

section \<open>The key filter\<close>

definition Kfilter :: "bytes \<Rightarrow> bytes \<Rightarrow> bool" where
  "Kfilter pre k = (if length k > length pre then take (length pre) k = pre else False)"

lemma Kfilter_iff: "Kfilter pre k \<longleftrightarrow> (\<exists>x. x \<noteq> [] \<and> k = pre @ x)"
proof
  assume "Kfilter pre k"
  then have "length pre < length k" and "take (length pre) k = pre"
    by (auto simp: Kfilter_def split: if_splits)
  then have "drop (length pre) k \<noteq> [] \<and> k = pre @ drop (length pre) k"
    by (metis append_take_drop_id drop_eq_Nil leD)
  then show "\<exists>x. x \<noteq> [] \<and> k = pre @ x" by blast
next
  assume "\<exists>x. x \<noteq> [] \<and> k = pre @ x"
  then show "Kfilter pre k" by (auto simp: Kfilter_def)
qed

lemma Kfilter_empty: "Kfilter [] k \<longleftrightarrow> k \<noteq> []"
  by (simp add: Kfilter_iff)

lemma Kfilter_same_length:
  "length p = length q \<Longrightarrow> Kfilter p (q @ x) \<longleftrightarrow> p = q \<and> x \<noteq> []"
  by (auto simp: Kfilter_def)

section \<open>The contract of a Database\<close>

text \<open>
  What the mailbox, the group store and the user service rely on, whatever database they
  are given: the interface \<open>Database\<close> of ldb/interface.go as a map.
\<close>

locale kv_store =
  fixes put :: "bytes \<Rightarrow> bytes \<Rightarrow> 'd \<Rightarrow> err option \<times> 'd"
    and get :: "bytes \<Rightarrow> 'd \<Rightarrow> err + bytes"
    and del :: "bytes \<Rightarrow> 'd \<Rightarrow> err option \<times> 'd"
    and ok :: "'d \<Rightarrow> bool"
    and contents :: "'d \<Rightarrow> bytes \<rightharpoonup> bytes"
  assumes put_err: "ok d \<Longrightarrow> fst (put k v d) = None"
    and put_ok: "ok d \<Longrightarrow> ok (snd (put k v d))"
    and put_contents: "ok d \<Longrightarrow> contents (snd (put k v d)) = (contents d)(k \<mapsto> v)"
    and get_Some: "ok d \<Longrightarrow> contents d k = Some v \<Longrightarrow> get k d = Inr v"
    and get_None: "ok d \<Longrightarrow> contents d k = None \<Longrightarrow> \<exists>e. get k d = Inl e"
    and del_err: "ok d \<Longrightarrow> fst (del k d) = None"
    and del_ok: "ok d \<Longrightarrow> ok (snd (del k d))"
    and del_contents: "ok d \<Longrightarrow> contents (snd (del k d)) = (contents d)(k := None)"
begin

lemmas store_ops = put_err put_ok put_contents del_err del_ok del_contents

lemma get_iff: "ok d \<Longrightarrow> get k d = Inr v \<longleftrightarrow> contents d k = Some v"
  using get_Some[of d k v] get_None[of d k] by (cases "contents d k") (auto dest: get_Some)

lemma get_after_put: "ok d \<Longrightarrow> get k (snd (put k v d)) = Inr v"
  by (simp add: get_iff store_ops)

lemma get_after_other_put: "ok d \<Longrightarrow> k' \<noteq> k \<Longrightarrow> get k (snd (put k' v d)) = Inr w \<longleftrightarrow> get k d = Inr w"
  by (simp add: get_iff store_ops)

lemma get_after_del: "ok d \<Longrightarrow> \<exists>e. get k (snd (del k d)) = Inl e"
  by (rule get_None) (simp_all add: store_ops)

text \<open>Deleting a list of keys, ignoring the errors.\<close>

lemma del_fold:
  "ok d \<Longrightarrow> ok (fold (\<lambda>k d. snd (del k d)) ks d) \<and>
    contents (fold (\<lambda>k d. snd (del k d)) ks d) = (\<lambda>k. if k \<in> set ks then None else contents d k)"
  by (induction ks arbitrary: d) (auto simp: store_ops)

lemma put_fold:
  "ok d \<Longrightarrow> ok (fold (\<lambda>(k, v) d. snd (put k v d)) kvs d) \<and>
    contents (fold (\<lambda>(k, v) d. snd (put k v d)) kvs d) = contents d ++ map_of (rev kvs)"
  by (induction kvs arbitrary: d) (auto simp: store_ops map_add_def fun_eq_iff split: option.split)

end

text \<open>Every \<open>Database\<close> over a lawful LevelDB is such a store: its keys are prefixed.\<close>

fun db_prefix :: "Database \<Rightarrow> string" where
  "db_prefix (LDBDatabase fn) = []"
| "db_prefix (table db pre) = db_prefix db @ pre"

lemma db_Put_prefix: "db_Put L db k v d = lvPut L (db_prefix db @ k) v d"
  by (induction db arbitrary: k) auto

lemma db_Has_prefix: "db_Has L db k d = lvHas L (db_prefix db @ k) d"
  by (induction db arbitrary: k) auto

lemma db_Get_prefix: "db_Get L db k d = lvGet L (db_prefix db @ k) d"
  by (induction db arbitrary: k) auto

lemma db_Delete_prefix: "db_Delete L db k d = lvDelete L (db_prefix db @ k) d"
  by (induction db arbitrary: k) auto

lemma db_NewIterator_all: "db_NewIterator L db d = lvIter L d"
  by (induction db) auto

lemmas db_prefixed = db_Put_prefix db_Has_prefix db_Get_prefix db_Delete_prefix db_NewIterator_all

definition db_contents :: "('d \<Rightarrow> bytes \<rightharpoonup> bytes) \<Rightarrow> Database \<Rightarrow> 'd \<Rightarrow> bytes \<rightharpoonup> bytes" where
  "db_contents view db d = (\<lambda>k. view d (db_prefix db @ k))"

context leveldb_laws
begin

lemma lv_get_iff: "ok d \<Longrightarrow> lvGet L k d = Inr v \<longleftrightarrow> view d k = Some v"
  using lv_get_Some[of d k v] lv_get_None[of d k] by (cases "view d k") (auto dest: lv_get_Some)

lemma database_store:
  "kv_store (db_Put L db) (db_Get L db) (db_Delete L db) ok (db_contents view db)"
  by unfold_locales
    (auto simp: db_prefixed db_contents_def lv_put lv_put_ok lv_put_view lv_delete lv_delete_ok
      lv_delete_view lv_get_None lv_get_iff fun_eq_iff)

end

locale database = leveldb_laws +
  fixes db :: Database

sublocale database \<subseteq> kv_store "db_Put L db" "db_Get L db" "db_Delete L db" ok "db_contents view db"
  by (rule database_store)

section \<open>Batches and puts\<close>

fun batch_prefix :: "Batch \<Rightarrow> string" where
  "batch_prefix (ldbBatch b) = []"
| "batch_prefix (tableBatch b pre) = batch_prefix b @ pre"

fun batch_writes :: "Batch \<Rightarrow> (bytes \<times> bytes) list" where
  "batch_writes (ldbBatch b) = lbB b"
| "batch_writes (tableBatch b pre) = batch_writes b"

definition batch_PutAll :: "(bytes \<times> bytes) list \<Rightarrow> Batch \<Rightarrow> Batch" where
  "batch_PutAll kvs b = fold (\<lambda>(k, v) b. snd (batch_Put b k v)) kvs b"

lemma put_all_methods:
  "put_all (batch_methods L) kvs b = batch_PutAll kvs b"
  "put_all (database_methods L db) kvs d = fold (\<lambda>(k, v) d. snd (db_Put L db k v d)) kvs d"
  by (simp_all add: put_all_def batch_methods_def database_methods_def batch_PutAll_def)

lemma batch_Put_ok: "fst (batch_Put b k v) = None"
  by (induction b arbitrary: k) (auto simp: Let_def case_prod_beta ldbBatch_defs)

lemma batch_Put_prefix [simp]: "batch_prefix (snd (batch_Put b k v)) = batch_prefix b"
  by (induction b arbitrary: k) (auto simp: Let_def case_prod_beta ldbBatch_defs)

lemma batch_Put_writes:
  "batch_writes (snd (batch_Put b k v)) = batch_writes b @ [(batch_prefix b @ k, v)]"
  by (induction b arbitrary: k) (auto simp: Let_def case_prod_beta ldbBatch_defs)

lemma batch_Put_size: "batch_ValueSize (snd (batch_Put b k v)) = wrap64 (batch_ValueSize b + int (length v))"
  by (induction b arbitrary: k) (auto simp: Let_def case_prod_beta ldbBatch_defs)

lemma batch_Write_writes: "batch_Write L b d = lvWrite L (batch_writes b) d"
  by (induction b) (auto simp: ldbBatch_defs)

lemma batch_PutAll_writes:
  "batch_writes (batch_PutAll kvs b) =
    batch_writes b @ map (\<lambda>(k, v). (batch_prefix b @ k, v)) kvs"
  by (induction kvs arbitrary: b) (auto simp: batch_PutAll_def batch_Put_writes)

lemma batch_NewBatch_prefix: "batch_prefix (db_NewBatch db) = db_prefix db"
  and batch_NewBatch_writes: "batch_writes (db_NewBatch db) = []"
  and batch_NewBatch_size: "batch_ValueSize (db_NewBatch db) = 0"
  by (induction db) (auto simp: ldbBatch_defs)

lemma batch_PutAll_size:
  assumes "batch_ValueSize b + (\<Sum>(k, v)\<leftarrow>kvs. int (length v)) < 2 ^ 63" and "0 \<le> batch_ValueSize b"
  shows "batch_ValueSize (batch_PutAll kvs b) = batch_ValueSize b + (\<Sum>(k, v)\<leftarrow>kvs. int (length v))"
  using assms
proof (induction kvs arbitrary: b)
  case Nil
  then show ?case by (simp add: batch_PutAll_def)
next
  case (Cons kv kvs)
  obtain k v where kv: "kv = (k, v)" by (cases kv)
  have "0 \<le> (\<Sum>(k, v)\<leftarrow>kvs. int (length v))"
    by (rule sum_list_nonneg) auto
  with Cons.prems kv have "batch_ValueSize (snd (batch_Put b k v)) = batch_ValueSize b + int (length v)"
    by (subst batch_Put_size, subst wrap64_small) auto
  with Cons.IH[of "snd (batch_Put b k v)"] Cons.prems kv show ?case
    by (simp add: batch_PutAll_def)
qed

context leveldb_laws
begin

lemma lv_fold_put:
  "ok d \<Longrightarrow> view (fold (\<lambda>(k, v) d. snd (lvPut L k v d)) kvs d) = view d ++ map_of (rev kvs)"
  using kv_store.put_fold [OF database_store, of d "LDBDatabase []" kvs]
  by (simp add: db_contents_def)

lemma db_fold_put:
  "ok d \<Longrightarrow> view (fold (\<lambda>(k, v) d. snd (db_Put L db k v d)) kvs d) =
    view d ++ map_of (rev (map (\<lambda>(k, v). (db_prefix db @ k, v)) kvs))"
  using lv_fold_put [of d "map (\<lambda>(k, v). (db_prefix db @ k, v)) kvs"]
  by (simp add: fold_map db_Put_prefix comp_def case_prod_unfold)

lemma batch_write_view:
  "ok d \<Longrightarrow> fst (batch_Write L (batch_PutAll kvs (db_NewBatch db)) d) = None \<and>
    view (snd (batch_Write L (batch_PutAll kvs (db_NewBatch db)) d)) =
    view d ++ map_of (rev (map (\<lambda>(k, v). (db_prefix db @ k, v)) kvs))"
  by (simp add: batch_Write_writes batch_PutAll_writes batch_NewBatch_prefix
      batch_NewBatch_writes lv_write lv_write_view)

lemma other_table_put:
  "ok d \<Longrightarrow> length p = length q \<Longrightarrow> p \<noteq> q \<Longrightarrow>
    db_contents view (NewTable db q) (snd (db_Put L (NewTable db p) k v d)) =
    db_contents view (NewTable db q) d"
  by (auto simp: db_contents_def NewTable_def db_prefixed lv_put_view fun_eq_iff)

lemma other_table_delete:
  "ok d \<Longrightarrow> length p = length q \<Longrightarrow> p \<noteq> q \<Longrightarrow>
    db_contents view (NewTable db q) (snd (db_Delete L (NewTable db p) k d)) =
    db_contents view (NewTable db q) d"
  by (auto simp: db_contents_def NewTable_def db_prefixed lv_delete_view fun_eq_iff)

lemma db_get_iff:
  "ok d \<Longrightarrow> db_Get L db k d = Inr v \<longleftrightarrow> db_contents view db d k = Some v"
  by (rule kv_store.get_iff [OF database_store])

end

section \<open>Properties of the storage layer\<close>

text \<open>
  Property C38: a batch is equivalent to the puts it collects. Whatever tables wrap the
  database, writing the batch that \<open>NewBatch\<close> hands out, after any puts into it, succeeds and
  leaves exactly the contents that the same puts through the database would leave. The size the
  batch reports is the total length of the values put, repeated keys counted each time, as a
  64-bit integer: exact below 2^63.
\<close>

theorem batch_equals_puts:
  assumes laws: "leveldb_laws L ok view" and ok: "ok d"
    and b: "b = put_all (batch_methods L) kvs (iNewBatch (database_methods L db))"
  shows "fst (iWrite (batch_methods L) b d) = None \<and>
    view (snd (iWrite (batch_methods L) b d)) = view (put_all (database_methods L db) kvs d) \<and>
    ((\<Sum>(k, v)\<leftarrow>kvs. int (length v)) < 2 ^ 63 \<longrightarrow>
      iValueSize (batch_methods L) b = (\<Sum>(k, v)\<leftarrow>kvs. int (length v)))"
proof -
  have b': "b = batch_PutAll kvs (db_NewBatch db)"
    by (simp add: b put_all_methods) (simp add: database_methods_def)
  show ?thesis
    using batch_PutAll_size [of "db_NewBatch db" kvs]
    by (simp add: b' put_all_methods batch_methods_def leveldb_laws.batch_write_view [OF laws ok]
        leveldb_laws.db_fold_put [OF laws ok] batch_NewBatch_size)
qed

theorem batch_equals_puts_witness:
  "map_of (snd (iWrite (batch_methods mem_leveldb)
      (put_all (batch_methods mem_leveldb) [(''a'', ''1''), (''a'', ''22'')]
        (iNewBatch (database_methods mem_leveldb (table (LDBDatabase ''f'') ''T'')))) [])) =
    map_of (put_all (database_methods mem_leveldb (table (LDBDatabase ''f'') ''T''))
      [(''a'', ''1''), (''a'', ''22'')] []) \<and>
   iValueSize (batch_methods mem_leveldb)
      (put_all (batch_methods mem_leveldb) [(''a'', ''1''), (''a'', ''22'')]
        (iNewBatch (database_methods mem_leveldb (table (LDBDatabase ''f'') ''T'')))) = 3"
  using batch_equals_puts [OF mem.leveldb_laws_axioms mem_ok_empty refl,
      of "[(''a'', ''1''), (''a'', ''22'')]" "table (LDBDatabase ''f'') ''T''"] by simp

text \<open>
  Two tables whose prefixes have the same length but differ are isolated: a put
  or a delete in one changes no read of the other. The mailbox depends on it, with peer ids
  of 53 bytes as prefixes.
\<close>

theorem tables_isolated:
  assumes laws: "leveldb_laws L ok view" and ok: "ok d"
    and len: "length p = length q" and neq: "p \<noteq> q"
  shows "(db_Get L (NewTable db q) k' (snd (db_Put L (NewTable db p) k v d)) = Inr w \<longleftrightarrow>
      db_Get L (NewTable db q) k' d = Inr w) \<and>
    (db_Get L (NewTable db q) k' (snd (db_Delete L (NewTable db p) k d)) = Inr w \<longleftrightarrow>
      db_Get L (NewTable db q) k' d = Inr w)"
proof -
  have "ok (snd (db_Put L (NewTable db p) k v d))" "ok (snd (db_Delete L (NewTable db p) k d))"
    using kv_store.put_ok [OF leveldb_laws.database_store [OF laws] ok]
      kv_store.del_ok [OF leveldb_laws.database_store [OF laws] ok] by blast+
  then show ?thesis
    by (simp add: leveldb_laws.db_get_iff [OF laws] ok
        leveldb_laws.other_table_put [OF laws ok len neq] leveldb_laws.other_table_delete [OF laws ok len neq])
qed

theorem tables_isolated_witness:
  "db_Get mem_leveldb (NewTable (LDBDatabase ''f'') ''q'') ''x''
      (snd (db_Put mem_leveldb (NewTable (LDBDatabase ''f'') ''p'') ''x'' ''v'' [])) = Inr ''v'' \<longleftrightarrow>
   db_Get mem_leveldb (NewTable (LDBDatabase ''f'') ''q'') ''x'' [] = Inr ''v''"
  using tables_isolated [OF mem.leveldb_laws_axioms mem_ok_empty,
      of "''p''" "''q''" "LDBDatabase ''f''" "''x''" "''x''" "''v''" "''v''"] by simp

text \<open>
  Property C39: the tuning knobs. Whatever cache size below 2^44 (in MiB) and number of
  handles are asked for, the options LevelDB is opened with have at least 16 files, a block
  cache of at least 8 MiB and a write buffer of at least 4 MiB, and the sizes did not wrap.
  The bound is sharp: at 2^44 the size of the block cache wraps to the least 64-bit integer.
\<close>

theorem ldb_opts_bounds:
  assumes "cache < 2 ^ 44"
  shows "16 \<le> OpenFilesCacheCapacity (ldb_opts cache handles) \<and>
    8 * MiB \<le> BlockCacheCapacity (ldb_opts cache handles) \<and>
    4 * MiB \<le> WriteBuffer (ldb_opts cache handles) \<and>
    BlockCacheCapacity (ldb_opts cache handles) = max 16 cache div 2 * MiB \<and>
    WriteBuffer (ldb_opts cache handles) = max 16 cache div 4 * MiB \<and>
    BlockCacheCapacity (ldb_opts (2 ^ 44) handles) = - (2 ^ 63)"
proof -
  let ?c = "max 16 cache"
  have c: "(if cache < 16 then 16 else cache) = ?c" by simp
  have "16 \<le> ?c" "?c < 2 ^ 44" using assms by auto
  then have "8 \<le> ?c div 2" "4 \<le> ?c div 4" "?c div 2 < 2 ^ 43" "?c div 4 < 2 ^ 43" by auto
  then have "wrap64 (?c div 2 * MiB) = ?c div 2 * MiB" "wrap64 (?c div 4 * MiB) = ?c div 4 * MiB"
    "8 * MiB \<le> ?c div 2 * MiB" "4 * MiB \<le> ?c div 4 * MiB"
    by (auto intro!: wrap64_small simp: MiB_def)
  moreover have "BlockCacheCapacity (ldb_opts (2 ^ 44) handles) = - (2 ^ 63)"
    by (simp add: ldb_opts_def wrap64_def MiB_def)
  ultimately show ?thesis by (simp add: ldb_opts_def Let_def c)
qed

theorem ldb_opts_bounds_witness:
  "8 * MiB \<le> BlockCacheCapacity (ldb_opts 0 0) \<and>
   BlockCacheCapacity (ldb_opts 4096 64) = 2048 * MiB \<and> BlockCacheCapacity (ldb_opts (2 ^ 44) 64) < 0"
  using ldb_opts_bounds [of 0 0] ldb_opts_bounds [of 4096 64] by simp

end
