(* ===== verification/Types.thy ===== *)
theory Types
  imports Platform "HOL-Library.Word"
begin

text \<open>
  The data of the chat protocol, from types.go and the group types of mailbox_group.go:
  identifiers, envelopes, messages and the bags and requests that carry them, with their
  constructors and codec methods. A pointer to a value nobody mutates is the value; a
  pointer that may be nil is an option. \<open>Ct\<close> and \<open>Type\<close> are Go integers that are only
  compared and copied, so they are integers here; \<open>Ack\<close> is a byte.
\<close>

section \<open>Messages (types.go)\<close>

type_synonym MsgType = int
type_synonym JID = string
type_synonym GID = string

definition NormalMsg :: MsgType where "NormalMsg = 1"
definition GroupMsg :: MsgType where "GroupMsg = 2"
definition SyncMsg :: MsgType where "SyncMsg = 3"
definition SysMsg :: MsgType where "SysMsg = 4"
definition RtpMsg :: MsgType where "RtpMsg = 5"
definition BakMsg :: MsgType where "BakMsg = 6"
definition PubsubMsg :: MsgType where "PubsubMsg = 7"

definition NoACK :: "8 word" where "NoACK = 0"
definition ACK :: "8 word" where "ACK = 1"

definition MAX_PKG :: nat where "MAX_PKG = 2048"

record Envelope =
  eId :: string
  eFrom :: JID
  eTo :: JID
  eType :: MsgType
  eAck :: "8 word"
  eCt :: int
  eGid :: JID

record Attr =
  aKey :: string
  aVal :: string

record Payload =
  pAttrs :: "Attr list"
  pContent :: string

record Message =
  mEnvelope :: Envelope
  mPayload :: Payload
  mVsn :: string

type_synonym MessageList = "Message list"

record MessageBag =
  Messages :: MessageList

record CleanMsg =
  cJid :: JID
  cIds :: "string list"

subsection \<open>Identifiers\<close>

definition NewJID :: "string \<Rightarrow> string \<Rightarrow> JID" where
  "NewJID pid mailbox = (if mailbox \<noteq> [] then pid @ mailbox else pid)"

definition Peerid :: "JID \<Rightarrow> string" where
  "Peerid i = (if length i < 53 then [] else take 53 i)"

definition Mailid :: "JID \<Rightarrow> string" where
  "Mailid i = (if length i < 53 * 2 then [] else drop 53 (take (53 * 2) i))"

lemma length_Peerid: "length (Peerid i) = (if length i < 53 then 0 else 53)"
  by (simp add: Peerid_def)

lemma Peerid_short: "length i < 53 \<Longrightarrow> Peerid i = []"
  by (simp add: Peerid_def)

lemma Peerid_NewJID: "length p = 53 \<Longrightarrow> Peerid (NewJID p m) = p"
  by (simp add: NewJID_def Peerid_def)

lemma Mailid_NewJID: "length p = 53 \<Longrightarrow> length m = 53 \<Longrightarrow> Mailid (NewJID p m) = m"
  by (auto simp: NewJID_def Mailid_def)

lemma Peerid_idem: "Peerid (Peerid i) = Peerid i"
  by (simp add: Peerid_def)

lemma Peerid_eq_iff:
  "length i \<ge> 53 \<Longrightarrow> length j \<ge> 53 \<Longrightarrow> Peerid i = Peerid j \<longleftrightarrow> take 53 i = take 53 j"
  by (simp add: Peerid_def)

subsection \<open>Fresh values and constructors\<close>

definition zero_Envelope :: Envelope where
  "zero_Envelope = \<lparr>eId = [], eFrom = [], eTo = [], eType = 0, eAck = 0, eCt = 0, eGid = []\<rparr>"

definition zero_Message :: Message where
  "zero_Message = \<lparr>mEnvelope = zero_Envelope, mPayload = \<lparr>pAttrs = [], pContent = []\<rparr>, mVsn = []\<rparr>"

definition zero_MessageBag :: MessageBag where
  "zero_MessageBag = \<lparr>Messages = []\<rparr>"

definition zero_CleanMsg :: CleanMsg where
  "zero_CleanMsg = \<lparr>cJid = [], cIds = []\<rparr>"

text \<open>
  \<open>newMessage\<close> reads a fresh UUID and the clock: both are arguments here.
\<close>

definition newMessage ::
    "string \<Rightarrow> int \<Rightarrow> JID \<Rightarrow> JID \<Rightarrow> string \<Rightarrow> string \<Rightarrow> MsgType \<Rightarrow> Attr list \<Rightarrow> Message" where
  "newMessage uuid now from to mid content mt attr =
    (let envelope = zero_Envelope\<lparr>eId := uuid, eType := mt, eAck := NoACK, eCt := now\<rparr>;
         envelope = (if mid \<noteq> [] then envelope\<lparr>eId := mid\<rparr> else envelope);
         envelope = (if from \<noteq> [] then envelope\<lparr>eFrom := from\<rparr> else envelope);
         envelope = (if to \<noteq> [] then envelope\<lparr>eTo := to\<rparr> else envelope)
     in \<lparr>mEnvelope = envelope, mPayload = \<lparr>pAttrs = attr, pContent = content\<rparr>, mVsn = ''0.0.2''\<rparr>)"

definition NewNormalMessage ::
    "string \<Rightarrow> int \<Rightarrow> JID \<Rightarrow> JID \<Rightarrow> string \<Rightarrow> Attr list \<Rightarrow> Message" where
  "NewNormalMessage uuid now from to content attr =
    newMessage uuid now from to [] content NormalMsg attr"

definition NewSysMessage :: "string \<Rightarrow> int \<Rightarrow> string \<Rightarrow> Attr list \<Rightarrow> Message" where
  "NewSysMessage uuid now mid attr = newMessage uuid now [] [] mid [] SysMsg attr"

subsection \<open>MessageList: the sort interface\<close>

text \<open>An index out of range panics: \<open>None\<close>.\<close>

definition ml_Len :: "MessageList \<Rightarrow> nat" where
  "ml_Len m = length m"

definition ml_Less :: "MessageList \<Rightarrow> nat \<Rightarrow> nat \<Rightarrow> bool option" where
  "ml_Less m i j =
    (if i < length m \<and> j < length m
     then Some (eCt (mEnvelope (m ! i)) < eCt (mEnvelope (m ! j))) else None)"

definition ml_Swap :: "MessageList \<Rightarrow> nat \<Rightarrow> nat \<Rightarrow> MessageList option" where
  "ml_Swap m i j =
    (if i < length m \<and> j < length m then Some (m[i := m ! j, j := m ! i]) else None)"

text \<open>The order on messages that \<open>Less\<close> compares two positions by.\<close>

definition ct_less :: "Message \<Rightarrow> Message \<Rightarrow> bool" where
  "ct_less a b \<longleftrightarrow> eCt (mEnvelope a) < eCt (mEnvelope b)"

lemma ml_Less_ct: "i < length m \<Longrightarrow> j < length m \<Longrightarrow> ml_Less m i j = Some (ct_less (m ! i) (m ! j))"
  by (simp add: ml_Less_def ct_less_def)

lemma ml_Swap_perm: "ml_Swap m i j = Some m' \<Longrightarrow> mset m' = mset m"
  by (auto simp: ml_Swap_def mset_swap split: if_splits)

section \<open>Groups (mailbox_group.go)\<close>

type_synonym MemberAction = string

definition ADD :: MemberAction where "ADD = ''+''"
definition SUB :: MemberAction where "SUB = ''-''"
definition FROM :: MemberAction where "FROM = ''f''"
definition TO :: MemberAction where "TO = ''t''"

lemma action_neq [simp]: "ADD \<noteq> SUB" "SUB \<noteq> ADD" "FROM \<noteq> TO" "TO \<noteq> FROM" "ADD \<noteq> []" "SUB \<noteq> []" "[] \<noteq> ADD" "[] \<noteq> SUB"
  "ADD \<noteq> FROM" "ADD \<noteq> TO" "SUB \<noteq> FROM" "SUB \<noteq> TO" "FROM \<noteq> ADD" "FROM \<noteq> SUB" "TO \<noteq> ADD" "TO \<noteq> SUB"
  by (simp_all add: ADD_def SUB_def FROM_def TO_def)

text \<open>The field \<open>action\<close> of a member is the only unexported one.\<close>

record GroupMember =
  gmId :: JID
  gmName :: string
  gmGid :: GID
  gmAction :: MemberAction

record Group =
  gId :: GID
  gOwner :: "GroupMember option"
  gName :: string
  gComment :: string
  gLastlog :: string

record GroupRsp =
  grGroup :: "Group option"
  grErr :: string

record GroupMemberReq =
  rqGid :: GID
  rqId :: JID
  rqAction :: MemberAction
  rqMembers :: "GroupMember option list"

record GroupMemberRsp =
  rsAction :: MemberAction
  rsResult :: bytes
  rsErr :: string

record GroupMessage =
  gsMsg :: "Message option"
  gsParentHash :: bytes

text \<open>Members are stored as a doubly linked list; so are the entries of the member log.\<close>

record MemberItem =
  miId :: JID
  miPrve :: JID
  miNext :: JID
  miMember :: "GroupMember option"

record MemberLog =
  mlId :: string
  mlPrve :: string
  mlNext :: string
  mlAction :: MemberAction
  mlGid :: GID
  mlMemberId :: JID

definition zero_GroupMember :: GroupMember where
  "zero_GroupMember = \<lparr>gmId = [], gmName = [], gmGid = [], gmAction = []\<rparr>"

definition zero_Group :: Group where
  "zero_Group = \<lparr>gId = [], gOwner = None, gName = [], gComment = [], gLastlog = []\<rparr>"

definition zero_GroupRsp :: GroupRsp where
  "zero_GroupRsp = \<lparr>grGroup = None, grErr = []\<rparr>"

definition zero_MemberReq :: GroupMemberReq where
  "zero_MemberReq = \<lparr>rqGid = [], rqId = [], rqAction = [], rqMembers = []\<rparr>"

definition zero_MemberRsp :: GroupMemberRsp where
  "zero_MemberRsp = \<lparr>rsAction = [], rsResult = [], rsErr = []\<rparr>"

definition zero_MemberItem :: MemberItem where
  "zero_MemberItem = \<lparr>miId = [], miPrve = [], miNext = [], miMember = None\<rparr>"

definition zero_MemberLog :: MemberLog where
  "zero_MemberLog = \<lparr>mlId = [], mlPrve = [], mlNext = [], mlAction = [], mlGid = [], mlMemberId = []\<rparr>"

section \<open>Protocol ids and constants (service.go)\<close>

definition PID_NORMAL :: string where "PID_NORMAL = ''/chat/normal/0.0.1''"
definition PID_GROUP :: string where "PID_GROUP = ''/chat/group/0.0.1''"
definition PID_MAILBOX :: string where "PID_MAILBOX = ''/chat/mailbox/put/0.0.1''"
definition PID_MAILBOX_QUERY :: string where "PID_MAILBOX_QUERY = ''/chat/mailbox/query/0.0.1''"
definition PID_MAILBOX_CLEAN :: string where "PID_MAILBOX_CLEAN = ''/chat/mailbox/clean/0.0.1''"
definition PID_MAILBOX_GROUP_UPDATE :: string where
  "PID_MAILBOX_GROUP_UPDATE = ''/chat/mailbox/group/update/0.0.1''"
definition PID_MAILBOX_GROUP_DROP :: string where
  "PID_MAILBOX_GROUP_DROP = ''/chat/mailbox/group/drop/0.0.1''"
definition PID_MAILBOX_GROUP_MSG :: string where
  "PID_MAILBOX_GROUP_MSG = ''/chat/mailbox/group/msg/0.0.1''"
definition PID_MAILBOX_GROUP_MEMBER :: string where
  "PID_MAILBOX_GROUP_MEMBER = ''/chat/mailbox/group/member/0.0.1''"

lemmas PID_defs = PID_NORMAL_def PID_GROUP_def PID_MAILBOX_def PID_MAILBOX_QUERY_def
  PID_MAILBOX_CLEAN_def PID_MAILBOX_GROUP_UPDATE_def PID_MAILBOX_GROUP_DROP_def
  PID_MAILBOX_GROUP_MSG_def PID_MAILBOX_GROUP_MEMBER_def

definition request_timeout :: nat where "request_timeout = 10"

definition SUCCESS :: bytes where "SUCCESS = ''success''"

section \<open>The codecs of these types\<close>

record codecs =
  cMessage :: "Message amino"
  cBag :: "MessageBag amino"
  cClean :: "CleanMsg amino"
  cJID :: "JID amino"
  cGroup :: "Group amino"
  cGroupRsp :: "GroupRsp amino"
  cMemberReq :: "GroupMemberReq amino"
  cMemberRsp :: "GroupMemberRsp amino"
  cMemberItem :: "MemberItem amino"
  cMemberLog :: "MemberLog amino"

text \<open>
  The exported part of each type: what an encoding can carry. Only a member's
  \<open>action\<close> is lost.
\<close>

definition exp_member :: "GroupMember \<Rightarrow> GroupMember" where
  "exp_member m = m\<lparr>gmAction := []\<rparr>"

definition exp_group :: "Group \<Rightarrow> Group" where
  "exp_group g = g\<lparr>gOwner := map_option exp_member (gOwner g)\<rparr>"

definition exp_grsp :: "GroupRsp \<Rightarrow> GroupRsp" where
  "exp_grsp r = r\<lparr>grGroup := map_option exp_group (grGroup r)\<rparr>"

definition exp_req :: "GroupMemberReq \<Rightarrow> GroupMemberReq" where
  "exp_req r = r\<lparr>rqMembers := map (map_option exp_member) (rqMembers r)\<rparr>"

definition wf_req :: "GroupMemberReq \<Rightarrow> bool" where
  "wf_req r \<longleftrightarrow> None \<notin> set (rqMembers r)"

definition exp_item :: "MemberItem \<Rightarrow> MemberItem" where
  "exp_item i = i\<lparr>miMember := map_option exp_member (miMember i)\<rparr>"

locale amino_laws =
  fixes A :: codecs
  assumes message_codec: "codec_laws (cMessage A) zero_Message (\<lambda>x. x) (\<lambda>x. True)"
    and bag_codec: "codec_laws (cBag A) zero_MessageBag (\<lambda>x. x) (\<lambda>x. True)"
    and clean_codec: "codec_laws (cClean A) zero_CleanMsg (\<lambda>x. x) (\<lambda>x. True)"
    and jid_codec: "codec_laws (cJID A) [] (\<lambda>x. x) (\<lambda>x. True)"
    and group_codec: "codec_laws (cGroup A) zero_Group exp_group (\<lambda>x. True)"
    and grsp_codec: "codec_laws (cGroupRsp A) zero_GroupRsp exp_grsp (\<lambda>x. True)"
    and req_codec: "codec_laws (cMemberReq A) zero_MemberReq exp_req wf_req"
    and rsp_codec: "codec_laws (cMemberRsp A) zero_MemberRsp (\<lambda>x. x) (\<lambda>x. True)"
    and item_codec: "codec_laws (cMemberItem A) zero_MemberItem exp_item (\<lambda>x. True)"
    and log_codec: "codec_laws (cMemberLog A) zero_MemberLog (\<lambda>x. x) (\<lambda>x. True)"

sublocale amino_laws \<subseteq> msgc: codec_laws "cMessage A" zero_Message "\<lambda>x. x" "\<lambda>x. True"
  by (rule message_codec)

sublocale amino_laws \<subseteq> bagc: codec_laws "cBag A" zero_MessageBag "\<lambda>x. x" "\<lambda>x. True"
  by (rule bag_codec)

sublocale amino_laws \<subseteq> cleanc: codec_laws "cClean A" zero_CleanMsg "\<lambda>x. x" "\<lambda>x. True"
  by (rule clean_codec)

sublocale amino_laws \<subseteq> jidc: codec_laws "cJID A" "[]" "\<lambda>x. x" "\<lambda>x. True"
  by (rule jid_codec)

sublocale amino_laws \<subseteq> groupc: codec_laws "cGroup A" zero_Group exp_group "\<lambda>x. True"
  by (rule group_codec)

sublocale amino_laws \<subseteq> grspc: codec_laws "cGroupRsp A" zero_GroupRsp exp_grsp "\<lambda>x. True"
  by (rule grsp_codec)

sublocale amino_laws \<subseteq> reqc: codec_laws "cMemberReq A" zero_MemberReq exp_req wf_req
  by (rule req_codec)

sublocale amino_laws \<subseteq> rspc: codec_laws "cMemberRsp A" zero_MemberRsp "\<lambda>x. x" "\<lambda>x. True"
  by (rule rsp_codec)

sublocale amino_laws \<subseteq> itemc: codec_laws "cMemberItem A" zero_MemberItem exp_item "\<lambda>x. True"
  by (rule item_codec)

sublocale amino_laws \<subseteq> logc: codec_laws "cMemberLog A" zero_MemberLog "\<lambda>x. x" "\<lambda>x. True"
  by (rule log_codec)

section \<open>Codec methods of the message types (types.go)\<close>

text \<open>Each method returns its receiver as the call left it, and the error.\<close>

definition Message_FromBytes :: "codecs \<Rightarrow> bytes \<Rightarrow> Message \<Rightarrow> Message \<times> err option" where
  "Message_FromBytes A dat c = (let (e, c') = aUnmarshal (cMessage A) dat c in (c', e))"

definition Message_FromReader :: "codecs \<Rightarrow> bytes \<Rightarrow> Message \<Rightarrow> Message \<times> err option" where
  "Message_FromReader A r c = (let (e, c') = aUnmarshalReader (cMessage A) r c MAX_PKG in (c', e))"

definition Message_Bytes :: "codecs \<Rightarrow> Message \<Rightarrow> bytes" where
  "Message_Bytes A c = encoded (cMessage A) c"

definition Message_Hash :: "(bytes \<Rightarrow> bytes) \<Rightarrow> codecs \<Rightarrow> Message \<Rightarrow> bytes" where
  "Message_Hash sha1 A c = sha1 (Message_Bytes A c)"

definition Message_FromJson :: "codecs \<Rightarrow> bytes \<Rightarrow> Message \<Rightarrow> Message \<times> err option" where
  "Message_FromJson A dat c = (let (e, c') = aUnmarshalJSON (cMessage A) dat c in (c', e))"

definition Message_Json :: "codecs \<Rightarrow> Message \<Rightarrow> bytes" where
  "Message_Json A c = (case aMarshalJSON (cMessage A) c of Inl e \<Rightarrow> [] | Inr d \<Rightarrow> d)"

definition Bag_FromBytes :: "codecs \<Rightarrow> bytes \<Rightarrow> MessageBag \<Rightarrow> MessageBag \<times> err option" where
  "Bag_FromBytes A dat c = (let (e, c') = aUnmarshal (cBag A) dat c in (c', e))"

definition Bag_FromReader :: "codecs \<Rightarrow> bytes \<Rightarrow> MessageBag \<Rightarrow> MessageBag \<times> err option" where
  "Bag_FromReader A r c = (let (e, c') = aUnmarshalReader (cBag A) r c MAX_PKG in (c', e))"

definition Bag_Bytes :: "codecs \<Rightarrow> MessageBag \<Rightarrow> bytes" where
  "Bag_Bytes A c = encoded (cBag A) c"

definition Bag_FromJson :: "codecs \<Rightarrow> bytes \<Rightarrow> MessageBag \<Rightarrow> MessageBag \<times> err option" where
  "Bag_FromJson A dat c = (let (e, c') = aUnmarshalJSON (cBag A) dat c in (c', e))"

definition Bag_Json :: "codecs \<Rightarrow> MessageBag \<Rightarrow> bytes" where
  "Bag_Json A c = (case aMarshalJSON (cBag A) c of Inl e \<Rightarrow> [] | Inr d \<Rightarrow> d)"

context amino_laws
begin

lemma Message_roundtrip [simp]:
  "Message_FromBytes A (Message_Bytes A m) zero_Message = (m, None)"
  by (simp add: Message_FromBytes_def Message_Bytes_def)

lemma Message_read:
  "length (Message_Bytes A m) \<le> MAX_PKG \<Longrightarrow>
    Message_FromReader A (Message_Bytes A m) zero_Message = (m, None)"
  by (simp add: Message_FromReader_def Message_Bytes_def msgc.reader_encoded MAX_PKG_def)

lemma Message_read_big:
  "MAX_PKG < length (Message_Bytes A m) \<Longrightarrow>
    \<exists>e. snd (Message_FromReader A (Message_Bytes A m) zero_Message) = Some e"
  using msgc.reader_overflow [OF msgc.marshal_encoded, of MAX_PKG m]
  by (auto simp: Message_FromReader_def Message_Bytes_def MAX_PKG_def split: prod.split)

lemma Bag_roundtrip [simp]: "Bag_FromBytes A (Bag_Bytes A b) zero_MessageBag = (b, None)"
  by (simp add: Bag_FromBytes_def Bag_Bytes_def)

end

end
