(* ===== verification/RefCodecs.thy ===== *)
theory RefCodecs
  imports Types Reference
begin

text \<open>
  Codecs of the chat and group types on the field codec of theory Reference, and the proof
  that they meet the contract the program expects of amino. For witnesses only.
\<close>

section \<open>Fields of each type\<close>

definition env_to :: "Envelope \<Rightarrow> string list" where
  "env_to e = [eId e, eFrom e, eTo e, int_str (eType e), int_str (uint (eAck e)), int_str (eCt e), eGid e]"

fun env_from :: "string list \<Rightarrow> Envelope option" where
  "env_from [a, b, c, d, e, f, g] = Some \<lparr>eId = a, eFrom = b, eTo = c, eType = str_int d,
     eAck = word_of_int (str_int e), eCt = str_int f, eGid = g\<rparr>"
| "env_from _ = None"

fun attrs_to :: "Attr list \<Rightarrow> string list" where
  "attrs_to [] = []"
| "attrs_to (a # as) = aKey a # aVal a # attrs_to as"

fun attrs_from :: "string list \<Rightarrow> Attr list" where
  "attrs_from (k # v # r) = \<lparr>aKey = k, aVal = v\<rparr> # attrs_from r"
| "attrs_from _ = []"

definition msg_to :: "Message \<Rightarrow> string list" where
  "msg_to m = [pack (env_to (mEnvelope m)), pack (attrs_to (pAttrs (mPayload m))),
     pContent (mPayload m), mVsn m]"

fun msg_from :: "string list \<Rightarrow> Message option" where
  "msg_from [a, b, c, d] =
     (case Option.bind (unpack a) env_from of
        None \<Rightarrow> None
      | Some e \<Rightarrow> (case unpack b of
          None \<Rightarrow> None
        | Some as \<Rightarrow> Some \<lparr>mEnvelope = e, mPayload = \<lparr>pAttrs = attrs_from as, pContent = c\<rparr>, mVsn = d\<rparr>))"
| "msg_from _ = None"

text \<open>Lists of values, and optional values as lists of at most one.\<close>

fun seq :: "'a option list \<Rightarrow> 'a list option" where
  "seq [] = Some []"
| "seq (None # xs) = None"
| "seq (Some x # xs) = map_option (\<lambda>ys. x # ys) (seq xs)"

definition list_from :: "(string list \<Rightarrow> 'a option) \<Rightarrow> string list \<Rightarrow> 'a list option" where
  "list_from from ss = seq (map (\<lambda>s. Option.bind (unpack s) from) ss)"

definition list_to :: "('a \<Rightarrow> string list) \<Rightarrow> 'a list \<Rightarrow> string list" where
  "list_to to xs = map (\<lambda>x. pack (to x)) xs"

fun opt_to :: "('a \<Rightarrow> string list) \<Rightarrow> 'a option \<Rightarrow> string list" where
  "opt_to to None = []"
| "opt_to to (Some x) = [pack (to x)]"

fun opt_from :: "(string list \<Rightarrow> 'a option) \<Rightarrow> string list \<Rightarrow> 'a option option" where
  "opt_from from [] = Some None"
| "opt_from from (s # ss) = map_option Some (Option.bind (unpack s) from)"

definition clean_to :: "CleanMsg \<Rightarrow> string list" where
  "clean_to c = cJid c # cIds c"

fun clean_from :: "string list \<Rightarrow> CleanMsg option" where
  "clean_from [] = None"
| "clean_from (j # ids) = Some \<lparr>cJid = j, cIds = ids\<rparr>"

definition member_to :: "GroupMember \<Rightarrow> string list" where
  "member_to m = [gmId m, gmName m, gmGid m]"

fun member_from :: "string list \<Rightarrow> GroupMember option" where
  "member_from [a, b, c] = Some \<lparr>gmId = a, gmName = b, gmGid = c, gmAction = []\<rparr>"
| "member_from _ = None"

definition group_to :: "Group \<Rightarrow> string list" where
  "group_to g = [gId g, pack (opt_to member_to (gOwner g)), gName g, gComment g, gLastlog g]"

fun group_from :: "string list \<Rightarrow> Group option" where
  "group_from [a, b, c, d, e] =
     (case Option.bind (unpack b) (opt_from member_from) of
        None \<Rightarrow> None
      | Some w \<Rightarrow> Some \<lparr>gId = a, gOwner = w, gName = c, gComment = d, gLastlog = e\<rparr>)"
| "group_from _ = None"

definition grsp_to :: "GroupRsp \<Rightarrow> string list" where
  "grsp_to r = [pack (opt_to group_to (grGroup r)), grErr r]"

fun grsp_from :: "string list \<Rightarrow> GroupRsp option" where
  "grsp_from [a, b] =
     (case Option.bind (unpack a) (opt_from group_from) of
        None \<Rightarrow> None | Some g \<Rightarrow> Some \<lparr>grGroup = g, grErr = b\<rparr>)"
| "grsp_from _ = None"

definition req_to :: "GroupMemberReq \<Rightarrow> string list" where
  "req_to r = [rqGid r, rqId r, rqAction r, pack (list_to (opt_to member_to) (rqMembers r))]"

fun req_from :: "string list \<Rightarrow> GroupMemberReq option" where
  "req_from [a, b, c, d] =
     (case Option.bind (unpack d) (list_from (opt_from member_from)) of
        None \<Rightarrow> None | Some ms \<Rightarrow> Some \<lparr>rqGid = a, rqId = b, rqAction = c, rqMembers = ms\<rparr>)"
| "req_from _ = None"

definition rsp_to :: "GroupMemberRsp \<Rightarrow> string list" where
  "rsp_to r = [rsAction r, rsResult r, rsErr r]"

fun rsp_from :: "string list \<Rightarrow> GroupMemberRsp option" where
  "rsp_from [a, b, c] = Some \<lparr>rsAction = a, rsResult = b, rsErr = c\<rparr>"
| "rsp_from _ = None"

definition item_to :: "MemberItem \<Rightarrow> string list" where
  "item_to i = [miId i, miPrve i, miNext i, pack (opt_to member_to (miMember i))]"

text \<open>
  As in amino, whose encodings number the fields and name no type, a group without a comment and a last log can be
  read as an item.
\<close>

fun item_from :: "string list \<Rightarrow> MemberItem option" where
  "item_from [a, b, c, d] =
     (case Option.bind (unpack d) (opt_from member_from) of
        None \<Rightarrow> None | Some m \<Rightarrow> Some \<lparr>miId = a, miPrve = b, miNext = c, miMember = m\<rparr>)"
| "item_from [a, b, c, [], []] = Some \<lparr>miId = a, miPrve = b, miNext = c, miMember = None\<rparr>"
| "item_from _ = None"

definition log_to :: "MemberLog \<Rightarrow> string list" where
  "log_to l = [mlId l, mlPrve l, mlNext l, mlAction l, mlGid l, mlMemberId l]"

fun log_from :: "string list \<Rightarrow> MemberLog option" where
  "log_from [a, b, c, d, e, f] = Some \<lparr>mlId = a, mlPrve = b, mlNext = c, mlAction = d,
     mlGid = e, mlMemberId = f\<rparr>"
| "log_from _ = None"

section \<open>Decoding what was encoded\<close>

lemma env_fields [simp]: "env_from (env_to e) = Some e"
  by (simp add: env_to_def)

lemma attrs_fields [simp]: "attrs_from (attrs_to as) = as"
  by (induction as) auto

lemma msg_fields: "msg_from (msg_to m) = Some m"
  by (simp add: msg_to_def)

lemma seq_Some [simp]: "seq (map (\<lambda>x. Some (f x)) xs) = Some (map f xs)"
  by (induction xs) auto

lemma list_fields:
  "(\<And>x. from (to x) = Some (e x)) \<Longrightarrow> list_from from (list_to to xs) = Some (map e xs)"
  by (simp add: list_from_def list_to_def comp_def)

lemma opt_fields: "(\<And>x. from (to x) = Some (e x)) \<Longrightarrow> opt_from from (opt_to to x) = Some (map_option e x)"
  by (cases x) auto

lemma member_fields: "member_from (member_to m) = Some (exp_member m)"
  by (simp add: member_to_def exp_member_def)

lemma group_fields: "group_from (group_to g) = Some (exp_group g)"
  by (simp add: group_to_def exp_group_def opt_fields [where e = exp_member] member_fields)

lemma grsp_fields: "grsp_from (grsp_to r) = Some (exp_grsp r)"
  by (simp add: grsp_to_def exp_grsp_def opt_fields [where e = exp_group] group_fields)

lemma req_fields: "req_from (req_to r) = Some (exp_req r)"
  by (simp add: req_to_def exp_req_def list_fields [where e = "map_option exp_member"]
      opt_fields [where e = exp_member] member_fields)

lemma item_fields: "item_from (item_to i) = Some (exp_item i)"
  by (simp add: item_to_def exp_item_def opt_fields [where e = exp_member] member_fields)

text \<open>What is decoded has no unexported field set.\<close>

lemma member_exported: "member_from ss = Some y \<Longrightarrow> exp_member y = y"
  by (induction ss rule: member_from.induct) (auto simp: exp_member_def)

lemma opt_exported:
  "(\<And>ss y. from ss = Some y \<Longrightarrow> e y = y) \<Longrightarrow> opt_from from ss = Some y \<Longrightarrow> map_option e y = y"
  by (cases ss) (auto simp: Option.bind_eq_Some_conv)

lemma seq_elem: "seq xs = Some ys \<Longrightarrow> y \<in> set ys \<Longrightarrow> Some y \<in> set xs"
  by (induction xs arbitrary: ys rule: seq.induct) auto

lemma list_exported:
  assumes "\<And>ss y. from ss = Some y \<Longrightarrow> e y = y" and "list_from from ss = Some ys"
  shows "map e ys = ys"
proof (rule map_idI)
  fix y
  assume "y \<in> set ys"
  with assms(2) have "Some y \<in> (\<lambda>s. Option.bind (unpack s) from) ` set ss"
    by (auto simp: list_from_def dest: seq_elem)
  then obtain s where "Option.bind (unpack s) from = Some y" by auto
  then show "e y = y" using assms(1) by (auto simp: Option.bind_eq_Some_conv)
qed

lemma group_exported: "group_from ss = Some y \<Longrightarrow> exp_group y = y"
  by (induction ss rule: group_from.induct)
    (auto simp: exp_group_def Option.bind_eq_Some_conv dest!: opt_exported [where e = exp_member, rotated]
      member_exported split: option.splits)

lemma grsp_exported: "grsp_from ss = Some y \<Longrightarrow> exp_grsp y = y"
  by (induction ss rule: grsp_from.induct)
    (auto simp: exp_grsp_def Option.bind_eq_Some_conv dest!: opt_exported [where e = exp_group, rotated]
      group_exported split: option.splits)

lemma req_exported: "req_from ss = Some y \<Longrightarrow> exp_req y = y"
  by (induction ss rule: req_from.induct)
    (auto simp: exp_req_def Option.bind_eq_Some_conv
      dest!: list_exported [where e = "map_option exp_member", rotated] opt_exported [where e = exp_member, rotated]
      member_exported split: option.splits)

lemma item_exported: "item_from ss = Some y \<Longrightarrow> exp_item y = y"
  by (induction ss rule: item_from.induct)
    (auto simp: exp_item_def Option.bind_eq_Some_conv dest!: opt_exported [where e = exp_member, rotated]
      member_exported split: option.splits)

lemmas fields_exported = group_exported grsp_exported req_exported item_exported

definition ref_codecs :: codecs where
  "ref_codecs =
    \<lparr>cMessage = field_codec msg_to msg_from,
     cBag = field_codec (\<lambda>b. list_to msg_to (Messages b)) (\<lambda>ss. map_option (\<lambda>ms. \<lparr>Messages = ms\<rparr>) (list_from msg_from ss)),
     cClean = field_codec clean_to clean_from,
     cJID = plain_codec,
     cGroup = field_codec group_to group_from,
     cGroupRsp = field_codec grsp_to grsp_from,
     cMemberReq = field_codec req_to req_from,
     cMemberRsp = field_codec rsp_to rsp_from,
     cMemberItem = field_codec item_to item_from,
     cMemberLog = field_codec log_to log_from\<rparr>"

interpretation refc: amino_laws ref_codecs
  by (rule amino_laws.intro; simp only: ref_codecs_def codecs.select_convs; (rule field_codec_laws plain_codec_laws)?)
    (simp_all add: msg_fields list_fields [where e = "\<lambda>x. x"] clean_to_def group_fields grsp_fields
      req_fields rsp_to_def item_fields log_to_def fields_exported)

interpretation ct: sort_contract ct_less "sort_key (\<lambda>m. eCt (mEnvelope m))"
proof unfold_locales
  fix xs :: "Message list"
  show "sorted_wrt (\<lambda>x y. \<not> ct_less y x) (sort_key (\<lambda>m. eCt (mEnvelope m)) xs)"
    using sorted_sort_key[of "\<lambda>m. eCt (mEnvelope m)" xs]
    by (simp add: sorted_map ct_less_def not_less)
qed simp

end
