(* ===== verification/Mailbox.thy ===== *)
theory Mailbox
  imports Ldb RefCodecs
begin

text \<open>
  The offline mailbox of mailbox.go: storing, listing and clearing the messages of a peer in
  one LevelDB, the handlers that serve these operations to other nodes, and the client calls.
  A handler takes the bytes of the request and returns what it wrote to the stream, the error
  it returned and the new contents of the database.
\<close>

section \<open>State and construction\<close>

text \<open>
  \<open>mbStop\<close> says whether the channel \<open>stop\<close> is closed. The contents of the database are
  passed separately, and the p2p service is the parameter of the client calls.
\<close>

record mailbox =
  mbMyid :: JID
  mbStop :: bool
  mbDb :: Database

text \<open>\<open>None\<close>: the constructor panics when the database cannot be opened.\<close>

definition newMailbox ::
    "(string \<Rightarrow> ldb_options \<Rightarrow> err + 'd) \<Rightarrow> string \<Rightarrow> JID \<Rightarrow> (mailbox \<times> 'd) option" where
  "newMailbox openFile homedir myid =
    (case NewLDBDatabase openFile (path_Join [homedir, ''mailbox'']) 0 0 of
       Inl e \<Rightarrow> None
     | Inr (db, d) \<Rightarrow> Some (\<lparr>mbMyid = myid, mbStop = False, mbDb = db\<rparr>, d))"

text \<open>Closing a closed channel panics.\<close>

definition mailbox_Stop :: "mailbox \<Rightarrow> (mailbox \<times> err option) option" where
  "mailbox_Stop m = (if mbStop m then None else Some (m\<lparr>mbStop := True\<rparr>, None))"

section \<open>Operations on the store\<close>

definition verifyMsg :: "Message \<Rightarrow> err option" where
  "verifyMsg msg = None"

definition putMsg ::
    "'d leveldb \<Rightarrow> codecs \<Rightarrow> Database \<Rightarrow> Message \<Rightarrow> 'd \<Rightarrow> err option \<times> 'd" where
  "putMsg L A db msg d =
    (let pid = Peerid (eTo (mEnvelope msg));
         tab = NewTable db pid
     in db_Put L tab (eId (mEnvelope msg)) (Message_Bytes A msg) d)"

fun delete_ids :: "'d leveldb \<Rightarrow> Database \<Rightarrow> string list \<Rightarrow> 'd \<Rightarrow> 'd" where
  "delete_ids L tab [] d = d"
| "delete_ids L tab (mid # mids) d = delete_ids L tab mids (snd (db_Delete L tab mid d))"

definition doCleanMsg :: "'d leveldb \<Rightarrow> Database \<Rightarrow> CleanMsg \<Rightarrow> 'd \<Rightarrow> 'd" where
  "doCleanMsg L db cleanMsg d =
    (let pid = Peerid (cJid cleanMsg);
         tab = NewTable db pid
     in delete_ids L tab (cIds cleanMsg) d)"

fun query_loop :: "codecs \<Rightarrow> string \<Rightarrow> (bytes \<times> bytes) list \<Rightarrow> Message list \<Rightarrow> Message list" where
  "query_loop A pid [] sl = sl"
| "query_loop A pid ((k, v) # it) sl =
     (if Kfilter pid k
      then (case Message_FromBytes A v zero_Message of
              (m, None) \<Rightarrow> query_loop A pid it (sl @ [m])
            | (m, Some err) \<Rightarrow> query_loop A pid it sl)
      else query_loop A pid it sl)"

definition doQueryMsg ::
    "'d leveldb \<Rightarrow> codecs \<Rightarrow> (MessageList \<Rightarrow> MessageList) \<Rightarrow> Database \<Rightarrow> JID \<Rightarrow> 'd \<Rightarrow> MessageBag" where
  "doQueryMsg L A srt db jid d =
    (let pid = Peerid jid;
         tab = NewTable db pid;
         sl = query_loop A pid (db_NewIterator L tab d) []
     in \<lparr>Messages = srt sl\<rparr>)"

section \<open>Handlers\<close>

definition cleanService ::
    "'d leveldb \<Rightarrow> codecs \<Rightarrow> Database \<Rightarrow> bytes \<Rightarrow> 'd \<Rightarrow> bytes \<times> err option \<times> 'd" where
  "cleanService L A db rw d =
    (case aUnmarshalReader (cClean A) rw zero_CleanMsg (2 * 1024 * 1024) of
       (Some err, cleanMsg) \<Rightarrow> ([], Some err, d)
     | (None, cleanMsg) \<Rightarrow> ([], None, doCleanMsg L db cleanMsg d))"

text \<open>\<open>werr\<close> is the error of the final write, which the handler returns.\<close>

definition queryService ::
    "'d leveldb \<Rightarrow> codecs \<Rightarrow> (MessageList \<Rightarrow> MessageList) \<Rightarrow> Database \<Rightarrow> err option \<Rightarrow> bytes \<Rightarrow>
     'd \<Rightarrow> bytes \<times> err option \<times> 'd" where
  "queryService L A srt db werr rw d =
    (case aUnmarshalReader (cJID A) rw [] 128 of
       (Some err, k) \<Rightarrow> (Bag_Bytes A zero_MessageBag, Some err, d)
     | (None, k) \<Rightarrow> (Bag_Bytes A (doQueryMsg L A srt db k d), werr, d))"

definition msgService ::
    "'d leveldb \<Rightarrow> codecs \<Rightarrow> Database \<Rightarrow> bytes \<Rightarrow> 'd \<Rightarrow> bytes \<times> err option \<times> 'd" where
  "msgService L A db rw d =
    (case Message_FromReader A rw zero_Message of
       (msg, Some err) \<Rightarrow> (err, Some err, d)
     | (message, None) \<Rightarrow>
         (case verifyMsg message of
            Some err \<Rightarrow> (err, Some err, d)
          | None \<Rightarrow>
              (if eType (mEnvelope message) = NormalMsg \<or> eType (mEnvelope message) = GroupMsg
               then (case putMsg L A db message d of
                       (Some err, d') \<Rightarrow> (err, Some err, d')
                     | (None, d') \<Rightarrow> (SUCCESS, None, d'))
               else ([], Some ''not support yet'', d))))"

section \<open>Client calls\<close>

definition mailbox_CleanMsg ::
    "codecs \<Rightarrow> 'w p2p \<Rightarrow> JID \<Rightarrow> string list \<Rightarrow> 'w \<Rightarrow> err option \<times> 'w" where
  "mailbox_CleanMsg A P jid ids w =
    (case aMarshal (cClean A) \<lparr>cJid = jid, cIds = ids\<rparr> of
       Inl err \<Rightarrow> (Some err, w)
     | Inr dat \<Rightarrow>
         (case pRequest P (Mailid jid) PID_MAILBOX_CLEAN dat request_timeout w of
            (Inl err, w') \<Rightarrow> (Some err, w')
          | (Inr _, w') \<Rightarrow> (None, w')))"

definition mailbox_QueryMsg ::
    "codecs \<Rightarrow> 'w p2p \<Rightarrow> JID \<Rightarrow> 'w \<Rightarrow> (MessageBag option \<times> err option) \<times> 'w" where
  "mailbox_QueryMsg A P jid w =
    (case aMarshal (cJID A) jid of
       Inl err \<Rightarrow> ((None, Some err), w)
     | Inr dat \<Rightarrow>
         (case pRequest P (Mailid jid) PID_MAILBOX_QUERY dat request_timeout w of
            (Inl err, w') \<Rightarrow> ((None, Some err), w')
          | (Inr rtn, w') \<Rightarrow>
              (let (msgs, err) = Bag_FromBytes A rtn zero_MessageBag in ((Some msgs, err), w'))))"

lemmas [handler_defs] = cleanService_def queryService_def msgService_def

end
