(* ===== verification/GroupDb.thy ===== *)
theory GroupDb
  imports Ldb RefCodecs
begin

text \<open>
  The group store of mailbox_group.go: groups by id, the members of each group as a doubly
  linked list of database entries, and the log of membership changes, linked the same way.
  A function that can panic returns an option, with \<open>None\<close> for the panic: \<open>mustToByte\<close> on a
  failed encoding, and a dereferenced nil pointer. The UUID a call draws is an argument.
\<close>

section \<open>Keys and tables\<close>

definition group_prefix :: string where "group_prefix = ''GROUP''"
definition member_prefix :: string where "member_prefix = ''GROUP_MEMBER''"

definition memberK :: "GID \<Rightarrow> JID \<Rightarrow> bytes" where
  "memberK gid mid = gid @ ''_'' @ mid @ ''_member''"

definition memberLastK :: "GID \<Rightarrow> bytes" where
  "memberLastK gid = gid @ ''_member_last''"

definition memberLogK :: "GID \<Rightarrow> string \<Rightarrow> bytes" where
  "memberLogK gid lid = gid @ ''_'' @ lid @ ''_memberlog''"

definition memberLastlogK :: "GID \<Rightarrow> bytes" where
  "memberLastlogK gid = gid @ ''_memberlog_last''"

record groupdb =
  gdbDb :: Database
  groupTab :: Database
  memberTab :: Database

definition newGroupDB :: "Database \<Rightarrow> groupdb" where
  "newGroupDB db =
    \<lparr>gdbDb = db, groupTab = NewTable db group_prefix, memberTab = NewTable db member_prefix\<rparr>"

section \<open>Encoding\<close>

definition toByte :: "'a amino \<Rightarrow> 'a \<Rightarrow> err + bytes" where
  "toByte C x = aMarshal C x"

definition mustToByte :: "'a amino \<Rightarrow> 'a \<Rightarrow> bytes option" where
  "mustToByte C x = (case aMarshal C x of Inl err \<Rightarrow> None | Inr d \<Rightarrow> Some d)"

section \<open>Members\<close>

definition getMember ::
    "'d leveldb \<Rightarrow> codecs \<Rightarrow> groupdb \<Rightarrow> GID \<Rightarrow> JID \<Rightarrow> 'd \<Rightarrow> err + MemberItem" where
  "getMember L A g gid mid d =
    (case db_Get L (memberTab g) (memberK gid mid) d of
       Inl err \<Rightarrow> Inl err
     | Inr buf \<Rightarrow>
         (case aUnmarshal (cMemberItem A) buf zero_MemberItem of
            (Some err, m) \<Rightarrow> Inl err
          | (None, m) \<Rightarrow> Inr m))"

text \<open>The local function of \<open>queryMember\<close>: a member and the id to go on with, or an error.\<close>

definition query_fn ::
    "'d leveldb \<Rightarrow> codecs \<Rightarrow> groupdb \<Rightarrow> GID \<Rightarrow> MemberAction \<Rightarrow> 'd \<Rightarrow> JID \<Rightarrow>
     err + (GroupMember option \<times> JID)" where
  "query_fn L A g gid action d mid =
    (case getMember L A g gid mid d of
       Inl err \<Rightarrow> Inl err
     | Inr m \<Rightarrow>
         if action = FROM then Inr (miMember m, miNext m)
         else if action = TO then Inr (miMember m, miPrve m)
         else Inl ''error action'')"

text \<open>The loop runs until the local function fails; \<open>None\<close>: it never does.\<close>

partial_function (option) query_members ::
    "(JID \<Rightarrow> err + (GroupMember option \<times> JID)) \<Rightarrow> GroupMember option list \<Rightarrow> JID \<Rightarrow>
     GroupMember option list option" where
  "query_members fn gml mid =
    (case fn mid of
       Inl err \<Rightarrow> Some gml
     | Inr (m, nid) \<Rightarrow> query_members fn (gml @ [m]) nid)"

definition queryMember ::
    "'d leveldb \<Rightarrow> codecs \<Rightarrow> groupdb \<Rightarrow> GID \<Rightarrow> MemberAction \<Rightarrow> JID \<Rightarrow> 'd \<Rightarrow>
     GroupMember option list option" where
  "queryMember L A g gid action mid d = query_members (query_fn L A g gid action d) [] mid"

section \<open>Changing members\<close>

text \<open>
  The log entry of a change: linked behind the entry the last-log key holds, if there is one,
  and stored; the last-log key itself is written only when the change is done.
\<close>

definition append_log ::
    "'d leveldb \<Rightarrow> codecs \<Rightarrow> groupdb \<Rightarrow> string \<Rightarrow> GroupMember \<Rightarrow> 'd \<Rightarrow> (bytes \<times> 'd) option" where
  "append_log L A g uuid gm d =
    (let gid = gmGid gm;
         tab = memberTab g;
         memberLog = zero_MemberLog\<lparr>mlId := uuid, mlAction := gmAction gm, mlMemberId := gmId gm\<rparr>
     in do {
       (memberLog, d) \<leftarrow>
         (case db_Get L tab (memberLastlogK gid) d of
            Inl err \<Rightarrow> Some (memberLog, d)
          | Inr lastlogBytes \<Rightarrow>
              (let lastLog = snd (aUnmarshal (cMemberLog A) lastlogBytes zero_MemberLog);
                   lastLog = lastLog\<lparr>mlNext := mlId memberLog\<rparr>;
                   memberLog = memberLog\<lparr>mlPrve := mlId lastLog\<rparr>
               in do {
                 b \<leftarrow> mustToByte (cMemberLog A) lastLog;
                 Some (memberLog, snd (db_Put L tab (memberLogK gid (mlId lastLog)) b d))
               }));
       lastMlog \<leftarrow> mustToByte (cMemberLog A) memberLog;
       Some (lastMlog, snd (db_Put L tab (memberLogK gid (mlId memberLog)) lastMlog d))
     })"

text \<open>The branch for \<open>ADD\<close>: the new item goes behind the item the last key holds.\<close>

definition add_member ::
    "'d leveldb \<Rightarrow> codecs \<Rightarrow> groupdb \<Rightarrow> GroupMember \<Rightarrow> 'd \<Rightarrow> 'd option" where
  "add_member L A g gm d =
    (let gid = gmGid gm;
         tab = memberTab g;
         itm = zero_MemberItem\<lparr>miId := gmId gm, miMember := Some gm\<rparr>
     in do {
       (itm, d) \<leftarrow>
         (case db_Get L tab (memberLastK gid) d of
            Inl err \<Rightarrow> Some (itm, d)
          | Inr lastBytes \<Rightarrow>
              (let prv = snd (aUnmarshal (cMemberItem A) lastBytes zero_MemberItem);
                   prv = prv\<lparr>miNext := miId itm\<rparr>;
                   itm = itm\<lparr>miPrve := miId prv\<rparr>
               in do {
                 b \<leftarrow> mustToByte (cMemberItem A) prv;
                 Some (itm, snd (db_Put L tab (memberK gid (miId prv)) b d))
               }));
       b \<leftarrow> mustToByte (cMemberItem A) itm;
       let d = snd (db_Put L tab (memberK gid (gmId gm)) b d);
       Some (snd (db_Put L tab (memberLastK gid) b d))
     })"

text \<open>
  The branch for \<open>SUB\<close>: an error when the item or the one before it is missing; otherwise
  the neighbours are linked, and the last key is updated when there is no next item.
\<close>

definition sub_member ::
    "'d leveldb \<Rightarrow> codecs \<Rightarrow> groupdb \<Rightarrow> GroupMember \<Rightarrow> 'd \<Rightarrow> (err option \<times> 'd) option" where
  "sub_member L A g gm d =
    (let gid = gmGid gm;
         tab = memberTab g
     in case getMember L A g gid (gmId gm) d of
          Inl err \<Rightarrow> Some (Some err, d)
        | Inr itm \<Rightarrow>
            (case getMember L A g gid (miPrve itm) d of
               Inl err \<Rightarrow> Some (Some err, d)
             | Inr itmPrve \<Rightarrow> do {
                 (itmPrve, d) \<leftarrow>
                   (case getMember L A g gid (miNext itm) d of
                      Inr itmNext \<Rightarrow>
                        (let itmPrve = itmPrve\<lparr>miNext := miId itmNext\<rparr>;
                             itmNext = itmNext\<lparr>miPrve := miId itmPrve\<rparr>
                         in do {
                           b \<leftarrow> mustToByte (cMemberItem A) itmNext;
                           Some (itmPrve, snd (db_Put L tab (memberK gid (miId itmNext)) b d))
                         })
                    | Inl err \<Rightarrow>
                        (let itmPrve = itmPrve\<lparr>miNext := []\<rparr>
                         in do {
                           b \<leftarrow> mustToByte (cMemberItem A) itmPrve;
                           Some (itmPrve, snd (db_Put L tab (memberLastK gid) b d))
                         }));
                 b \<leftarrow> mustToByte (cMemberItem A) itmPrve;
                 let d = snd (db_Put L tab (memberK gid (miId itmPrve)) b d);
                 Some (None, snd (db_Delete L tab (memberK gid (miId itm)) d))
               }))"

definition handleMember ::
    "'d leveldb \<Rightarrow> codecs \<Rightarrow> groupdb \<Rightarrow> string \<Rightarrow> GroupMember \<Rightarrow> 'd \<Rightarrow> (err option \<times> 'd) option" where
  "handleMember L A g uuid gm d = do {
     (lastMlog, d) \<leftarrow> append_log L A g uuid gm d;
     (err, d) \<leftarrow>
       (if gmAction gm = ADD then do { d \<leftarrow> add_member L A g gm d; Some (None, d) }
        else if gmAction gm = SUB then sub_member L A g gm d
        else Some (Some ''not support opt'', d));
     (case err of
        Some e \<Rightarrow> Some (Some e, d)
      | None \<Rightarrow> Some (db_Put L (memberTab g) (memberLastlogK (gmGid gm)) lastMlog d))
   }"

section \<open>Groups\<close>

definition setLastlog :: "'d leveldb \<Rightarrow> codecs \<Rightarrow> groupdb \<Rightarrow> Group \<Rightarrow> 'd \<Rightarrow> Group" where
  "setLastlog L A g grp d =
    (case db_Get L (memberTab g) (memberLastlogK (gId grp)) d of
       Inl err \<Rightarrow> grp
     | Inr buf \<Rightarrow>
         (case aUnmarshal (cMemberLog A) buf zero_MemberLog of
            (Some err, lastLog) \<Rightarrow> grp
          | (None, lastLog) \<Rightarrow> grp\<lparr>gLastlog := mlId lastLog\<rparr>))"

text \<open>
  \<open>saveGroup\<close> logs the owner's id, so a nil owner panics. The owner becomes the first member
  when the group has no last member yet; the error of that call is dropped.
\<close>

definition saveGroup ::
    "'d leveldb \<Rightarrow> codecs \<Rightarrow> groupdb \<Rightarrow> string \<Rightarrow> Group \<Rightarrow> 'd \<Rightarrow> (err option \<times> 'd) option" where
  "saveGroup L A g uuid grp d =
    (case gOwner grp of
       None \<Rightarrow> None
     | Some owner \<Rightarrow>
         (case db_Put L (groupTab g) (gId grp) (encoded (cGroup A) grp) d of
            (Some err, d) \<Rightarrow> Some (Some err, d)
          | (None, d) \<Rightarrow>
              (case db_Get L (memberTab g) (memberLastK (gId grp)) d of
                 Inr buf \<Rightarrow> Some (None, d)
               | Inl err \<Rightarrow> do {
                   (_, d) \<leftarrow> handleMember L A g uuid
                     \<lparr>gmId = gmId owner, gmName = gmName owner, gmGid = gId grp, gmAction = ADD\<rparr> d;
                   Some (None, d)
                 })))"

definition getGroup :: "'d leveldb \<Rightarrow> codecs \<Rightarrow> groupdb \<Rightarrow> GID \<Rightarrow> 'd \<Rightarrow> err + Group" where
  "getGroup L A g gid d =
    (case db_Get L (groupTab g) gid d of
       Inl err \<Rightarrow> Inl err
     | Inr dat \<Rightarrow>
         (case aUnmarshal (cGroup A) dat zero_Group of
            (Some err, grp) \<Rightarrow> Inl err
          | (None, grp) \<Rightarrow> Inr (setLastlog L A g grp d)))"

end
