(* ===== verification/GroupService.thy ===== *)
theory GroupService
  imports GroupDb
begin

text \<open>
  The group handlers and the client call of mailbox_group.go. A handler can do more than
  answer: it panics on a nil pointer, and a member query over a cyclic list never ends, so
  its outcome is one of three. The caller of a handler is its peer id, which the code
  computes from the public key of the stream.
\<close>

datatype 'a outcome = Returns 'a | Panics | Hangs

section \<open>Codec methods\<close>

definition GroupRsp_FromBytes :: "codecs \<Rightarrow> bytes \<Rightarrow> GroupRsp \<Rightarrow> GroupRsp \<times> err option" where
  "GroupRsp_FromBytes A dat r = (let (e, r') = aUnmarshal (cGroupRsp A) dat r in (r', e))"

definition GroupRsp_Json :: "codecs \<Rightarrow> GroupRsp \<Rightarrow> bytes" where
  "GroupRsp_Json A r = (case aMarshalJSON (cGroupRsp A) r of Inl e \<Rightarrow> [] | Inr j \<Rightarrow> j)"

definition Group_FromReader :: "codecs \<Rightarrow> bytes \<Rightarrow> Group \<Rightarrow> Group \<times> err option" where
  "Group_FromReader A rw grp = (let (e, grp') = aUnmarshalReader (cGroup A) rw grp (10 * MAX_PKG) in (grp', e))"

text \<open>\<open>hash\<close> of the package; the digest is a parameter.\<close>

definition group_hash :: "(bytes \<Rightarrow> bytes) \<Rightarrow> bytes \<Rightarrow> bytes" where
  "group_hash sha1 dat = sha1 dat"

text \<open>What \<open>resp\<close> writes to the stream.\<close>

definition resp :: "'a amino \<Rightarrow> 'a \<Rightarrow> bytes" where
  "resp C x = encoded C x"

section \<open>The client\<close>

text \<open>\<open>keyid\<close>: the peer id of a freshly generated key pair.\<close>

definition newGID :: "string \<Rightarrow> JID \<Rightarrow> GID" where
  "newGID keyid myid = keyid @ Mailid myid"

text \<open>The group is a pointer the call may fill the id of, so it is returned as well.\<close>

definition genGroup ::
    "codecs \<Rightarrow> 'w p2p \<Rightarrow> string \<Rightarrow> JID \<Rightarrow> Group \<Rightarrow> 'w \<Rightarrow> (err + GroupRsp) \<times> Group \<times> 'w" where
  "genGroup A P keyid myid grp w =
    (let to = Mailid myid
     in if to = [] then (Inl ''mailbox not found'', grp, w)
        else
          (let grp = (if gId grp = [] then grp\<lparr>gId := newGID keyid myid\<rparr> else grp)
           in case toByte (cGroup A) grp of
                Inl err \<Rightarrow> (Inl err, grp, w)
              | Inr pkg \<Rightarrow>
                  (case pRequest P to PID_MAILBOX_GROUP_UPDATE pkg request_timeout w of
                     (Inl err, w') \<Rightarrow> (Inl err, grp, w')
                   | (Inr rsp, w') \<Rightarrow>
                       (case GroupRsp_FromBytes A rsp zero_GroupRsp of
                          (grsp, Some err) \<Rightarrow> (Inl err, grp, w')
                        | (grsp, None) \<Rightarrow> (Inr grsp, grp, w')))))"

section \<open>The handlers\<close>

text \<open>
  The loop over the members of a request: their errors are dropped, a nil member panics.
  \<open>us\<close> supplies the UUIDs of the log entries.
\<close>

fun handle_members ::
    "'d leveldb \<Rightarrow> codecs \<Rightarrow> groupdb \<Rightarrow> (nat \<Rightarrow> string) \<Rightarrow> GroupMember option list \<Rightarrow> 'd \<Rightarrow> 'd option" where
  "handle_members L A g us [] d = Some d"
| "handle_members L A g us (None # ms) d = None"
| "handle_members L A g us (Some r # ms) d =
     (case handleMember L A g (us 0) r d of
        None \<Rightarrow> None
      | Some (err, d') \<Rightarrow> handle_members L A g (\<lambda>n. us (Suc n)) ms d')"

definition groupMemberService ::
    "'d leveldb \<Rightarrow> codecs \<Rightarrow> groupdb \<Rightarrow> (nat \<Rightarrow> string) \<Rightarrow> bytes \<Rightarrow> 'd \<Rightarrow>
     (bytes \<times> err option \<times> 'd) outcome" where
  "groupMemberService L A g us rw d =
    (case aUnmarshalReader (cMemberReq A) rw zero_MemberReq 4096 of
       (Some err, req) \<Rightarrow>
         Returns (resp (cMemberRsp A) (zero_MemberRsp\<lparr>rsErr := err\<rparr>), Some err, d)
     | (None, req) \<Rightarrow>
         (let rsp = zero_MemberRsp\<lparr>rsAction := rqAction req\<rparr>
          in case getGroup L A g (rqGid req) d of
               Inl err \<Rightarrow>
                 Returns (resp (cMemberRsp A) (rsp\<lparr>rsErr := ''group not found''\<rparr>), Some err, d)
             | Inr _ \<Rightarrow>
                 if rsAction rsp = ADD \<or> rsAction rsp = SUB then
                   (case handle_members L A g us (rqMembers req) d of
                      None \<Rightarrow> Panics
                    | Some d' \<Rightarrow> Returns (resp (cMemberRsp A) (rsp\<lparr>rsResult := SUCCESS\<rparr>), None, d'))
                 else if rsAction rsp = FROM \<or> rsAction rsp = TO then
                   (case queryMember L A g (rqGid req) (rqAction req) (rqId req) d of
                      None \<Rightarrow> Hangs
                    | Some ms \<Rightarrow>
                        (case aMarshal (cMemberReq A) (req\<lparr>rqMembers := ms\<rparr>) of
                           Inl err \<Rightarrow>
                             Returns (resp (cMemberRsp A) (rsp\<lparr>rsErr := err\<rparr>), Some err, d)
                         | Inr result \<Rightarrow>
                             Returns (resp (cMemberRsp A) (rsp\<lparr>rsResult := result\<rparr>), None, d)))
                 else Returns (resp (cMemberRsp A) (rsp\<lparr>rsErr := ''action not support''\<rparr>), None, d)))"

definition groupUpdateService ::
    "'d leveldb \<Rightarrow> codecs \<Rightarrow> groupdb \<Rightarrow> string \<Rightarrow> string \<Rightarrow> bytes \<Rightarrow> 'd \<Rightarrow>
     (bytes \<times> err option \<times> 'd) outcome" where
  "groupUpdateService L A g uuid caller rw d =
    (case Group_FromReader A rw zero_Group of
       (req, Some err) \<Rightarrow>
         Returns (resp (cGroupRsp A) (zero_GroupRsp\<lparr>grErr := err\<rparr>), Some err, d)
     | (req, None) \<Rightarrow>
         if gId req = [] then
           (let err = ''req.Id not be nil''
            in Returns (resp (cGroupRsp A) (zero_GroupRsp\<lparr>grErr := err\<rparr>), Some err, d))
         else
           (let req = req\<lparr>gOwner := Some (zero_GroupMember\<lparr>gmId := caller\<rparr>)\<rparr>
            in case saveGroup L A g uuid req d of
                 None \<Rightarrow> Panics
               | Some (Some err, d') \<Rightarrow>
                   Returns (resp (cGroupRsp A) (zero_GroupRsp\<lparr>grErr := err\<rparr>), Some err, d')
               | Some (None, d') \<Rightarrow>
                   (case getGroup L A g (gId req) d' of
                      Inl err \<Rightarrow>
                        Returns (resp (cGroupRsp A) (zero_GroupRsp\<lparr>grErr := err\<rparr>), Some err, d')
                    | Inr grp \<Rightarrow>
                        Returns (resp (cGroupRsp A) (zero_GroupRsp\<lparr>grGroup := Some grp\<rparr>), None, d'))))"

lemmas [handler_defs] = groupMemberService_def groupUpdateService_def

end
