(* ===== verification/Service.thy ===== *)
theory Service
  imports Mailbox GroupService "HOL-Library.AList"
begin

text \<open>
  The chat service of service.go: its state, the registry of message handlers, sending, the
  calls it hands to its mailbox, and what \<open>Start\<close> sets going. The sequential operations are
  functions on the service; the handler of incoming messages and the dispatch loop run
  concurrently with them, so together they are a labelled step relation. Theory
  \<open>Mailbox\<close> has the handlers a node serves; \<open>mailbox_Start\<close> is the table it registers.
\<close>

section \<open>State and construction\<close>

text \<open>
  \<open>csRecvMsgCh\<close> holds the messages in the buffered channel, oldest first; \<open>csStop\<close> says
  whether the channel \<open>stop\<close> is closed; \<open>csHandleMsgFn\<close> is the map of handlers, a handler
  being any value of type \<open>'h\<close>. The context and the p2p service are not part of the record:
  the first is a flag of the running state below, the second a parameter of the calls that
  use it. The lock makes the registry operations atomic.
\<close>

record 'h ChatService =
  csMyid :: JID
  csHomedir :: string
  csRecvMsgCh :: "Message list"
  csStop :: bool
  csHandleMsgFn :: "(string \<times> 'h) list"
  csMbox :: mailbox

definition recv_cap :: nat where "recv_cap = 128"

text \<open>\<open>None\<close>: the constructor panics, as the one of the mailbox does.\<close>

definition NewChatService ::
    "(string \<Rightarrow> ldb_options \<Rightarrow> err + 'd) \<Rightarrow> JID \<Rightarrow> string \<Rightarrow> ('h ChatService \<times> 'd) option" where
  "NewChatService openFile myid homedir =
    (case newMailbox openFile homedir myid of
       None \<Rightarrow> None
     | Some (m, d) \<Rightarrow>
         Some (\<lparr>csMyid = myid, csHomedir = homedir, csRecvMsgCh = [], csStop = False,
                csHandleMsgFn = [], csMbox = m\<rparr>, d))"

definition GetHomedir :: "'h ChatService \<Rightarrow> string" where "GetHomedir c = csHomedir c"
definition GetMyid :: "'h ChatService \<Rightarrow> JID" where "GetMyid c = csMyid c"

text \<open>The parameter of the model that stands for the p2p service is what this call returns.\<close>

definition GetLibp2pService :: "'w p2p \<Rightarrow> 'h ChatService \<Rightarrow> 'w p2p" where
  "GetLibp2pService P c = P"

definition AppendHandleMsg :: "string \<Rightarrow> 'h \<Rightarrow> 'h ChatService \<Rightarrow> string \<times> 'h ChatService" where
  "AppendHandleMsg uuid fn c =
    (let fid = uuid in (fid, c\<lparr>csHandleMsgFn := AList.update fid fn (csHandleMsgFn c)\<rparr>))"

definition DropHandleMsg :: "string \<Rightarrow> 'h ChatService \<Rightarrow> 'h ChatService" where
  "DropHandleMsg fid c = c\<lparr>csHandleMsgFn := AList.delete fid (csHandleMsgFn c)\<rparr>"

text \<open>Closing the closed channel panics: \<open>None\<close>.\<close>

definition cs_Stop :: "'h ChatService \<Rightarrow> ('h ChatService \<times> err option) option" where
  "cs_Stop c = (if csStop c then None else Some (c\<lparr>csStop := True\<rparr>, None))"

section \<open>Calls to other nodes\<close>

definition cs_QueryMsg ::
    "codecs \<Rightarrow> 'w p2p \<Rightarrow> 'h ChatService \<Rightarrow> 'w \<Rightarrow> (MessageBag option \<times> err option) \<times> 'w" where
  "cs_QueryMsg A P c w = mailbox_QueryMsg A P (csMyid c) w"

definition cs_CleanMsg ::
    "codecs \<Rightarrow> 'w p2p \<Rightarrow> 'h ChatService \<Rightarrow> string list \<Rightarrow> 'w \<Rightarrow> err option \<times> 'w" where
  "cs_CleanMsg A P c ids w =
    (if length ids > 0 then mailbox_CleanMsg A P (csMyid c) ids w else (None, w))"

text \<open>
  A normal message goes to its recipient and, when that request fails, to the recipient's
  mailbox; a group message goes to the group's id and its mailbox. The reply is not looked at.
\<close>

definition send_or_store ::
    "codecs \<Rightarrow> 'w p2p \<Rightarrow> JID \<Rightarrow> string \<Rightarrow> Message \<Rightarrow> 'w \<Rightarrow> err option \<times> 'w" where
  "send_or_store A P jid pid msg w =
    (case pRequest P (Peerid jid) pid (Message_Bytes A msg) request_timeout w of
       (Inr _, w') \<Rightarrow> (None, w')
     | (Inl _, w') \<Rightarrow>
         (case pRequest P (Mailid jid) PID_MAILBOX (Message_Bytes A msg) request_timeout w' of
            (Inr _, w'') \<Rightarrow> (None, w'')
          | (Inl err, w'') \<Rightarrow> (Some err, w'')))"

definition SendMsg :: "codecs \<Rightarrow> 'w p2p \<Rightarrow> Message \<Rightarrow> 'w \<Rightarrow> err option \<times> 'w" where
  "SendMsg A P msg w =
    (if eType (mEnvelope msg) = NormalMsg
     then send_or_store A P (eTo (mEnvelope msg)) PID_NORMAL msg w
     else if eType (mEnvelope msg) = GroupMsg
     then send_or_store A P (eGid (mEnvelope msg)) PID_GROUP msg w
     else (Some ''not support yet'', w))"

definition CreateGroup ::
    "codecs \<Rightarrow> 'w p2p \<Rightarrow> string \<Rightarrow> 'h ChatService \<Rightarrow> Group \<Rightarrow> 'w \<Rightarrow> (err + GroupRsp) \<times> Group \<times> 'w" where
  "CreateGroup A P keyid c grp w = genGroup A P keyid (csMyid c) grp w"

section \<open>The handlers of the mailbox\<close>

text \<open>
  A handler takes the peer id of its caller, the bytes of the request and the contents of the
  mailbox database. \<open>mailbox_Start\<close> lists the registrations in the order the code makes them;
  \<open>us\<close> supplies the UUIDs of a request.
\<close>

type_synonym 'd handler = "string \<Rightarrow> bytes \<Rightarrow> 'd \<Rightarrow> (bytes \<times> err option \<times> 'd) outcome"

definition groupService ::
    "'d leveldb \<Rightarrow> codecs \<Rightarrow> (nat \<Rightarrow> string) \<Rightarrow> mailbox \<Rightarrow> (string \<times> 'd handler) list" where
  "groupService L A us m =
    (let gdb = newGroupDB (mbDb m)
     in [(PID_MAILBOX_GROUP_MEMBER, \<lambda>caller rw d. groupMemberService L A gdb us rw d),
         (PID_MAILBOX_GROUP_UPDATE, \<lambda>caller rw d. groupUpdateService L A gdb (us 0) caller rw d)])"

definition mailbox_Start ::
    "'d leveldb \<Rightarrow> codecs \<Rightarrow> (MessageList \<Rightarrow> MessageList) \<Rightarrow> err option \<Rightarrow> (nat \<Rightarrow> string) \<Rightarrow> mailbox \<Rightarrow>
     (string \<times> 'd handler) list" where
  "mailbox_Start L A srt werr us m =
    [(PID_MAILBOX_QUERY, \<lambda>caller rw d. Returns (queryService L A srt (mbDb m) werr rw d)),
     (PID_MAILBOX, \<lambda>caller rw d. Returns (msgService L A (mbDb m) rw d)),
     (PID_MAILBOX_CLEAN, \<lambda>caller rw d. Returns (cleanService L A (mbDb m) rw d))] @
    groupService L A us m"

section \<open>The running service\<close>

text \<open>
  The dispatch loop is waiting, or has taken a message and is starting the handlers it has not
  started yet, or has returned. \<open>sWaiting\<close> are the messages whose request is in the select of
  the handler of \<open>PID_NORMAL\<close>. \<open>sRaced\<close>: the registry was written while the loop was
  iterating over it, which Go leaves undefined (the runtime may kill the process), so nothing
  is claimed from there on. The other fields record what happened: the messages that entered
  the channel, those the loop took, those answered with \<open>SUCCESS\<close>, and the handler calls
  started, each with the id and the value of the handler.
\<close>

datatype 'h loop = Idle | Dispatching Message "(string \<times> 'h) list" | Exited

record 'h running =
  sSvc :: "'h ChatService"
  sCtxDone :: bool
  sWaiting :: "Message list"
  sLoop :: "'h loop"
  sRaced :: bool
  sAccepted :: "Message list"
  sTaken :: "Message list"
  sAcked :: "Message list"
  sStarted :: "(string \<times> 'h \<times> Message) list"

text \<open>The state after \<open>Start\<close>.\<close>

definition cs_Start :: "'h ChatService \<Rightarrow> 'h running" where
  "cs_Start c = \<lparr>sSvc = c, sCtxDone = False, sWaiting = [], sLoop = Idle, sRaced = False,
     sAccepted = csRecvMsgCh c, sTaken = [], sAcked = [], sStarted = []\<rparr>"

datatype 'h event =
    Request bytes | Enqueue Message | Unblocked Message
  | Take Message "(string \<times> 'h) list" | StartOne | AllStarted | LoopReturns
  | Register string 'h | Unregister string | CallStop | CancelCtx

definition done_closed :: "'h running \<Rightarrow> bool" where
  "done_closed s \<longleftrightarrow> sCtxDone s \<or> csStop (sSvc s)"

definition iterating :: "'h running \<Rightarrow> bool" where
  "iterating s \<longleftrightarrow> (\<exists>m fs. sLoop s = Dispatching m fs)"

text \<open>
  One step. A request that does not decode is answered with the error and changes nothing;
  the others wait in the select until there is room in the channel, or one of the two
  done channels is closed. The select of the loop picks any ready case.
\<close>

inductive svc_step :: "codecs \<Rightarrow> 'h running \<Rightarrow> 'h event \<Rightarrow> 'h running \<Rightarrow> bool" for A where
  request: "\<not> sRaced s \<Longrightarrow> Message_FromReader A rw zero_Message = (m, None) \<Longrightarrow>
    svc_step A s (Request rw) (s\<lparr>sWaiting := sWaiting s @ [m]\<rparr>)"
| request_error: "\<not> sRaced s \<Longrightarrow> Message_FromReader A rw zero_Message = (m, Some e) \<Longrightarrow>
    svc_step A s (Request rw) s"
| enqueue: "\<not> sRaced s \<Longrightarrow> m \<in> set (sWaiting s) \<Longrightarrow> length (csRecvMsgCh (sSvc s)) < recv_cap \<Longrightarrow>
    svc_step A s (Enqueue m) (s\<lparr>sWaiting := remove1 m (sWaiting s),
      sSvc := (sSvc s)\<lparr>csRecvMsgCh := csRecvMsgCh (sSvc s) @ [m]\<rparr>,
      sAccepted := sAccepted s @ [m], sAcked := sAcked s @ [m]\<rparr>)"
| unblocked: "\<not> sRaced s \<Longrightarrow> m \<in> set (sWaiting s) \<Longrightarrow> done_closed s \<Longrightarrow>
    svc_step A s (Unblocked m) (s\<lparr>sWaiting := remove1 m (sWaiting s), sAcked := sAcked s @ [m]\<rparr>)"
| take: "\<not> sRaced s \<Longrightarrow> sLoop s = Idle \<Longrightarrow> csRecvMsgCh (sSvc s) = m # ms \<Longrightarrow>
    mset fs = mset (csHandleMsgFn (sSvc s)) \<Longrightarrow>
    svc_step A s (Take m fs) (s\<lparr>sSvc := (sSvc s)\<lparr>csRecvMsgCh := ms\<rparr>,
      sLoop := Dispatching m fs, sTaken := sTaken s @ [m]\<rparr>)"
| start_one: "\<not> sRaced s \<Longrightarrow> sLoop s = Dispatching m ((fid, fn) # fs) \<Longrightarrow>
    svc_step A s StartOne (s\<lparr>sLoop := Dispatching m fs, sStarted := sStarted s @ [(fid, fn, m)]\<rparr>)"
| all_started: "\<not> sRaced s \<Longrightarrow> sLoop s = Dispatching m [] \<Longrightarrow>
    svc_step A s AllStarted (s\<lparr>sLoop := Idle\<rparr>)"
| loop_returns: "\<not> sRaced s \<Longrightarrow> sLoop s = Idle \<Longrightarrow> done_closed s \<Longrightarrow>
    svc_step A s LoopReturns (s\<lparr>sLoop := Exited\<rparr>)"
| register: "\<not> sRaced s \<Longrightarrow>
    svc_step A s (Register uuid fn)
      (s\<lparr>sSvc := snd (AppendHandleMsg uuid fn (sSvc s)), sRaced := iterating s\<rparr>)"
| unregister: "\<not> sRaced s \<Longrightarrow>
    svc_step A s (Unregister fid) (s\<lparr>sSvc := DropHandleMsg fid (sSvc s), sRaced := iterating s\<rparr>)"
| call_stop: "\<not> sRaced s \<Longrightarrow> cs_Stop (sSvc s) = Some (c, e) \<Longrightarrow>
    svc_step A s CallStop (s\<lparr>sSvc := c\<rparr>)"
| cancel_ctx: "\<not> sRaced s \<Longrightarrow> svc_step A s CancelCtx (s\<lparr>sCtxDone := True\<rparr>)"

inductive svc_run :: "codecs \<Rightarrow> 'h running \<Rightarrow> 'h event list \<Rightarrow> 'h running \<Rightarrow> bool" for A where
  run_nil: "svc_run A s [] s"
| run_snoc: "svc_run A s es s' \<Longrightarrow> svc_step A s' e s'' \<Longrightarrow> svc_run A s (es @ [e]) s''"

inductive_cases svc_runE: "svc_run A s es s'"

inductive_simps svc_step_simps [handler_defs]:
  "svc_step A s (Request rw) s'" "svc_step A s (Enqueue m) s'" "svc_step A s (Unblocked m) s'"
  "svc_step A s (Take m fs) s'" "svc_step A s StartOne s'" "svc_step A s AllStarted s'"
  "svc_step A s LoopReturns s'" "svc_step A s (Register uuid fn) s'"
  "svc_step A s (Unregister fid) s'" "svc_step A s CallStop s'" "svc_step A s CancelCtx s'"

end
