(* ===== verification/RpcTypes.thy ===== *)
theory RpcTypes
  imports Service
begin

text \<open>
  The data of the gateway, from rpc/types.go: requests and responses, users and members, with
  their constructors and codec methods. An interface value of Go is a value of a datatype
  with one constructor per dynamic type that occurs. Package json is a record of
  parameters, like the other libraries.
\<close>

section \<open>Values\<close>

text \<open>
  What \<open>json.Unmarshal\<close> stores in an \<open>interface{}\<close>. A float64 is the text it is printed as; the
  program never looks inside one. A decoded map has each key once.
\<close>

datatype xval =
    XNil
  | XBool bool
  | XNum string
  | XStr string
  | XList "xval list"
  | XMap "(string \<times> xval) list"

record Peerinfo =
  piID :: string
  piAddrs :: "string list"

record User =
  uName :: string
  uIcon :: bytes
  uComment :: string
  uId :: JID
  uAge :: int
  uGender :: int
  uGid :: GID
  uLastlog :: string

definition zero_User :: User where
  "zero_User = \<lparr>uName = [], uIcon = [], uComment = [], uId = [], uAge = 0, uGender = 0, uGid = [], uLastlog = []\<rparr>"

text \<open>The anonymous struct that the method \<open>conns\<close> answers with.\<close>

record conns_entity =
  ceTimeUsed :: string
  ceTotal :: nat
  ceDirect :: "Peerinfo list"
  ceRelay :: "(string \<times> Peerinfo list) list"

text \<open>The values that occur as a result: \<open>RVal\<close> is what the client decodes from JSON.\<close>

datatype result =
    RNil
  | RStr string
  | RUser User
  | RUsers "User list"
  | RGroup GroupRsp
  | RConns conns_entity
  | RVal xval

record Req =
  reqId :: string
  reqToken :: string
  reqMethod :: string
  reqParams :: "xval list"

record RspError =
  errCode :: string
  errMessage :: string

record Rsp =
  rspResult :: result
  rspError :: "RspError option"
  rspId :: string

definition zero_Req :: Req where
  "zero_Req = \<lparr>reqId = [], reqToken = [], reqMethod = [], reqParams = []\<rparr>"

definition zero_Rsp :: Rsp where
  "zero_Rsp = \<lparr>rspResult = RNil, rspError = None, rspId = []\<rparr>"

text \<open>
  The calls of package json: \<open>Unmarshal\<close> into a request, a response and a map, and \<open>Marshal\<close>
  of the same. As with amino, decoding works on an existing value.
\<close>

record json_lib =
  jsReq :: "bytes \<Rightarrow> Req \<Rightarrow> err option \<times> Req"
  jsReqBytes :: "Req \<Rightarrow> err + bytes"
  jsRsp :: "bytes \<Rightarrow> Rsp \<Rightarrow> err option \<times> Rsp"
  jsRspBytes :: "Rsp \<Rightarrow> err + bytes"
  jsMap :: "bytes \<Rightarrow> err + (string \<times> xval) list"
  jsMapBytes :: "(string \<times> xval) list \<Rightarrow> err + bytes"

section \<open>Members\<close>

record Member =
  meId :: JID
  meName :: string

type_synonym Members = "Member list"

definition ms_Len :: "Members \<Rightarrow> nat" where
  "ms_Len m = length m"

text \<open>\<open>bytes.Compare(a, b) < 0\<close>.\<close>

fun bytes_less :: "bytes \<Rightarrow> bytes \<Rightarrow> bool" where
  "bytes_less a [] = False"
| "bytes_less [] (y # ys) = True"
| "bytes_less (x # xs) (y # ys) =
     (of_char x < (of_char y :: nat) \<or> (x = y \<and> bytes_less xs ys))"

text \<open>An index out of range panics: \<open>None\<close>.\<close>

definition ms_Less :: "Members \<Rightarrow> nat \<Rightarrow> nat \<Rightarrow> bool option" where
  "ms_Less m i j =
    (if i < length m \<and> j < length m then Some (bytes_less (meId (m ! i)) (meId (m ! j))) else None)"

definition ms_Swap :: "Members \<Rightarrow> nat \<Rightarrow> nat \<Rightarrow> Members option" where
  "ms_Swap m i j = (if i < length m \<and> j < length m then Some (m[i := m ! j, j := m ! i]) else None)"

text \<open>\<open>Hash\<close> sorts its receiver in place and returns the digest of the ids.\<close>

definition ms_Hash :: "(bytes \<Rightarrow> bytes) \<Rightarrow> (Members \<Rightarrow> Members) \<Rightarrow> Members \<Rightarrow> bytes \<times> Members" where
  "ms_Hash sha1 srt m = (let m = srt m in (sha1 (concat (map meId m)), m))"

section \<open>Users\<close>

text \<open>A method returns its receiver and the error; \<open>FromMap\<close> returns a nil user when it cannot marshal.\<close>

definition User_FromJson :: "User amino \<Rightarrow> bytes \<Rightarrow> User \<Rightarrow> User \<times> err option" where
  "User_FromJson U dat c = (let (e, c') = aUnmarshalJSON U dat c in (c', e))"

definition User_FromMap ::
    "User amino \<Rightarrow> json_lib \<Rightarrow> (string \<times> xval) list \<Rightarrow> User \<Rightarrow> User option \<times> err option" where
  "User_FromMap U J m c =
    (case jsMapBytes J m of
       Inl err \<Rightarrow> (None, Some err)
     | Inr d \<Rightarrow> (let (c', e) = User_FromJson U d c in (Some c', e)))"

definition User_FromBytes :: "User amino \<Rightarrow> bytes \<Rightarrow> User \<Rightarrow> User \<times> err option" where
  "User_FromBytes U dat c = (let (e, c') = aUnmarshal U dat c in (c', e))"

definition User_FromReader :: "User amino \<Rightarrow> bytes \<Rightarrow> User \<Rightarrow> User \<times> err option" where
  "User_FromReader U r c = (let (e, c') = aUnmarshalReader U r c (1024 * 1024) in (c', e))"

definition User_Bytes :: "User amino \<Rightarrow> User \<Rightarrow> bytes" where
  "User_Bytes U c = encoded U c"

section \<open>Responses and requests\<close>

definition NewRsp :: "string \<Rightarrow> result \<Rightarrow> RspError option \<Rightarrow> Rsp" where
  "NewRsp rid res err =
    (let rsp = zero_Rsp\<lparr>rspId := rid\<rparr>
     in case err of
          Some e \<Rightarrow> rsp\<lparr>rspError := Some e\<rparr>
        | None \<Rightarrow> rsp\<lparr>rspResult := res\<rparr>)"

definition Rsp_Bytes :: "json_lib \<Rightarrow> Rsp \<Rightarrow> bytes" where
  "Rsp_Bytes J r = (case jsRspBytes J r of Inl e \<Rightarrow> [] | Inr buf \<Rightarrow> buf)"

definition Rsp_String :: "json_lib \<Rightarrow> Rsp \<Rightarrow> string" where
  "Rsp_String J r = Rsp_Bytes J r"

definition Rsp_FromBytes :: "json_lib \<Rightarrow> bytes \<Rightarrow> Rsp \<Rightarrow> Rsp \<times> err option" where
  "Rsp_FromBytes J dat r = (let (e, r') = jsRsp J dat r in (r', e))"

definition Req_Bytes :: "json_lib \<Rightarrow> Req \<Rightarrow> bytes" where
  "Req_Bytes J r = (case jsReqBytes J r of Inl e \<Rightarrow> [] | Inr buf \<Rightarrow> buf)"

definition Req_String :: "json_lib \<Rightarrow> Req \<Rightarrow> string" where
  "Req_String J r = Req_Bytes J r"

text \<open>The error of the decoding is dropped.\<close>

definition Req_FromBytes :: "json_lib \<Rightarrow> bytes \<Rightarrow> Req \<Rightarrow> Req" where
  "Req_FromBytes J dat r = snd (jsReq J dat r)"

text \<open>\<open>WriteTo\<close>: the bytes handed to the writer; the error is the writer's.\<close>

definition Rsp_WriteTo :: "json_lib \<Rightarrow> Rsp \<Rightarrow> bytes" where
  "Rsp_WriteTo J r = Rsp_Bytes J r"

definition Req_WriteTo :: "json_lib \<Rightarrow> Req \<Rightarrow> bytes" where
  "Req_WriteTo J r = Req_Bytes J r"

text \<open>The local function of \<open>NewReq\<close>: all parameters strings that together are a JSON object.\<close>

fun all_strings :: "xval list \<Rightarrow> string list option" where
  "all_strings [] = Some []"
| "all_strings (XStr s # xs) = map_option (\<lambda>ss. s # ss) (all_strings xs)"
| "all_strings (x # xs) = None"

definition adapt :: "json_lib \<Rightarrow> string \<Rightarrow> string \<Rightarrow> string \<Rightarrow> xval list \<Rightarrow> Req option" where
  "adapt J uuid token m a =
    (case all_strings a of
       None \<Rightarrow> None
     | Some as \<Rightarrow>
         (case jsMap J (join_with '' '' as) of
            Inr d \<Rightarrow> Some \<lparr>reqId = uuid, reqToken = token, reqMethod = m, reqParams = [XMap d]\<rparr>
          | Inl err \<Rightarrow> None))"

definition NewReq :: "json_lib \<Rightarrow> string \<Rightarrow> string \<Rightarrow> string \<Rightarrow> xval list \<Rightarrow> Req" where
  "NewReq J uuid token m p =
    (case adapt J uuid token m p of
       Some req \<Rightarrow> req
     | None \<Rightarrow> \<lparr>reqId = uuid, reqToken = token, reqMethod = m, reqParams = p\<rparr>)"

section \<open>Facts\<close>

lemma all_strings_map [simp]: "all_strings (map XStr ss) = Some ss"
  by (induction ss) auto

lemma all_strings_iff: "all_strings xs = Some ss \<longleftrightarrow> xs = map XStr ss"
  by (induction xs arbitrary: ss rule: all_strings.induct) auto

lemma bytes_less_irrefl [simp]: "\<not> bytes_less a a"
  by (induction a) auto

lemma bytes_less_trans: "bytes_less a b \<Longrightarrow> bytes_less b c \<Longrightarrow> bytes_less a c"
proof (induction a b arbitrary: c rule: bytes_less.induct)
  case (3 x xs y ys)
  then show ?case by (cases c) auto
next
  case (2 y ys)
  then show ?case by (cases c) auto
qed auto

lemma bytes_less_linear: "bytes_less a b \<or> a = b \<or> bytes_less b a"
proof (induction a b rule: bytes_less.induct)
  case (1 a)
  then show ?case by (cases a) auto
next
  case (3 x xs y ys)
  then show ?case
    by (cases "(of_char x :: nat)" "(of_char y :: nat)" rule: linorder_cases) auto
qed auto

definition me_less :: "Member \<Rightarrow> Member \<Rightarrow> bool" where
  "me_less a b \<longleftrightarrow> bytes_less (meId a) (meId b)"

lemma ms_Less_me: "i < length m \<Longrightarrow> j < length m \<Longrightarrow> ms_Less m i j = Some (me_less (m ! i) (m ! j))"
  by (simp add: ms_Less_def me_less_def)

end
