(* ===== verification/RpcUser.thy ===== *)
theory RpcUser
  imports RpcTypes
begin

text \<open>
  The user service of rpc/user.go: user and group records in a LevelDB of their own, and the
  four methods of the gateway on them. A handler returns its response, \<open>None\<close> for a
  panic, and the new contents of the database.
\<close>

section \<open>Operations on the database\<close>

definition NewUserService ::
    "(string \<Rightarrow> ldb_options \<Rightarrow> err + 'd) \<Rightarrow> 'h ChatService \<Rightarrow> (Database \<times> 'd) option" where
  "NewUserService openFile c =
    (case NewLDBDatabase openFile (path_Join [GetHomedir c, ''user'']) 0 0 of
       Inl err \<Rightarrow> None
     | Inr (db, d) \<Rightarrow> Some (db, d))"

definition user_put :: "'d leveldb \<Rightarrow> User amino \<Rightarrow> Database \<Rightarrow> User \<Rightarrow> 'd \<Rightarrow> err option \<times> 'd" where
  "user_put L U db user d =
    (if uId user \<noteq> [] then db_Put L db (Peerid (uId user)) (User_Bytes U user) d
     else if uGid user \<noteq> [] then db_Put L db (uGid user) (User_Bytes U user) d
     else (Some ''id can not be nil'', d))"

definition user_get :: "'d leveldb \<Rightarrow> User amino \<Rightarrow> Database \<Rightarrow> string \<Rightarrow> 'd \<Rightarrow> User option \<times> err option" where
  "user_get L U db uid d =
    (case db_Get L db uid d of
       Inl err \<Rightarrow> (None, Some err)
     | Inr b \<Rightarrow> (let (u, err) = User_FromBytes U b zero_User in (Some u, err)))"

definition user_del :: "'d leveldb \<Rightarrow> Database \<Rightarrow> string \<Rightarrow> 'd \<Rightarrow> err option \<times> 'd" where
  "user_del L db uid d = db_Delete L db uid d"

fun users_loop :: "User amino \<Rightarrow> (bytes \<times> bytes) list \<Rightarrow> User list \<Rightarrow> User list" where
  "users_loop U [] sl = sl"
| "users_loop U ((k, v) # it) sl =
     (case User_FromBytes U v zero_User of
        (m, None) \<Rightarrow> users_loop U it (sl @ [m])
      | (m, Some err) \<Rightarrow> users_loop U it sl)"

definition user_query :: "'d leveldb \<Rightarrow> User amino \<Rightarrow> Database \<Rightarrow> 'd \<Rightarrow> User list \<times> err option" where
  "user_query L U db d = (users_loop U (db_NewIterator L db d) [], None)"

section \<open>Methods\<close>

text \<open>How \<open>Put\<close> reads its first parameter; any other value leaves a fresh user.\<close>

definition read_user :: "User amino \<Rightarrow> json_lib \<Rightarrow> xval \<Rightarrow> User option \<times> err option" where
  "read_user U J p =
    (case p of
       XStr j \<Rightarrow> (let (u, err) = User_FromJson U j zero_User in (Some u, err))
     | XMap m \<Rightarrow> User_FromMap U J m zero_User
     | _ \<Rightarrow> (Some zero_User, None))"

definition User_Put ::
    "'d leveldb \<Rightarrow> User amino \<Rightarrow> json_lib \<Rightarrow> Database \<Rightarrow> Req \<Rightarrow> 'd \<Rightarrow> Rsp option \<times> 'd" where
  "User_Put L U J db req d =
    (case reqParams req of
       [] \<Rightarrow> (Some (NewRsp (reqId req) RNil (Some \<lparr>errCode = ''10000'', errMessage = ''user not nil''\<rparr>)), d)
     | p # _ \<Rightarrow>
         (case read_user U J p of
            (_, Some err) \<Rightarrow>
              (Some (NewRsp (reqId req) RNil (Some \<lparr>errCode = ''10001'', errMessage = err\<rparr>)), d)
          | (None, None) \<Rightarrow> (None, d)
          | (Some user, None) \<Rightarrow>
              if uId user = [] \<and> uGid user = []
              then (Some (NewRsp (reqId req) RNil
                     (Some \<lparr>errCode = ''10002'', errMessage = ''userid / groupid not nil''\<rparr>)), d)
              else (case user_put L U db user d of
                      (Some err, d') \<Rightarrow>
                        (Some (NewRsp (reqId req) RNil (Some \<lparr>errCode = ''10003'', errMessage = err\<rparr>)), d')
                    | (None, d') \<Rightarrow> (Some (NewRsp (reqId req) (RStr ''success'') None), d'))))"

text \<open>The type assertion to string panics on any other value.\<close>

definition User_Get ::
    "'d leveldb \<Rightarrow> User amino \<Rightarrow> Database \<Rightarrow> Req \<Rightarrow> 'd \<Rightarrow> Rsp option" where
  "User_Get L U db req d =
    (case reqParams req of
       [] \<Rightarrow> Some (NewRsp (reqId req) RNil
               (Some \<lparr>errCode = ''20001'', errMessage = ''userid / groupid not nil''\<rparr>))
     | XStr uid # _ \<Rightarrow>
         (case user_get L U db uid d of
            (_, Some err) \<Rightarrow> Some (NewRsp (reqId req) RNil (Some \<lparr>errCode = ''20002'', errMessage = err\<rparr>))
          | (Some user, None) \<Rightarrow> Some (NewRsp (reqId req) (RUser user) None)
          | (None, None) \<Rightarrow> Some (NewRsp (reqId req) RNil None))
     | _ # _ \<Rightarrow> None)"

definition User_Del :: "'d leveldb \<Rightarrow> Database \<Rightarrow> Req \<Rightarrow> 'd \<Rightarrow> Rsp option \<times> 'd" where
  "User_Del L db req d =
    (case reqParams req of
       [] \<Rightarrow> (Some (NewRsp (reqId req) RNil
               (Some \<lparr>errCode = ''30001'', errMessage = ''userid / groupid not nil''\<rparr>)), d)
     | XStr uid # _ \<Rightarrow>
         (case user_del L db uid d of
            (Some err, d') \<Rightarrow>
              (Some (NewRsp (reqId req) RNil (Some \<lparr>errCode = ''30002'', errMessage = err\<rparr>)), d')
          | (None, d') \<Rightarrow> (Some (NewRsp (reqId req) (RStr ''success'') None), d'))
     | _ # _ \<Rightarrow> (None, d))"

definition User_Query :: "'d leveldb \<Rightarrow> User amino \<Rightarrow> Database \<Rightarrow> Req \<Rightarrow> 'd \<Rightarrow> Rsp option" where
  "User_Query L U db req d =
    (case user_query L U db d of
       (us, Some err) \<Rightarrow> Some (NewRsp (reqId req) RNil (Some \<lparr>errCode = ''40001'', errMessage = err\<rparr>))
     | (us, None) \<Rightarrow> Some (NewRsp (reqId req) (RUsers us) None))"

section \<open>The user store\<close>

locale user_store =
  database L ok view db + user: codec_laws U zero_User "\<lambda>u. u" "\<lambda>u. True"
  for L :: "'d leveldb" and ok :: "'d \<Rightarrow> bool" and view :: "'d \<Rightarrow> bytes \<rightharpoonup> bytes"
    and U :: "User amino" and db :: Database
begin

lemma user_put_ok:
  assumes "ok d" and "uId u \<noteq> [] \<or> uGid u \<noteq> []"
  shows "\<exists>d'. user_put L U db u d = (None, d') \<and> ok d' \<and>
    db_contents view db d' = (db_contents view db d)((if uId u \<noteq> [] then Peerid (uId u) else uGid u) \<mapsto> User_Bytes U u)"
proof -
  let ?k = "if uId u \<noteq> [] then Peerid (uId u) else uGid u"
  have "user_put L U db u d = db_Put L db ?k (User_Bytes U u) d"
    using assms(2) by (simp add: user_put_def)
  then show ?thesis
    using put_err [OF assms(1)] put_ok [OF assms(1)] put_contents [OF assms(1)] by (metis prod.collapse)
qed

lemma user_del_ok:
  assumes "ok d"
  shows "\<exists>d'. user_del L db k d = (None, d') \<and> ok d' \<and>
    db_contents view db d' = (db_contents view db d)(k := None)"
  using del_err [OF assms] del_ok [OF assms] del_contents [OF assms]
  unfolding user_del_def by (metis prod.collapse)

lemma User_decode [simp]: "User_FromBytes U (User_Bytes U u) zero_User = (u, None)"
  by (simp add: User_FromBytes_def User_Bytes_def)

lemma user_get_at:
  "ok d \<Longrightarrow> db_contents view db d k = Some (User_Bytes U u) \<Longrightarrow> user_get L U db k d = (Some u, None)"
  by (simp add: user_get_def get_Some)

lemma user_get_absent: "ok d \<Longrightarrow> db_contents view db d k = None \<Longrightarrow> \<exists>e. user_get L U db k d = (None, Some e)"
  using get_None [of d k] by (auto simp: user_get_def)

end

end
