(* ===== verification/RpcServer.thy ===== *)
theory RpcServer
  imports RpcUser
begin

text \<open>
  The gateway of rpc/server.go and rpc/group.go: the built-in methods, the registered services
  and how a method name finds its function, the group service, the HTTP handler with its
  token check and the WebSocket handler. The package variables are a record that every call
  is handed and returns; a method returns its response, or \<open>None\<close> when it panics (the HTTP server then drops
  the connection, and what was changed stays changed).
\<close>

section \<open>The environment and the state\<close>

record ('d, 'w) libs =
  libL :: "'d leveldb"
  libA :: codecs
  libUser :: "User amino"
  libJson :: json_lib
  libP2p :: "'w p2p"
  libSha1 :: "bytes \<Rightarrow> bytes"
  libOrder :: "string list \<Rightarrow> string list"

text \<open>
  What one call draws from outside: a UUID, the clock in nanoseconds and in seconds, the
  elapsed time as text, and the peer id of a fresh key. \<open>libOrder\<close> is the order in which Go
  ranges over a map with the given keys.
\<close>

record tick =
  tkUuid :: string
  tkNano :: int
  tkUnix :: int
  tkElapsed :: string
  tkKeyid :: string

text \<open>The types that implement the interface \<open>Service\<close>.\<close>

datatype Service =
    UserService Database
  | GroupService Database

record ('h, 'd, 'w) gateway =
  gwChat :: "'h ChatService"
  gwPwd :: string
  gwPort :: int
  gwTokens :: "string \<rightharpoonup> int"
  gwServices :: "(string \<times> Service) list"
  gwUserdb :: 'd
  gwGroupdb :: 'd
  gwWorld :: 'w

section \<open>Finding a function\<close>

text \<open>A function of a service, as a value: the map \<open>Api\<close> holds bound methods.\<close>

datatype rpc_fn =
    Fn_Put Database
  | Fn_Get Database
  | Fn_Del Database
  | Fn_Query Database
  | Fn_Create Database

record API =
  apiNamespace :: string
  apiApi :: "(string \<times> rpc_fn) list"

fun APIs :: "Service \<Rightarrow> API" where
  "APIs (UserService db) = \<lparr>apiNamespace = ''user'',
     apiApi = [(''put'', Fn_Put db), (''get'', Fn_Get db), (''del'', Fn_Del db), (''query'', Fn_Query db)]\<rparr>"
| "APIs (GroupService db) = \<lparr>apiNamespace = ''group'', apiApi = [(''create'', Fn_Create db)]\<rparr>"

definition serviceReg :: "Service \<Rightarrow> (string \<times> Service) list \<Rightarrow> (string \<times> Service) list" where
  "serviceReg s m = AList.update (apiNamespace (APIs s)) s m"

definition getRpcFn :: "(string \<times> Service) list \<Rightarrow> string \<Rightarrow> rpc_fn option" where
  "getRpcFn servicemap method =
    (case split_on (CHR ''_'') method of
       [ns, fn] \<Rightarrow>
         (case map_of servicemap ns of
            Some s \<Rightarrow> map_of (apiApi (APIs s)) fn
          | None \<Rightarrow> None)
     | _ \<Rightarrow> None)"

section \<open>Helpers\<close>

definition dedup :: "(string list \<Rightarrow> string list) \<Rightarrow> string list \<Rightarrow> string list" where
  "dedup order arr = order (remdups arr)"

fun X2Str :: "xval list \<Rightarrow> err + string list" where
  "X2Str [] = Inr []"
| "X2Str (XStr i # il) = (case X2Str il of Inl e \<Rightarrow> Inl e | Inr r \<Rightarrow> Inr (i # r))"
| "X2Str (x # il) = Inl ''item not str''"

definition Str2X :: "string list \<Rightarrow> xval list" where
  "Str2X sl = map XStr sl"

section \<open>The built-in methods\<close>

text \<open>The token: the hexadecimal digest of the password and the time.\<close>

definition new_token :: "('d, 'w) libs \<Rightarrow> string \<Rightarrow> tick \<Rightarrow> string" where
  "new_token lb pwd tk = hex_encode (libSha1 lb (pwd @ int_text (tkNano tk)))"

definition fn_auth ::
    "('d, 'w) libs \<Rightarrow> tick \<Rightarrow> Req \<Rightarrow> ('h, 'd, 'w) gateway \<Rightarrow> Rsp option \<times> ('h, 'd, 'w) gateway" where
  "fn_auth lb tk req s =
    (if gwPwd s = [] \<or> reqParams req = [XStr (gwPwd s)] then
       (let token = new_token lb (gwPwd s) tk
        in (Some (NewRsp (reqId req) (RStr token) None), s\<lparr>gwTokens := (gwTokens s)(token \<mapsto> tkUnix tk)\<rparr>))
     else (Some (NewRsp (reqId req) RNil (Some \<lparr>errCode = ''1002'', errMessage = ''auth_fail''\<rparr>)), s))"

definition fn_sendmsg ::
    "('d, 'w) libs \<Rightarrow> tick \<Rightarrow> Req \<Rightarrow> ('h, 'd, 'w) gateway \<Rightarrow> Rsp option \<times> ('h, 'd, 'w) gateway" where
  "fn_sendmsg lb tk req s =
    (case reqParams req of
       [] \<Rightarrow> (None, s)
     | to # rest \<Rightarrow>
         (case X2Str rest of
            Inl err \<Rightarrow> (Some (NewRsp (reqId req) RNil (Some \<lparr>errCode = ''1003'', errMessage = err\<rparr>)), s)
          | Inr c \<Rightarrow>
              (case to of
                 XStr jid \<Rightarrow>
                   (let content = join_with '' '' c;
                        msg = NewNormalMessage (tkUuid tk) (tkUnix tk) (GetMyid (gwChat s)) jid content []
                    in case SendMsg (libA lb) (libP2p lb) msg (gwWorld s) of
                         (Some err, w) \<Rightarrow>
                           (Some (NewRsp (reqId req) RNil (Some \<lparr>errCode = ''1003'', errMessage = err\<rparr>)),
                            s\<lparr>gwWorld := w\<rparr>)
                       | (None, w) \<Rightarrow> (Some (NewRsp (reqId req) (RStr ''success'') None), s\<lparr>gwWorld := w\<rparr>))
               | _ \<Rightarrow> (None, s))))"

definition fn_myid :: "Req \<Rightarrow> ('h, 'd, 'w) gateway \<Rightarrow> Rsp option \<times> ('h, 'd, 'w) gateway" where
  "fn_myid req s = (Some (NewRsp (reqId req) (RStr (GetMyid (gwChat s))) None), s)"

fun find_peers :: "'w p2p \<Rightarrow> 'w \<Rightarrow> string list \<Rightarrow> Peerinfo list" where
  "find_peers P w [] = []"
| "find_peers P w (pid # pids) =
     (case pFindpeer P pid w of
        Inr addrs \<Rightarrow> \<lparr>piID = pid, piAddrs = addrs\<rparr> # find_peers P w pids
      | Inl err \<Rightarrow> find_peers P w pids)"

definition fn_conns ::
    "('d, 'w) libs \<Rightarrow> tick \<Rightarrow> Req \<Rightarrow> ('h, 'd, 'w) gateway \<Rightarrow> Rsp option \<times> ('h, 'd, 'w) gateway" where
  "fn_conns lb tk req s =
    (let P = GetLibp2pService (libP2p lb) (gwChat s);
         w = gwWorld s;
         (direct, relay, total) = pPeers P w;
         dpis = find_peers P w direct;
         rpis = map (\<lambda>(rid, ids). (rid, find_peers P w (dedup (libOrder lb) ids))) relay
     in (Some (NewRsp (reqId req) (RConns \<lparr>ceTimeUsed = tkElapsed tk, ceTotal = total, ceDirect = dpis,
           ceRelay = rpis\<rparr>) None), s))"

section \<open>The group service\<close>

text \<open>\<open>groupBean\<close>: a group decoded from JSON; \<open>FromMap\<close> returns nil when it cannot marshal.\<close>

definition groupBean_FromJson :: "codecs \<Rightarrow> bytes \<Rightarrow> Group \<Rightarrow> Group \<times> err option" where
  "groupBean_FromJson A dat c = (let (e, c') = aUnmarshalJSON (cGroup A) dat c in (c', e))"

definition groupBean_FromMap ::
    "codecs \<Rightarrow> json_lib \<Rightarrow> (string \<times> xval) list \<Rightarrow> Group \<Rightarrow> Group option \<times> err option" where
  "groupBean_FromMap A J m c =
    (case jsMapBytes J m of
       Inl err \<Rightarrow> (None, Some err)
     | Inr d \<Rightarrow> (let (c', e) = groupBean_FromJson A d c in (Some c', e)))"

definition read_group :: "codecs \<Rightarrow> json_lib \<Rightarrow> xval \<Rightarrow> Group option" where
  "read_group A J p =
    (case p of
       XStr j \<Rightarrow> Some (fst (groupBean_FromJson A j zero_Group))
     | XMap m \<Rightarrow> fst (groupBean_FromMap A J m zero_Group)
     | _ \<Rightarrow> Some zero_Group)"

text \<open>
  Creating: the error of reading the parameter is overwritten by that of \<open>CreateGroup\<close>, which dereferences
  the group once it has found a mailbox. Then, whether or not there was an error, the
  group of the response is looked into to record it with the user service.
\<close>

definition Group_Create ::
    "('d, 'w) libs \<Rightarrow> tick \<Rightarrow> Req \<Rightarrow> ('h, 'd, 'w) gateway \<Rightarrow> Rsp option \<times> ('h, 'd, 'w) gateway" where
  "Group_Create lb tk req s =
    (case reqParams req of
       [] \<Rightarrow> (Some (NewRsp (reqId req) RNil (Some \<lparr>errCode = ''10000'', errMessage = ''group not nil''\<rparr>)), s)
     | p # _ \<Rightarrow>
         (let grp = read_group (libA lb) (libJson lb) p
          in if grp = None \<and> Mailid (csMyid (gwChat s)) \<noteq> [] then (None, s)
             else
               (case CreateGroup (libA lb) (libP2p lb) (tkKeyid tk) (gwChat s)
                       (case grp of Some g \<Rightarrow> g | None \<Rightarrow> zero_Group) (gwWorld s) of
                  (r, _, w) \<Rightarrow>
                    (let s = s\<lparr>gwWorld := w\<rparr>;
                         rsp = (case r of
                           Inl err \<Rightarrow> NewRsp (reqId req) RNil (Some \<lparr>errCode = ''10001'', errMessage = err\<rparr>)
                         | Inr grsp \<Rightarrow> NewRsp (reqId req) (RGroup grsp) None)
                     in case getRpcFn (gwServices s) ''user_put'' of
                          Some (Fn_Put db) \<Rightarrow>
                            (case r of
                               Inl err \<Rightarrow> (None, s)
                             | Inr grsp \<Rightarrow>
                                 (case grGroup grsp of
                                    None \<Rightarrow> (None, s)
                                  | Some g \<Rightarrow>
                                      (let putReq = zero_Req\<lparr>reqParams := [XMap [
                                             (''gid'', XStr (gId g)), (''name'', XStr (gName g)),
                                             (''comment'', XStr (gComment g)), (''lastlog'', XStr (gLastlog g))]]\<rparr>
                                       in case User_Put (libL lb) (libUser lb) (libJson lb) db putReq (gwUserdb s) of
                                            (None, d) \<Rightarrow> (None, s\<lparr>gwUserdb := d\<rparr>)
                                          | (Some _, d) \<Rightarrow> (Some rsp, s\<lparr>gwUserdb := d\<rparr>))))
                        | _ \<Rightarrow> (Some rsp, s)))))"

definition NewGroupService ::
    "(string \<Rightarrow> ldb_options \<Rightarrow> err + 'd) \<Rightarrow> 'h ChatService \<Rightarrow> (Database \<times> 'd) option" where
  "NewGroupService openFile c =
    (case NewLDBDatabase openFile (path_Join [GetHomedir c, ''group'']) 0 0 of
       Inl err \<Rightarrow> None
     | Inr (db, d) \<Rightarrow> Some (db, d))"

section \<open>Calling\<close>

fun call_service ::
    "('d, 'w) libs \<Rightarrow> tick \<Rightarrow> rpc_fn \<Rightarrow> Req \<Rightarrow> ('h, 'd, 'w) gateway \<Rightarrow> Rsp option \<times> ('h, 'd, 'w) gateway" where
  "call_service lb tk (Fn_Put db) req s =
     (let (r, d) = User_Put (libL lb) (libUser lb) (libJson lb) db req (gwUserdb s) in (r, s\<lparr>gwUserdb := d\<rparr>))"
| "call_service lb tk (Fn_Get db) req s = (User_Get (libL lb) (libUser lb) db req (gwUserdb s), s)"
| "call_service lb tk (Fn_Del db) req s =
     (let (r, d) = User_Del (libL lb) db req (gwUserdb s) in (r, s\<lparr>gwUserdb := d\<rparr>))"
| "call_service lb tk (Fn_Query db) req s = (User_Query (libL lb) (libUser lb) db req (gwUserdb s), s)"
| "call_service lb tk (Fn_Create db) req s = Group_Create lb tk req s"

text \<open>The map \<open>fnReg\<close>.\<close>

definition fnReg ::
    "('d, 'w) libs \<Rightarrow> tick \<Rightarrow> string \<Rightarrow> (Req \<Rightarrow> ('h, 'd, 'w) gateway \<Rightarrow> Rsp option \<times> ('h, 'd, 'w) gateway) option" where
  "fnReg lb tk method =
    (if method = ''auth'' then Some (fn_auth lb tk)
     else if method = ''sendmsg'' then Some (fn_sendmsg lb tk)
     else if method = ''myid'' then Some fn_myid
     else if method = ''conns'' then Some (fn_conns lb tk)
     else None)"

text \<open>A token missing from the map reads as zero.\<close>

definition token_time :: "('h, 'd, 'w) gateway \<Rightarrow> string \<Rightarrow> int" where
  "token_time s t = (case gwTokens s t of Some n \<Rightarrow> n | None \<Rightarrow> 0)"

definition handle_req ::
    "('d, 'w) libs \<Rightarrow> tick \<Rightarrow> Req \<Rightarrow> ('h, 'd, 'w) gateway \<Rightarrow> Rsp option \<times> ('h, 'd, 'w) gateway" where
  "handle_req lb tk req s =
    (if reqMethod req \<noteq> ''auth'' \<and> token_time s (reqToken req) \<le> 0 then
       (Some (NewRsp (reqId req) RNil
          (Some \<lparr>errCode = ''1001'', errMessage = ''error token , please relogin .''\<rparr>)), s)
     else
       (case fnReg lb tk (reqMethod req) of
          Some fn \<Rightarrow> fn req s
        | None \<Rightarrow>
            (case getRpcFn (gwServices s) (reqMethod req) of
               Some fn \<Rightarrow> call_service lb tk fn req s
             | None \<Rightarrow> (Some (NewRsp (reqId req) RNil
                 (Some \<lparr>errCode = ''1003'', errMessage = ''method_not_support''\<rparr>)), s))))"

text \<open>
  The handler of \<open>/rpc\<close>: \<open>body\<close> is \<open>None\<close> when reading it fails, and then nothing is written.
  The result is what was written, or \<open>None\<close> when the handler panicked.
\<close>

definition http_rpc ::
    "('d, 'w) libs \<Rightarrow> tick \<Rightarrow> bytes option \<Rightarrow> ('h, 'd, 'w) gateway \<Rightarrow> bytes option \<times> ('h, 'd, 'w) gateway" where
  "http_rpc lb tk body s =
    (case body of
       None \<Rightarrow> (Some [], s)
     | Some dat \<Rightarrow>
         (case handle_req lb tk (Req_FromBytes (libJson lb) dat zero_Req) s of
            (None, s') \<Rightarrow> (None, s')
          | (Some rsp, s') \<Rightarrow> (Some (Rsp_WriteTo (libJson lb) rsp), s')))"

section \<open>WebSocket sessions\<close>

text \<open>
  The handler of \<open>/chat\<close> up to the point where it waits: the frames it wrote, the id of the
  message handler it registered, if it got that far, and the new state. \<open>conn\<close> is the handler
  it registers, \<open>fid\<close> the UUID of the registration. Errors of writing and of \<open>CleanMsg\<close> are ignored.
\<close>

definition ws_open ::
    "('d, 'w) libs \<Rightarrow> tick \<Rightarrow> string \<Rightarrow> 'h \<Rightarrow> bytes option \<Rightarrow> ('h, 'd, 'w) gateway \<Rightarrow>
     bytes list \<times> string option \<times> ('h, 'd, 'w) gateway" where
  "ws_open lb tk fid conn inp s =
    (case inp of
       None \<Rightarrow> ([], None, s)
     | Some dat \<Rightarrow>
         (let req = Req_FromBytes (libJson lb) dat zero_Req;
              sys = (\<lambda>k v. Message_Json (libA lb) (NewSysMessage (tkUuid tk) (tkUnix tk) []
                       [\<lparr>aKey = ''method'', aVal = reqMethod req\<rparr>, \<lparr>aKey = k, aVal = v\<rparr>]))
          in if gwTokens s (reqToken req) = None then ([sys ''error'' ''error_token''], None, s)
             else
               (let (queued, w) =
                  (case cs_QueryMsg (libA lb) (libP2p lb) (gwChat s) (gwWorld s) of
                     ((Some ml, None), w) \<Rightarrow>
                       (map (Message_Json (libA lb)) (Messages ml),
                        snd (cs_CleanMsg (libA lb) (libP2p lb) (gwChat s)
                          (map (\<lambda>m. eId (mEnvelope m)) (Messages ml)) w))
                   | (_, w) \<Rightarrow> ([], w))
                in (sys ''result'' ''success'' # queued, Some fid,
                    s\<lparr>gwChat := snd (AppendHandleMsg fid conn (gwChat s)), gwWorld := w\<rparr>))))"

text \<open>When receiving fails the session ends and its handler is dropped.\<close>

definition ws_close :: "string \<Rightarrow> ('h, 'd, 'w) gateway \<Rightarrow> ('h, 'd, 'w) gateway" where
  "ws_close fid s = s\<lparr>gwChat := DropHandleMsg fid (gwChat s)\<rparr>"

section \<open>Starting\<close>

text \<open>
  The state in which the gateway serves: no tokens, both services registered. \<open>None\<close>: a
  database cannot be opened and the constructor panics.
\<close>

definition StartRPC ::
    "(string \<Rightarrow> ldb_options \<Rightarrow> err + 'd) \<Rightarrow> string \<Rightarrow> int \<Rightarrow> 'h ChatService \<Rightarrow> 'w \<Rightarrow>
     ('h, 'd, 'w) gateway option" where
  "StartRPC openFile pwd port c w =
    (case NewUserService openFile c of
       None \<Rightarrow> None
     | Some (udb, ud) \<Rightarrow>
         (case NewGroupService openFile c of
            None \<Rightarrow> None
          | Some (gdb, gd) \<Rightarrow>
              Some \<lparr>gwChat = c, gwPwd = pwd, gwPort = port, gwTokens = Map.empty,
                gwServices = serviceReg (GroupService gdb) (serviceReg (UserService udb) []),
                gwUserdb = ud, gwGroupdb = gd, gwWorld = w\<rparr>))"

definition listen_addr :: "int \<Rightarrow> string" where
  "listen_addr port = ''127.0.0.1:'' @ int_text port"

end
