(* ===== verification/App.thy ===== *)
theory App
  imports RpcServer
begin

text \<open>
  The program achat of app/achat/cmd/achat: the configuration it derives from its flags, how
  it starts a node (main.go), and the console with its requests, its login and its
  command loop (console.go). Parsing the flags, the terminal and the HTTP transport are
  libraries; a call over HTTP is a parameter.
\<close>

section \<open>Configuration (main.go)\<close>

text \<open>The flags, with the values \<open>init\<close> declares for them; the password and the mailbox default to the empty string.\<close>

record flags =
  flHomedir :: string
  flPort :: int
  flNetworkid :: int
  flRpcport :: int
  flMuxport :: int
  flPwd :: string
  flMailbox :: string
  flBootnodes :: string
  flNodiscover :: bool

definition default_flags :: flags where
  "default_flags = \<lparr>flHomedir = ''/tmp'', flPort = 24000, flNetworkid = 1, flRpcport = 9990, flMuxport = 0,
     flPwd = [], flMailbox = [], flBootnodes = [], flNodiscover = False\<rparr>"

definition DEFBOOTNODES :: "string list" where
  "DEFBOOTNODES =
    [''/ip4/82.157.104.202/tcp/24000/p2p/16Uiu2HAmThtRghjg2k2fK1Zau5GW1svxrc2RXuNk5wwGnwA9juUT'',
     ''/ip4/39.105.35.133/tcp/24000/p2p/16Uiu2HAmUudavpi7V1FUxWoLhXTGJ4i38ZMhAuL2Tc9LPCz8EzZa'']"

text \<open>\<open>big.Int.Bytes\<close>: the absolute value, most significant byte first.\<close>

fun nat_bytes :: "nat \<Rightarrow> bytes" where
  "nat_bytes n = (if n = 0 then [] else nat_bytes (n div 256) @ [char_of (n mod 256)])"

declare nat_bytes.simps [simp del]

definition pskFingerprint :: "(bytes \<Rightarrow> bytes) \<Rightarrow> int option \<Rightarrow> string" where
  "pskFingerprint sha256 networkID =
    (case networkID of
       None \<Rightarrow> []
     | Some n \<Rightarrow> take 12 (hex_encode (sha256 (nat_bytes (nat \<bar>n\<bar>)))))"

record Config =
  cfgHomedir :: string
  cfgPort :: int
  cfgDiscover :: bool
  cfgNetworkid :: int
  cfgBootnodes :: "string list"
  cfgRelay :: bool
  cfgMuxPort :: "int option"

text \<open>The conversion \<open>uint64(port)\<close> wraps. \<open>None\<close>: the program panics on an empty home directory.\<close>

definition achat_config :: "flags \<Rightarrow> Config option" where
  "achat_config f =
    (if flHomedir f = [] then None
     else
       (let cfg = \<lparr>cfgHomedir = flHomedir f, cfgPort = flPort f mod 2 ^ 64, cfgDiscover = \<not> flNodiscover f,
              cfgNetworkid = flNetworkid f, cfgBootnodes = DEFBOOTNODES, cfgRelay = True, cfgMuxPort = None\<rparr>;
            cfg = (if flBootnodes f \<noteq> [] then cfg\<lparr>cfgBootnodes := split_on (CHR '','') (flBootnodes f)\<rparr> else cfg);
            cfg = (if flNodiscover f then cfg\<lparr>cfgBootnodes := []\<rparr> else cfg);
            cfg = (if 0 < flMuxport f then cfg\<lparr>cfgMuxPort := Some (flMuxport f)\<rparr> else cfg)
        in Some cfg))"

text \<open>The subcommand \<open>bootnode\<close>.\<close>

definition bootnode_flags :: "flags \<Rightarrow> flags" where
  "bootnode_flags f = f\<lparr>flNodiscover := True\<rparr>"

section \<open>Starting a node (main.go)\<close>

text \<open>
  \<open>newService\<close> stands for creating and starting the p2p service from the configuration; it yields the world the
  node lives in. The log handler \<open>lg\<close> is registered under the UUID \<open>uuid\<close> before the service
  starts; the service is running when the gateway begins to serve. \<open>None\<close>: a panic on the way.
\<close>

definition achat ::
    "(Config \<Rightarrow> 'w) \<Rightarrow> 'w p2p \<Rightarrow> (string \<Rightarrow> ldb_options \<Rightarrow> err + 'd) \<Rightarrow> string \<Rightarrow> 'h \<Rightarrow> flags \<Rightarrow>
     ('h running \<times> 'd \<times> ('h, 'd, 'w) gateway) option" where
  "achat newService P openFile uuid lg f =
    (case achat_config f of
       None \<Rightarrow> None
     | Some cfg \<Rightarrow>
         (let w = newService cfg;
              myid = pMyid P w
          in case NewChatService openFile (NewJID myid (flMailbox f)) (flHomedir f) of
               None \<Rightarrow> None
             | Some (c, d) \<Rightarrow>
                 (let c = snd (AppendHandleMsg uuid lg c)
                  in case StartRPC openFile (flPwd f) (flRpcport f) c w of
                       None \<Rightarrow> None
                     | Some gw \<Rightarrow> Some (cs_Start c, d, gw))))"

section \<open>Requests of the console (console.go)\<close>

datatype urltype = CHAT | RPC

definition rpcurl :: "int \<Rightarrow> urltype \<Rightarrow> string" where
  "rpcurl rpcport p =
    (case p of
       CHAT \<Rightarrow> ''ws://localhost:'' @ int_text rpcport @ ''/'' @ ''chat''
     | RPC \<Rightarrow> ''http://localhost:'' @ int_text rpcport @ ''/'' @ ''rpc'')"

text \<open>
  \<open>post\<close> sends a body to a URL and brings back the body of the response, or the error of
  making the request or of the transport; \<open>'n\<close> is the world at the other end.
\<close>

definition callrpc ::
    "json_lib \<Rightarrow> (string \<Rightarrow> bytes \<Rightarrow> 'n \<Rightarrow> (err + bytes) \<times> 'n) \<Rightarrow> int \<Rightarrow> Req \<Rightarrow> 'n \<Rightarrow> (err + Rsp) \<times> 'n" where
  "callrpc J post rpcport req n =
    (case post (rpcurl rpcport RPC) (Req_WriteTo J req) n of
       (Inl err, n') \<Rightarrow> (Inl err, n')
     | (Inr rtn, n') \<Rightarrow>
         (case Rsp_FromBytes J rtn zero_Rsp of
            (rsp, Some err) \<Rightarrow> (Inl err, n')
          | (rsp, None) \<Rightarrow> (Inr rsp, n')))"

text \<open>The token, or the error; \<open>None\<close>: the result is not a string and the assertion panics.\<close>

definition auth ::
    "json_lib \<Rightarrow> (string \<Rightarrow> bytes \<Rightarrow> 'n \<Rightarrow> (err + bytes) \<times> 'n) \<Rightarrow> int \<Rightarrow> string \<Rightarrow> string \<Rightarrow> string \<Rightarrow> 'n \<Rightarrow>
     (err + string) option \<times> 'n" where
  "auth J post rpcport uuid token pwd n =
    (case callrpc J post rpcport (NewReq J uuid token ''auth'' [XStr pwd]) n of
       (Inl err, n') \<Rightarrow> (Some (Inl err), n')
     | (Inr rsp, n') \<Rightarrow>
         (case rspError rsp of
            Some e \<Rightarrow> (Some (Inl (errCode e @ '' : '' @ errMessage e)), n')
          | None \<Rightarrow>
              (case rspResult rsp of
                 RVal (XStr tkn) \<Rightarrow>
                   (if tkn \<noteq> [] then (Some (Inr tkn), n')
                    else (Some (Inl ''error pwd req / token resp''), n'))
               | _ \<Rightarrow> (None, n'))))"

section \<open>The command loop (console.go)\<close>

definition Instructs :: "string list" where
  "Instructs = [''opensession'', ''close'', ''myid'', ''conns'', ''exit'', ''help'']"

text \<open>The completer; \<open>lower\<close> is \<open>strings.ToLower\<close>.\<close>

definition completer :: "(string \<Rightarrow> string) \<Rightarrow> string list \<Rightarrow> string \<Rightarrow> string list" where
  "completer lower instructNames line = filter (\<lambda>n. prefix (lower line) n) instructNames"

text \<open>The label of the prompt; slicing a target of fewer than six bytes panics.\<close>

definition prompt_label :: "string \<Rightarrow> string option" where
  "prompt_label targetId =
    (if targetId = [] then Some ''$> ''
     else if length targetId < 6 then None
     else Some (''@'' @ drop (length targetId - 6) targetId @ ''$> ''))"

text \<open>
  What one line makes the console do: nothing, print the help, open or leave a session, end,
  call the gateway and wait for the answer, or start a goroutine that hands the words of the line to the
  write loop.
\<close>

datatype command =
    Skip
  | Help
  | Session string
  | Bye
  | Call Req
  | Spawn "string list"
  | Crash

definition run_line :: "json_lib \<Rightarrow> string \<Rightarrow> string \<Rightarrow> string \<Rightarrow> string \<Rightarrow> command" where
  "run_line J uuid token targetId cmd =
    (if cmd = [] then Skip
     else
       (let cmd = trim_char (CHR '' '') cmd;
            cmdArg = split_on (CHR '' '') cmd
        in if hd cmdArg = ''opensession'' then (if length cmdArg < 2 then Crash else Session (cmdArg ! 1))
           else if hd cmdArg = ''help'' then Help
           else if hd cmdArg = ''exit'' then (if targetId \<noteq> [] then Session [] else Bye)
           else if hd cmdArg \<in> {''myid'', ''conns'', ''group_create'', ''user_query''}
           then Call (NewReq J uuid token (hd cmdArg) (map XStr (tl cmdArg)))
           else Spawn cmdArg))"

text \<open>
  The request the goroutine of a line makes of its words. It reads the variable \<open>targetId\<close> when it runs, not
  when the line was typed.
\<close>

definition send_req :: "json_lib \<Rightarrow> string \<Rightarrow> string \<Rightarrow> string \<Rightarrow> string list \<Rightarrow> Req" where
  "send_req J uuid token targetId cmdArg =
    (if targetId \<noteq> [] then NewReq J uuid token ''sendmsg'' (XStr targetId # Str2X cmdArg)
     else NewReq J uuid token (hd cmdArg) (Str2X (tl cmdArg)))"

text \<open>What the console prints of the answer to a call.\<close>

datatype shown =
    ShowErr err
  | ShowRspErr string string
  | ShowText string
  | ShowJson result

definition show_call :: "err + Rsp \<Rightarrow> shown" where
  "show_call r =
    (case r of
       Inl err \<Rightarrow> ShowErr err
     | Inr rsp \<Rightarrow>
         (case rspError rsp of
            Some e \<Rightarrow> ShowRspErr (errCode e) (errMessage e)
          | None \<Rightarrow>
              (case rspResult rsp of
                 RVal (XStr t) \<Rightarrow> ShowText t
               | v \<Rightarrow> ShowJson v)))"

text \<open>
  The loop over what the prompt yields: a line, or an error (\<open>None\<close>, aborted or end of input),
  which ends it. The result: the commands run, and whether the loop ended (in the way the console
  ends, with \<open>Some\<close>), is waiting for more input, or panicked.
\<close>

datatype ending = Ended | Waiting | Panicked

fun console_loop ::
    "json_lib \<Rightarrow> string \<Rightarrow> (nat \<Rightarrow> string) \<Rightarrow> string \<Rightarrow> string option list \<Rightarrow> command list \<times> ending" where
  "console_loop J token us targetId [] =
     ([], if prompt_label targetId = None then Panicked else Waiting)"
| "console_loop J token us targetId (inp # inps) =
     (if prompt_label targetId = None then ([], Panicked)
      else (case inp of
              None \<Rightarrow> ([], Ended)
            | Some cmd \<Rightarrow>
                (let c = run_line J (us 0) token targetId cmd
                 in case c of
                      Bye \<Rightarrow> ([c], Ended)
                    | Crash \<Rightarrow> ([c], Panicked)
                    | Session t \<Rightarrow>
                        (let (cs, e) = console_loop J token (\<lambda>n. us (Suc n)) t inps in (c # cs, e))
                    | _ \<Rightarrow>
                        (let (cs, e) = console_loop J token (\<lambda>n. us (Suc n)) targetId inps in (c # cs, e)))))"

text \<open>
  The cleanup when the loop ends: the channel \<open>Stop\<close> is closed and the chat service of this process, if it has
  one (a console that attached to another process has none), is stopped.
\<close>

definition console_end :: "'h ChatService option \<Rightarrow> 'h ChatService option option" where
  "console_end c =
    (case c of
       None \<Rightarrow> Some None
     | Some c \<Rightarrow> (case cs_Stop c of None \<Rightarrow> None | Some (c', _) \<Rightarrow> Some (Some c')))"

end
