(* ===== verification/Console.thy ===== *)
theory Console
  imports App
begin

text \<open>
  The console of console.go while it runs: the command loop, the goroutine it starts for each line that is
  not a command, and the write loop, which take turns in any order. Theory App has what a
  line means (\<open>run_line\<close>), what a goroutine asks for (\<open>send_req\<close>) and how a request is made
  (\<open>callrpc\<close>); here is how they interleave, attaching, and the read loop.
\<close>

section \<open>State\<close>

text \<open>
  \<open>coSpawned\<close>: the goroutines that have not made their request yet, as the words of their lines;
  \<open>coReady\<close>: those that wait to hand it to the write loop, with the words. \<open>coClosed\<close>: the channel
  \<open>Stop\<close> is closed; \<open>coWriter\<close>: the write loop runs; \<open>coExited\<close>: the process has ended.
  \<open>coNet\<close> is the world at the other end of the requests. The last four fields record the lines for
  which a goroutine was started, what the write loop sent with the result, the lines given up, and what was printed for calls.
\<close>

record 'n console =
  coToken :: string
  coTarget :: string
  coSpawned :: "string list list"
  coReady :: "(string list \<times> Req) list"
  coClosed :: bool
  coWriter :: bool
  coExited :: bool
  coNet :: 'n
  coTyped :: "string list list"
  coSent :: "(string list \<times> Req \<times> (err + Rsp)) list"
  coGivenUp :: "string list list"
  coShown :: "shown list"

text \<open>The console as \<open>rwLoop\<close> leaves it: the write loop runs, no line was read.\<close>

definition rwLoop :: "string \<Rightarrow> 'n \<Rightarrow> 'n console" where
  "rwLoop token n =
    \<lparr>coToken = token, coTarget = [], coSpawned = [], coReady = [], coClosed = False, coWriter = True,
     coExited = False, coNet = n, coTyped = [], coSent = [], coGivenUp = [], coShown = []\<rparr>"

section \<open>Attaching\<close>

text \<open>
  \<open>AttachCmd\<close> up to the command loop: an error of the login is returned; otherwise the console dials the
  gateway's \<open>/chat\<close> and sends \<open>open\<close> with the token it got. \<open>dial\<close> opens a WebSocket to a
  URL and sends the frame; \<open>None\<close> stands for a failed dial, whose error is dropped, so that the nil
  connection panics. The result is \<open>None\<close> for a panic.
\<close>

definition AttachCmd ::
    "json_lib \<Rightarrow> (string \<Rightarrow> bytes \<Rightarrow> 'n \<Rightarrow> (err + bytes) \<times> 'n) \<Rightarrow> (string \<Rightarrow> bytes \<Rightarrow> 'n \<Rightarrow> 'n option) \<Rightarrow> int \<Rightarrow>
     (nat \<Rightarrow> string) \<Rightarrow> string \<Rightarrow> string \<Rightarrow> 'n \<Rightarrow> (err + 'n console) option \<times> 'n" where
  "AttachCmd J post dial rpcport us token pwd n =
    (case auth J post rpcport (us 0) token pwd n of
       (None, n') \<Rightarrow> (None, n')
     | (Some (Inl err), n') \<Rightarrow> (Some (Inl err), n')
     | (Some (Inr token'), n') \<Rightarrow>
         (case dial (rpcurl rpcport CHAT) (Req_WriteTo J (NewReq J (us 1) token' ''open'' [])) n' of
            None \<Rightarrow> (None, n')
          | Some n'' \<Rightarrow> (Some (Inr (rwLoop token' n'')), n'')))"

text \<open>
  The read loop: what it prints for the frames it receives, \<open>None\<close> being an error of the connection,
  which ends it.
\<close>

fun read_loop :: "codecs \<Rightarrow> bytes option list \<Rightarrow> (Message \<times> err option) list" where
  "read_loop A [] = []"
| "read_loop A (None # fs) = []"
| "read_loop A (Some j # fs) = Message_FromJson A j zero_Message # read_loop A fs"

section \<open>Steps\<close>

text \<open>
  What the command loop does with a line. A panic runs the deferred cleanup, which closes
  \<open>Stop\<close>, and then ends the process.
\<close>

definition exec_command ::
    "json_lib \<Rightarrow> (string \<Rightarrow> bytes \<Rightarrow> 'n \<Rightarrow> (err + bytes) \<times> 'n) \<Rightarrow> int \<Rightarrow> command \<Rightarrow> 'n console \<Rightarrow> 'n console" where
  "exec_command J post rpcport c s =
    (case c of
       Skip \<Rightarrow> s
     | Help \<Rightarrow> s
     | Session t \<Rightarrow> s\<lparr>coTarget := t\<rparr>
     | Bye \<Rightarrow> s\<lparr>coClosed := True\<rparr>
     | Crash \<Rightarrow> s\<lparr>coClosed := True, coExited := True\<rparr>
     | Call req \<Rightarrow>
         (let (r, n) = callrpc J post rpcport req (coNet s)
          in s\<lparr>coNet := n, coShown := coShown s @ [show_call r]\<rparr>)
     | Spawn ws \<Rightarrow> s\<lparr>coSpawned := coSpawned s @ [ws], coTyped := coTyped s @ [ws]\<rparr>)"

datatype con_event =
    Line string string | BadPrompt | InputEnds
  | Form "string list" string | Write "string list" Req | GiveUp "string list" Req
  | WriterStops | ProcessEnds

text \<open>
  One step. The command loop reads a line (with the UUID the line may draw) while \<open>Stop\<close> is open, since
  closing it is the last thing the loop does; the other steps are those of the goroutines. Once \<open>Stop\<close> is closed,
  a goroutine that waits gives up or still hands over its request, as the two selects choose, until the process ends.
\<close>

inductive con_step ::
    "json_lib \<Rightarrow> (string \<Rightarrow> bytes \<Rightarrow> 'n \<Rightarrow> (err + bytes) \<times> 'n) \<Rightarrow> int \<Rightarrow>
     'n console \<Rightarrow> con_event \<Rightarrow> 'n console \<Rightarrow> bool" for J post rpcport where
  read_line: "\<not> coExited s \<Longrightarrow> \<not> coClosed s \<Longrightarrow> prompt_label (coTarget s) \<noteq> None \<Longrightarrow>
    con_step J post rpcport s (Line cmd uuid)
      (exec_command J post rpcport (run_line J uuid (coToken s) (coTarget s) cmd) s)"
| bad_prompt: "\<not> coExited s \<Longrightarrow> \<not> coClosed s \<Longrightarrow> prompt_label (coTarget s) = None \<Longrightarrow>
    con_step J post rpcport s BadPrompt (s\<lparr>coClosed := True, coExited := True\<rparr>)"
| input_ends: "\<not> coExited s \<Longrightarrow> \<not> coClosed s \<Longrightarrow> con_step J post rpcport s InputEnds (s\<lparr>coClosed := True\<rparr>)"
| form_request: "\<not> coExited s \<Longrightarrow> ws \<in> set (coSpawned s) \<Longrightarrow>
    con_step J post rpcport s (Form ws uuid) (s\<lparr>coSpawned := remove1 ws (coSpawned s),
      coReady := coReady s @ [(ws, send_req J uuid (coToken s) (coTarget s) ws)]\<rparr>)"
| write_request: "\<not> coExited s \<Longrightarrow> coWriter s \<Longrightarrow> (ws, req) \<in> set (coReady s) \<Longrightarrow>
    callrpc J post rpcport req (coNet s) = (r, n) \<Longrightarrow>
    con_step J post rpcport s (Write ws req) (s\<lparr>coReady := remove1 (ws, req) (coReady s), coNet := n,
      coSent := coSent s @ [(ws, req, r)]\<rparr>)"
| give_request_up: "\<not> coExited s \<Longrightarrow> coClosed s \<Longrightarrow> (ws, req) \<in> set (coReady s) \<Longrightarrow>
    con_step J post rpcport s (GiveUp ws req) (s\<lparr>coReady := remove1 (ws, req) (coReady s),
      coGivenUp := coGivenUp s @ [ws]\<rparr>)"
| writer_stops: "\<not> coExited s \<Longrightarrow> coClosed s \<Longrightarrow> con_step J post rpcport s WriterStops (s\<lparr>coWriter := False\<rparr>)"
| process_ends: "\<not> coExited s \<Longrightarrow> coClosed s \<Longrightarrow> con_step J post rpcport s ProcessEnds (s\<lparr>coExited := True\<rparr>)"

inductive con_run ::
    "json_lib \<Rightarrow> (string \<Rightarrow> bytes \<Rightarrow> 'n \<Rightarrow> (err + bytes) \<times> 'n) \<Rightarrow> int \<Rightarrow>
     'n console \<Rightarrow> con_event list \<Rightarrow> 'n console \<Rightarrow> bool" for J post rpcport where
  con_nil: "con_run J post rpcport s [] s"
| con_snoc: "con_run J post rpcport s es s' \<Longrightarrow> con_step J post rpcport s' e s'' \<Longrightarrow>
    con_run J post rpcport s (es @ [e]) s''"

inductive_cases goroutine_stepE:
  "con_step J post rpcport s (Form ws uuid) s'" "con_step J post rpcport s (Write ws req) s'"

end
