(* ===== verification/MemberChain.thy ===== *)
theory MemberChain
  imports Types
begin

text \<open>
  The abstract side of the member list: a group's members are a list, in the order they
  joined. \<open>layout\<close> is how that list is laid out as linked items, \<open>item_add\<close> and \<open>item_sub\<close>
  are the changes the store makes to the items, and the lemmas here relate the two. No
  database appears yet; theory GroupSpec puts these items into one.
\<close>

section \<open>Neighbours in a list\<close>

fun nxt :: "JID list \<Rightarrow> JID \<Rightarrow> JID" where
  "nxt (a # b # r) i = (if a = i then b else nxt (b # r) i)"
| "nxt _ i = []"

definition prv :: "JID list \<Rightarrow> JID \<Rightarrow> JID" where
  "prv ids i = nxt (rev ids) i"

lemma nxt_split:
  "i \<notin> set xs \<Longrightarrow> nxt (xs @ i # ys) i = (case ys of [] \<Rightarrow> [] | b # _ \<Rightarrow> b)"
proof (induction xs)
  case Nil
  show ?case by (cases ys) auto
next
  case (Cons a xs)
  then show ?case by (cases xs) auto
qed

lemma prv_split:
  assumes "i \<notin> set ys"
  shows "prv (xs @ i # ys) i = (if xs = [] then [] else last xs)"
proof -
  have "prv (xs @ i # ys) i = nxt (rev ys @ i # rev xs) i" by (simp add: prv_def)
  also have "\<dots> = (case rev xs of [] \<Rightarrow> [] | b # _ \<Rightarrow> b)"
    by (rule nxt_split) (use assms in simp)
  also have "\<dots> = (if xs = [] then [] else last xs)"
    by (cases xs rule: rev_cases) auto
  finally show ?thesis .
qed

section \<open>The layout of a member list\<close>

definition ids_of :: "GroupMember list \<Rightarrow> JID list" where
  "ids_of gs = map gmId gs"

definition cell :: "JID list \<Rightarrow> GroupMember \<Rightarrow> MemberItem" where
  "cell ids m = \<lparr>miId = gmId m, miPrve = prv ids (gmId m), miNext = nxt ids (gmId m), miMember = Some m\<rparr>"

definition layout :: "GroupMember list \<Rightarrow> JID \<Rightarrow> MemberItem option" where
  "layout gs i = map_of (map (\<lambda>m. (gmId m, cell (ids_of gs) m)) gs) i"

definition last_cell :: "GroupMember list \<Rightarrow> MemberItem option" where
  "last_cell gs = (if gs = [] then None else Some (cell (ids_of gs) (last gs)))"

text \<open>Members of one group: distinct, non-empty ids.\<close>

definition members_ok :: "GroupMember list \<Rightarrow> bool" where
  "members_ok gs \<longleftrightarrow> distinct (ids_of gs) \<and> [] \<notin> set (ids_of gs)"

lemma ids_of_simps [simp]:
  "ids_of [] = []" "ids_of (m # gs) = gmId m # ids_of gs" "ids_of (gs @ hs) = ids_of gs @ ids_of hs"
  "ids_of gs = [] \<longleftrightarrow> gs = []"
  by (simp_all add: ids_of_def)

lemma set_ids_of: "set (ids_of gs) = gmId ` set gs"
  by (simp add: ids_of_def)

lemma last_ids_of: "gs \<noteq> [] \<Longrightarrow> last (ids_of gs) = gmId (last gs)"
  by (simp add: ids_of_def last_map)

lemma members_ok_snoc:
  "members_ok (gs @ [m]) \<longleftrightarrow> members_ok gs \<and> gmId m \<notin> set (ids_of gs) \<and> gmId m \<noteq> []"
  by (auto simp: members_ok_def)

lemma members_ok_drop: "members_ok (xs @ m # ys) \<Longrightarrow> members_ok (xs @ ys)"
  by (auto simp: members_ok_def)

lemma layout_None: "i \<notin> set (ids_of gs) \<Longrightarrow> layout gs i = None"
  by (auto simp: layout_def set_ids_of map_of_eq_None_iff)

lemma layout_Nil [simp]: "layout [] = Map.empty"
  by (simp add: layout_def fun_eq_iff)

lemma layout_empty_id: "members_ok gs \<Longrightarrow> layout gs [] = None"
  by (rule layout_None) (simp add: members_ok_def)

lemma layout_Some:
  assumes "members_ok gs" and "m \<in> set gs"
  shows "layout gs (gmId m) = Some (cell (ids_of gs) m)"
proof -
  have "distinct (map fst (map (\<lambda>m. (gmId m, cell (ids_of gs) m)) gs))"
    using assms(1) by (simp add: members_ok_def ids_of_def comp_def)
  then show ?thesis
    using assms(2) by (auto simp: layout_def map_of_eq_Some_iff)
qed

lemma layout_at:
  assumes "members_ok (xs @ m # ys)"
  shows "layout (xs @ m # ys) (gmId m) =
    Some \<lparr>miId = gmId m, miPrve = (if xs = [] then [] else gmId (last xs)),
      miNext = (if ys = [] then [] else gmId (hd ys)), miMember = Some m\<rparr>"
proof -
  have "gmId m \<notin> set (ids_of xs)" "gmId m \<notin> set (ids_of ys)"
    using assms by (auto simp: members_ok_def)
  then show ?thesis
    using layout_Some [OF assms, of m]
    by (cases ys) (simp_all add: cell_def nxt_split prv_split last_ids_of)
qed

lemma last_cell_layout:
  assumes "members_ok gs"
  shows "last_cell gs = (if gs = [] then None else layout gs (gmId (last gs)))"
  using layout_Some [OF assms, of "last gs"] by (simp add: last_cell_def)

text \<open>
  Two layouts agree where a member has the same neighbours in both.
\<close>

lemma member_split: "i \<in> set (ids_of gs) \<Longrightarrow> \<exists>xs m ys. gs = xs @ m # ys \<and> gmId m = i"
  by (auto simp: set_ids_of dest!: split_list)

section \<open>Adding a member\<close>

definition item_add ::
    "GroupMember \<Rightarrow> (JID \<Rightarrow> MemberItem option) \<times> MemberItem option \<Rightarrow>
     (JID \<Rightarrow> MemberItem option) \<times> MemberItem option" where
  "item_add gm s =
    (let (h, l) = s;
         itm = \<lparr>miId = gmId gm, miPrve = (case l of None \<Rightarrow> [] | Some p \<Rightarrow> miId p),
                miNext = [], miMember = Some (exp_member gm)\<rparr>
     in ((case l of None \<Rightarrow> h | Some p \<Rightarrow> h(miId p \<mapsto> p\<lparr>miNext := gmId gm\<rparr>))(gmId gm \<mapsto> itm), Some itm))"

lemma item_add_layout:
  assumes ok: "members_ok (gs @ [exp_member gm])"
  shows "item_add gm (layout gs, last_cell gs) =
    (layout (gs @ [exp_member gm]), last_cell (gs @ [exp_member gm]))"
proof (cases gs rule: rev_cases)
  case Nil
  with ok show ?thesis
    by (auto simp: item_add_def last_cell_def layout_def cell_def prv_def exp_member_def fun_eq_iff Let_def)
next
  case (snoc xs p)
  let ?m = "exp_member gm" and ?gs = "gs @ [exp_member gm]"
  have id: "gmId ?m = gmId gm" by (simp add: exp_member_def)
  have gs: "members_ok gs" using ok by (simp add: members_ok_snoc)
  have new: "layout ?gs (gmId gm) =
      Some \<lparr>miId = gmId gm, miPrve = gmId p, miNext = [], miMember = Some ?m\<rparr>"
    using layout_at [of gs ?m "[]"] ok snoc id by simp
  have p_old: "layout gs (gmId p) = Some (cell (ids_of gs) p)"
    using layout_Some [OF gs, of p] snoc by simp
  have p_cell: "cell (ids_of gs) p = \<lparr>miId = gmId p, miPrve = (if xs = [] then [] else gmId (last xs)),
      miNext = [], miMember = Some p\<rparr>"
    using layout_at [of xs p "[]"] gs snoc p_old by simp
  have p_new: "layout ?gs (gmId p) = Some ((cell (ids_of gs) p)\<lparr>miNext := gmId gm\<rparr>)"
    using layout_at [of xs p "[?m]"] ok snoc id unfolding p_cell by simp
  have "item_add gm (layout gs, last_cell gs) =
      ((layout gs)(gmId p \<mapsto> (cell (ids_of gs) p)\<lparr>miNext := gmId gm\<rparr>, gmId gm \<mapsto>
        \<lparr>miId = gmId gm, miPrve = gmId p, miNext = [], miMember = Some ?m\<rparr>),
       Some \<lparr>miId = gmId gm, miPrve = gmId p, miNext = [], miMember = Some ?m\<rparr>)"
    using snoc by (simp add: item_add_def last_cell_def cell_def Let_def)
  moreover have "(layout gs)(gmId p \<mapsto> (cell (ids_of gs) p)\<lparr>miNext := gmId gm\<rparr>, gmId gm \<mapsto>
        \<lparr>miId = gmId gm, miPrve = gmId p, miNext = [], miMember = Some ?m\<rparr>) = layout ?gs" (is "?l = _")
  proof
    fix i
    consider "i = gmId gm" | "i = gmId p" "i \<noteq> gmId gm" | "i \<notin> set (ids_of ?gs)"
      | "i \<in> set (ids_of xs)" "i \<noteq> gmId gm" "i \<noteq> gmId p"
      using snoc id by auto
    then show "?l i = layout ?gs i"
    proof cases
      case 1
      with new show ?thesis by simp
    next
      case 2
      with p_new show ?thesis by simp
    next
      case 3
      with snoc id show ?thesis using layout_None[of i gs] layout_None[of i ?gs] by auto
    next
      case 4
      then obtain us m vs where xs: "xs = us @ m # vs" "gmId m = i"
        using member_split by blast
      with 4 show ?thesis
        using layout_at [of us m "vs @ [p, ?m]"] layout_at [of us m "vs @ [p]"] ok gs snoc
        by (cases vs) simp_all
    qed
  qed
  moreover have "last_cell ?gs = layout ?gs (gmId gm)"
    using last_cell_layout [OF ok] id by simp
  ultimately show ?thesis using new by simp
qed

section \<open>Removing a member\<close>

definition item_sub ::
    "JID \<Rightarrow> (JID \<Rightarrow> MemberItem option) \<times> MemberItem option \<Rightarrow>
     ((JID \<Rightarrow> MemberItem option) \<times> MemberItem option) option" where
  "item_sub i s =
    (let (h, l) = s
     in case h i of
          None \<Rightarrow> None
        | Some itm \<Rightarrow>
            (case h (miPrve itm) of
               None \<Rightarrow> None
             | Some p \<Rightarrow>
                 (case h (miNext itm) of
                    Some n \<Rightarrow>
                      (let p' = p\<lparr>miNext := miId n\<rparr>;
                           h' = h(miId n \<mapsto> n\<lparr>miPrve := miId p\<rparr>)
                       in Some ((h'(miId p \<mapsto> p'))(miId itm := None), l))
                  | None \<Rightarrow>
                      (let p' = p\<lparr>miNext := []\<rparr>
                       in Some ((h(miId p \<mapsto> p'))(miId itm := None), Some p')))))"

text \<open>
  The items after a removal are always the layout of the shorter list. The last key is not:
  when the removed member was the one before the last, it keeps the old copy of the last
  item, whose back link still names the removed member.
\<close>

lemma item_sub_layout:
  assumes ok: "members_ok (xs @ p # m # ys)"
  shows "item_sub (gmId m) (layout (xs @ p # m # ys), l) =
    Some (layout (xs @ p # ys),
      if ys = [] then last_cell (xs @ [p]) else l)"
proof -
  let ?gs = "xs @ p # m # ys" and ?gs' = "xs @ p # ys"
  have ok': "members_ok ?gs'"
    using members_ok_drop [of "xs @ [p]" m ys] ok by simp
  have dist: "gmId m \<noteq> gmId p" "gmId m \<notin> set (ids_of xs)" "gmId p \<notin> set (ids_of xs)"
      "gmId m \<notin> set (ids_of ys)" "gmId p \<notin> set (ids_of ys)" "set (ids_of xs) \<inter> set (ids_of ys) = {}"
    using ok by (auto simp: members_ok_def)
  have at_m: "layout ?gs (gmId m) = Some \<lparr>miId = gmId m, miPrve = gmId p,
      miNext = (if ys = [] then [] else gmId (hd ys)), miMember = Some m\<rparr>"
    using layout_at [of "xs @ [p]" m ys] ok by simp
  note at_p = layout_at [of xs p "m # ys", OF ok]
  note at_p' = layout_at [of xs p ys, OF ok']
  have xs_same: "layout ?gs i = layout ?gs' i" if "i \<in> set (ids_of xs)" for i
  proof -
    from that obtain us q vs where "xs = us @ q # vs" "gmId q = i"
      using member_split by blast
    then show ?thesis
      using layout_at [of us q "vs @ p # m # ys"] layout_at [of us q "vs @ p # ys"] ok ok'
      by (cases vs) simp_all
  qed
  show ?thesis
  proof (cases ys)
    case Nil
    have "(layout ?gs)(gmId p \<mapsto> (cell (ids_of ?gs') p), gmId m := None) = layout ?gs'"
    proof
      fix i
      show "((layout ?gs)(gmId p \<mapsto> (cell (ids_of ?gs') p), gmId m := None)) i = layout ?gs' i"
        using xs_same [of i] dist Nil layout_None [of i ?gs] layout_None [of i ?gs']
          layout_Some [OF ok', of p] by (cases "i \<in> set (ids_of xs)") auto
    qed
    moreover have "cell (ids_of ?gs') p = \<lparr>miId = gmId p, miPrve = (if xs = [] then [] else gmId (last xs)),
        miNext = [], miMember = Some p\<rparr>"
      using at_p' layout_Some [OF ok', of p] Nil by simp
    ultimately show ?thesis
      using at_m at_p Nil layout_empty_id [OF ok] by (simp add: item_sub_def last_cell_def)
  next
    case (Cons n zs)
    let ?p' = "\<lparr>miId = gmId p, miPrve = (if xs = [] then [] else gmId (last xs)),
        miNext = gmId n, miMember = Some p\<rparr>"
    have at_n: "layout ?gs (gmId n) = Some \<lparr>miId = gmId n, miPrve = gmId m,
        miNext = (if zs = [] then [] else gmId (hd zs)), miMember = Some n\<rparr>"
      using layout_at [of "xs @ [p, m]" n zs] ok Cons by simp
    have at_n': "layout ?gs' (gmId n) = Some \<lparr>miId = gmId n, miPrve = gmId p,
        miNext = (if zs = [] then [] else gmId (hd zs)), miMember = Some n\<rparr>"
      using layout_at [of "xs @ [p]" n zs] ok' Cons by simp
    have zs_same: "layout ?gs i = layout ?gs' i" if i: "i \<in> set (ids_of zs)" for i
    proof -
      from i obtain us q vs where q: "zs = us @ q # vs" "gmId q = i"
        using member_split by blast
      then show ?thesis
        using layout_at [of "xs @ p # m # n # us" q vs] layout_at [of "xs @ p # n # us" q vs] ok ok' Cons
        by simp
    qed
    have "(layout ?gs)(gmId n \<mapsto> \<lparr>miId = gmId n, miPrve = gmId p,
        miNext = (if zs = [] then [] else gmId (hd zs)), miMember = Some n\<rparr>, gmId p \<mapsto> ?p', gmId m := None) =
      layout ?gs'" (is "?l = _")
    proof
      fix i
      show "?l i = layout ?gs' i"
        using xs_same [of i] zs_same [of i] dist Cons layout_None [of i ?gs] layout_None [of i ?gs'] at_n' at_p'
        by (cases "i \<in> set (ids_of xs)"; cases "i \<in> set (ids_of zs)") auto
    qed
    with at_m at_p at_n Cons show ?thesis
      by (simp add: item_sub_def Let_def)
  qed
qed

lemma item_sub_absent: "i \<notin> set (ids_of gs) \<Longrightarrow> item_sub i (layout gs, l) = None"
  by (simp add: item_sub_def layout_None)

text \<open>The first member, the owner of the group, has no item before it.\<close>

lemma item_sub_first:
  assumes "members_ok (m # gs)"
  shows "item_sub (gmId m) (layout (m # gs), l) = None"
  using layout_at [of "[]" m gs] layout_empty_id [OF assms] assms by (simp add: item_sub_def)

end
