(* ===== verification/GroupSpec.thy ===== *)
theory GroupSpec
  imports GroupDb MemberChain
begin

text \<open>
  The group store refines the member lists of theory MemberChain. The items a database holds
  for a group are read off its contents; \<open>handleMember\<close> changes them as \<open>item_add\<close> and
  \<open>item_sub\<close> do, so a stored member list grows at its end and shrinks anywhere but at its
  first member, and \<open>queryMember\<close> walks it in both directions.
\<close>

section \<open>Keys of one group\<close>

lemma memberK_eq [key_simps]: "memberK gid a = memberK gid b \<longleftrightarrow> a = b"
  by (simp add: memberK_def)

lemma memberLogK_eq [key_simps]: "memberLogK gid a = memberLogK gid b \<longleftrightarrow> a = b"
  by (simp add: memberLogK_def)

lemma memberK_neq_last: "memberK gid a \<noteq> memberLastK h"
  using append_suffix_neq [of "''_member''" "''_last''" "gid @ ''_'' @ a" "h @ ''_member''"]
  by (simp add: memberK_def memberLastK_def)

lemma memberK_neq_log: "memberK gid a \<noteq> memberLogK h b"
  using append_suffix_neq [of "''_member''" "''_memberlog''" "gid @ ''_'' @ a" "h @ ''_'' @ b"]
  by (simp add: memberK_def memberLogK_def)

lemma memberK_neq_lastlog: "memberK gid a \<noteq> memberLastlogK h"
  using append_suffix_neq [of "''_member''" "''_last''" "gid @ ''_'' @ a" "h @ ''_memberlog''"]
  by (simp add: memberK_def memberLastlogK_def)

lemma memberLogK_neq_last: "memberLogK gid a \<noteq> memberLastK h"
  using append_suffix_neq [of "''_memberlog''" "''_last''" "gid @ ''_'' @ a" "h @ ''_member''"]
  by (simp add: memberLogK_def memberLastK_def)

lemma memberLogK_neq_lastlog: "memberLogK gid a \<noteq> memberLastlogK h"
  using append_suffix_neq [of "''_memberlog''" "''_last''" "gid @ ''_'' @ a" "h @ ''_memberlog''"]
  by (simp add: memberLogK_def memberLastlogK_def)

lemma memberLastK_neq_lastlog: "memberLastK gid \<noteq> memberLastlogK h"
proof
  assume "memberLastK gid = memberLastlogK h"
  then have "gid @ ''_member'' = h @ ''_memberlog''"
    by (simp add: memberLastK_def memberLastlogK_def flip: append_assoc)
  then show False
    using append_suffix_neq [of "''_member''" "''_memberlog''" gid h] by simp
qed

lemmas member_key_neq [key_simps] =
  memberK_neq_last memberK_neq_last [symmetric] memberK_neq_log memberK_neq_log [symmetric]
  memberK_neq_lastlog memberK_neq_lastlog [symmetric] memberLogK_neq_last memberLogK_neq_last [symmetric]
  memberLogK_neq_lastlog memberLogK_neq_lastlog [symmetric] memberLastK_neq_lastlog
  memberLastK_neq_lastlog [symmetric]

section \<open>The items in a database\<close>

definition dec_item :: "codecs \<Rightarrow> bytes \<Rightarrow> MemberItem option" where
  "dec_item A b = (case aUnmarshal (cMemberItem A) b zero_MemberItem of
     (None, m) \<Rightarrow> Some m | (Some e, m) \<Rightarrow> None)"

definition item_at :: "codecs \<Rightarrow> (bytes \<rightharpoonup> bytes) \<Rightarrow> GID \<Rightarrow> JID \<Rightarrow> MemberItem option" where
  "item_at A c gid i = Option.bind (c (memberK gid i)) (dec_item A)"

definition last_at :: "codecs \<Rightarrow> (bytes \<rightharpoonup> bytes) \<Rightarrow> GID \<Rightarrow> MemberItem option" where
  "last_at A c gid = Option.bind (c (memberLastK gid)) (dec_item A)"

definition items :: "codecs \<Rightarrow> (bytes \<rightharpoonup> bytes) \<Rightarrow> GID \<Rightarrow> (JID \<Rightarrow> MemberItem option) \<times> MemberItem option" where
  "items A c gid = (item_at A c gid, last_at A c gid)"

text \<open>The last key is absent, or holds an item.\<close>

definition last_readable :: "codecs \<Rightarrow> (bytes \<rightharpoonup> bytes) \<Rightarrow> GID \<Rightarrow> bool" where
  "last_readable A c gid \<longleftrightarrow> (last_at A c gid = None \<longrightarrow> c (memberLastK gid) = None)"

text \<open>The database holds this member list for the group.\<close>

definition holds_members :: "codecs \<Rightarrow> (bytes \<rightharpoonup> bytes) \<Rightarrow> GID \<Rightarrow> GroupMember list \<Rightarrow> bool" where
  "holds_members A c gid gs \<longleftrightarrow>
    members_ok gs \<and> last_readable A c gid \<and> items A c gid = (layout gs, last_cell gs)"

lemma item_at_upd [store_simps]:
  "item_at A (c(memberK gid i := x)) gid = (item_at A c gid)(i := Option.bind x (dec_item A))"
  "item_at A (c(memberLastK gid := x)) gid = item_at A c gid"
  "item_at A (c(memberLogK gid l := x)) gid = item_at A c gid"
  "item_at A (c(memberLastlogK gid := x)) gid = item_at A c gid"
  by (auto simp: item_at_def fun_eq_iff key_simps)

lemma last_at_upd [store_simps]:
  "last_at A (c(memberK gid i := x)) gid = last_at A c gid"
  "last_at A (c(memberLastK gid := x)) gid = Option.bind x (dec_item A)"
  "last_at A (c(memberLogK gid l := x)) gid = last_at A c gid"
  "last_at A (c(memberLastlogK gid := x)) gid = last_at A c gid"
  by (auto simp: last_at_def key_simps)

lemma last_readable_upd [store_simps]:
  "last_readable A (c(memberK gid i := x)) gid = last_readable A c gid"
  "last_readable A (c(memberLogK gid l := x)) gid = last_readable A c gid"
  "last_readable A (c(memberLastlogK gid := x)) gid = last_readable A c gid"
  by (simp_all add: last_readable_def store_simps key_simps)

lemma items_upd [store_simps]:
  "items A (c(memberLogK gid l := x)) gid = items A c gid"
  "items A (c(memberLastlogK gid := x)) gid = items A c gid"
  by (simp_all add: items_def store_simps)

lemma item_id_sel: "exp_item (x\<lparr>miNext := n\<rparr>) = (exp_item x)\<lparr>miNext := n\<rparr>"
  "exp_item (x\<lparr>miPrve := n\<rparr>) = (exp_item x)\<lparr>miPrve := n\<rparr>"
  by (simp_all add: exp_item_def)

lemma exp_item_new:
  "exp_item \<lparr>miId = a, miPrve = b, miNext = c, miMember = m\<rparr> =
    \<lparr>miId = a, miPrve = b, miNext = c, miMember = map_option exp_member m\<rparr>"
  by (simp add: exp_item_def)

section \<open>The store over any lawful platform\<close>

locale member_store =
  database L ok view "memberTab g" + amino_laws A
  for L :: "'d leveldb" and ok :: "'d \<Rightarrow> bool" and view :: "'d \<Rightarrow> bytes \<rightharpoonup> bytes"
    and A :: codecs and g :: groupdb
begin

lemma must_item [simp]: "mustToByte (cMemberItem A) x = Some (encoded (cMemberItem A) x)"
  using itemc.marshal_encoded by (simp add: mustToByte_def)

lemma must_log [simp]: "mustToByte (cMemberLog A) x = Some (encoded (cMemberLog A) x)"
  using logc.marshal_encoded by (simp add: mustToByte_def)

lemma dec_encoded [simp]: "dec_item A (encoded (cMemberItem A) x) = Some (exp_item x)"
  by (simp add: dec_item_def)

lemma dec_exported: "dec_item A b = Some x \<Longrightarrow> exp_item x = x"
  by (auto simp: dec_item_def split: prod.splits option.splits dest: itemc.unmarshal_exported)

lemma dec_unmarshal: "dec_item A b = Some x \<Longrightarrow> aUnmarshal (cMemberItem A) b zero_MemberItem = (None, x)"
  by (auto simp: dec_item_def split: prod.splits option.splits)

lemma getMember_Inr:
  assumes "ok d"
  shows "getMember L A g gid i d = Inr m \<longleftrightarrow>
    item_at A (db_contents view (memberTab g) d) gid i = Some m"
proof (cases "db_contents view (memberTab g) d (memberK gid i)")
  case None
  with get_None [OF assms None] show ?thesis
    by (auto simp: getMember_def item_at_def)
next
  case (Some b)
  with get_Some [OF assms Some] show ?thesis
    by (cases "aUnmarshal (cMemberItem A) b zero_MemberItem")
      (auto simp: getMember_def item_at_def dec_item_def split: option.splits)
qed

lemma getMember_Inl:
  "ok d \<Longrightarrow> (\<exists>e. getMember L A g gid i d = Inl e) \<longleftrightarrow> item_at A (db_contents view (memberTab g) d) gid i = None"
  using getMember_Inr [of d gid i] by (cases "getMember L A g gid i d") auto

lemma append_log_result:
  assumes "ok d"
  shows "\<exists>b d'. append_log L A g uuid gm d = Some (b, d') \<and> ok d' \<and>
    items A (db_contents view (memberTab g) d') (gmGid gm) = items A (db_contents view (memberTab g) d) (gmGid gm) \<and>
    last_readable A (db_contents view (memberTab g) d') (gmGid gm) =
      last_readable A (db_contents view (memberTab g) d) (gmGid gm)"
  using assms
  by (cases "db_Get L (memberTab g) (memberLastlogK (gmGid gm)) d")
    (auto simp: append_log_def Let_def store_ops store_simps)

lemma add_member_result:
  assumes ok: "ok d" and lr: "last_readable A (db_contents view (memberTab g) d) (gmGid gm)"
  shows "\<exists>d'. add_member L A g gm d = Some d' \<and> ok d' \<and>
    items A (db_contents view (memberTab g) d') (gmGid gm) =
      item_add gm (items A (db_contents view (memberTab g) d) (gmGid gm)) \<and>
    last_readable A (db_contents view (memberTab g) d') (gmGid gm)"
proof (cases "db_contents view (memberTab g) d (memberLastK (gmGid gm))")
  case None
  moreover from None have "last_at A (db_contents view (memberTab g) d) (gmGid gm) = None"
    by (simp add: last_at_def)
  moreover from get_None [OF ok None] obtain e where
    "db_Get L (memberTab g) (memberLastK (gmGid gm)) d = Inl e" by blast
  ultimately show ?thesis
    using ok by (simp add: add_member_def Let_def store_ops store_simps items_def item_add_def
        exp_item_new zero_MemberItem_def last_readable_def)
next
  case (Some b)
  with lr obtain p where p: "dec_item A b = Some p"
    by (auto simp: last_readable_def last_at_def)
  with Some have "last_at A (db_contents view (memberTab g) d) (gmGid gm) = Some p"
    by (simp add: last_at_def)
  moreover have "db_Get L (memberTab g) (memberLastK (gmGid gm)) d = Inr b"
    by (rule get_Some [OF ok Some])
  ultimately show ?thesis
    using ok dec_exported [OF p] dec_unmarshal [OF p]
    by (simp add: add_member_def Let_def store_ops store_simps items_def item_add_def item_id_sel
        exp_item_new zero_MemberItem_def last_readable_def)
qed

lemma sub_member_result:
  assumes ok: "ok d"
  shows "case item_sub (gmId gm) (items A (db_contents view (memberTab g) d) (gmGid gm)) of
      None \<Rightarrow> \<exists>e. sub_member L A g gm d = Some (Some e, d)
    | Some s' \<Rightarrow> \<exists>d'. sub_member L A g gm d = Some (None, d') \<and> ok d' \<and>
        items A (db_contents view (memberTab g) d') (gmGid gm) = s' \<and>
        (last_readable A (db_contents view (memberTab g) d) (gmGid gm) \<longrightarrow>
         last_readable A (db_contents view (memberTab g) d') (gmGid gm))"
proof -
  let ?c = "db_contents view (memberTab g) d" and ?gid = "gmGid gm"
  let ?h = "item_at A ?c ?gid"
  have exp: "exp_item x = x" if "?h i = Some x" for i x
    using that by (auto simp: item_at_def Option.bind_eq_Some_conv intro: dec_exported)
  show ?thesis
  proof (cases "?h (gmId gm)")
    case None
    then obtain e where "getMember L A g ?gid (gmId gm) d = Inl e"
      using getMember_Inl [OF ok] by blast
    with None show ?thesis by (simp add: item_sub_def items_def sub_member_def)
  next
    case (Some itm)
    note itm = this
    then have g1: "getMember L A g ?gid (gmId gm) d = Inr itm" by (simp add: getMember_Inr ok)
    show ?thesis
    proof (cases "?h (miPrve itm)")
      case None
      then obtain e where "getMember L A g ?gid (miPrve itm) d = Inl e"
        using getMember_Inl [OF ok] by blast
      with None itm g1 show ?thesis by (simp add: item_sub_def items_def sub_member_def)
    next
      case (Some p)
      then have g2: "getMember L A g ?gid (miPrve itm) d = Inr p" by (simp add: getMember_Inr ok)
      show ?thesis
      proof (cases "?h (miNext itm)")
        case None
        then obtain e where "getMember L A g ?gid (miNext itm) d = Inl e"
          using getMember_Inl [OF ok] by blast
        with None itm g1 g2 Some exp [OF Some] ok show ?thesis
          by (simp add: item_sub_def items_def sub_member_def Let_def store_ops store_simps item_id_sel
              last_readable_def)
      next
        case (Some n)
        then have "getMember L A g ?gid (miNext itm) d = Inr n" by (simp add: getMember_Inr ok)
        with Some itm g1 g2 \<open>?h (miPrve itm) = Some p\<close> exp [OF Some] exp [OF \<open>?h (miPrve itm) = Some p\<close>] ok
        show ?thesis
          by (simp add: item_sub_def items_def sub_member_def Let_def store_ops store_simps item_id_sel)
      qed
    qed
  qed
qed

lemma put_pair: "ok d \<Longrightarrow> db_Put L (memberTab g) k v d = (None, snd (db_Put L (memberTab g) k v d))"
  by (rule prod_eqI) (simp_all add: put_err)

subsection \<open>handleMember on the items\<close>

lemma handle_add:
  assumes ok: "ok d" and lr: "last_readable A (db_contents view (memberTab g) d) (gmGid gm)"
    and act: "gmAction gm = ADD"
  shows "\<exists>d'. handleMember L A g uuid gm d = Some (None, d') \<and> ok d' \<and>
    items A (db_contents view (memberTab g) d') (gmGid gm) =
      item_add gm (items A (db_contents view (memberTab g) d) (gmGid gm)) \<and>
    last_readable A (db_contents view (memberTab g) d') (gmGid gm)"
proof -
  from append_log_result [OF ok, of uuid gm] lr obtain b d1 where 1:
    "append_log L A g uuid gm d = Some (b, d1)" "ok d1"
    "items A (db_contents view (memberTab g) d1) (gmGid gm) = items A (db_contents view (memberTab g) d) (gmGid gm)"
    "last_readable A (db_contents view (memberTab g) d1) (gmGid gm)" by auto
  from add_member_result [OF 1(2,4)] obtain d2 where 2:
    "add_member L A g gm d1 = Some d2" "ok d2"
    "items A (db_contents view (memberTab g) d2) (gmGid gm) =
      item_add gm (items A (db_contents view (memberTab g) d1) (gmGid gm))"
    "last_readable A (db_contents view (memberTab g) d2) (gmGid gm)" by auto
  show ?thesis
    using 1 2 act put_pair [OF 2(2), of "memberLastlogK (gmGid gm)" b]
    by (auto simp: handleMember_def store_ops store_simps)
qed

lemma handle_sub:
  assumes ok: "ok d" and act: "gmAction gm = SUB"
    and sub: "item_sub (gmId gm) (items A (db_contents view (memberTab g) d) (gmGid gm)) = Some s'"
    and lr: "last_readable A (db_contents view (memberTab g) d) (gmGid gm)"
  shows "\<exists>d'. handleMember L A g uuid gm d = Some (None, d') \<and> ok d' \<and>
    items A (db_contents view (memberTab g) d') (gmGid gm) = s' \<and>
    last_readable A (db_contents view (memberTab g) d') (gmGid gm)"
proof -
  from append_log_result [OF ok, of uuid gm] lr obtain b d1 where 1:
    "append_log L A g uuid gm d = Some (b, d1)" "ok d1"
    "items A (db_contents view (memberTab g) d1) (gmGid gm) = items A (db_contents view (memberTab g) d) (gmGid gm)"
    "last_readable A (db_contents view (memberTab g) d1) (gmGid gm)" by auto
  from sub_member_result [OF 1(2), of gm] 1 sub obtain d2 where 2:
    "sub_member L A g gm d1 = Some (None, d2)" "ok d2"
    "items A (db_contents view (memberTab g) d2) (gmGid gm) = s'"
    "last_readable A (db_contents view (memberTab g) d2) (gmGid gm)" by auto
  show ?thesis
    using 1 2 act put_pair [OF 2(2), of "memberLastlogK (gmGid gm)" b]
    by (auto simp: handleMember_def ADD_def SUB_def store_ops store_simps)
qed

lemma handle_fails:
  assumes ok: "ok d"
    and bad: "(gmAction gm = SUB \<and>
        item_sub (gmId gm) (items A (db_contents view (memberTab g) d) (gmGid gm)) = None) \<or>
      gmAction gm \<notin> {ADD, SUB}"
  shows "\<exists>e d'. handleMember L A g uuid gm d = Some (Some e, d') \<and> ok d' \<and>
    items A (db_contents view (memberTab g) d') (gmGid gm) = items A (db_contents view (memberTab g) d) (gmGid gm) \<and>
    last_readable A (db_contents view (memberTab g) d') (gmGid gm) =
      last_readable A (db_contents view (memberTab g) d) (gmGid gm)"
proof -
  from append_log_result [OF ok, of uuid gm] obtain b d1 where 1:
    "append_log L A g uuid gm d = Some (b, d1)" "ok d1"
    "items A (db_contents view (memberTab g) d1) (gmGid gm) = items A (db_contents view (memberTab g) d) (gmGid gm)"
    "last_readable A (db_contents view (memberTab g) d1) (gmGid gm) =
      last_readable A (db_contents view (memberTab g) d) (gmGid gm)" by auto
  from bad show ?thesis
  proof
    assume "gmAction gm = SUB \<and> item_sub (gmId gm) (items A (db_contents view (memberTab g) d) (gmGid gm)) = None"
    with 1 sub_member_result [OF 1(2), of gm] show ?thesis
      by (auto simp: handleMember_def ADD_def SUB_def)
  next
    assume "gmAction gm \<notin> {ADD, SUB}"
    with 1 show ?thesis by (simp add: handleMember_def)
  qed
qed

subsection \<open>handleMember on the member list\<close>

lemma add_refines:
  assumes ok: "ok d" and act: "gmAction gm = ADD"
    and holds: "holds_members A (db_contents view (memberTab g) d) (gmGid gm) gs"
    and fresh: "gmId gm \<notin> set (ids_of gs)" "gmId gm \<noteq> []"
  shows "\<exists>d'. handleMember L A g uuid gm d = Some (None, d') \<and> ok d' \<and>
    holds_members A (db_contents view (memberTab g) d') (gmGid gm) (gs @ [exp_member gm])"
proof -
  have "members_ok (gs @ [exp_member gm])"
    using holds fresh by (simp add: holds_members_def members_ok_snoc exp_member_def)
  with handle_add [OF ok _ act, of uuid] holds show ?thesis
    by (auto simp: holds_members_def item_add_layout)
qed

lemma sub_refines:
  assumes ok: "ok d" and act: "gmAction gm = SUB"
    and holds: "holds_members A (db_contents view (memberTab g) d) (gmGid gm) (xs @ p # m # ys)"
    and m: "gmId gm = gmId m" and ys: "length ys \<noteq> 1"
  shows "\<exists>d'. handleMember L A g uuid gm d = Some (None, d') \<and> ok d' \<and>
    holds_members A (db_contents view (memberTab g) d') (gmGid gm) (xs @ p # ys)"
proof -
  let ?gs = "xs @ p # m # ys"
  have mo: "members_ok ?gs" and mo': "members_ok (xs @ p # ys)"
    using holds members_ok_drop [of "xs @ [p]" m ys] by (auto simp: holds_members_def)
  have "(if ys = [] then last_cell (xs @ [p]) else last_cell ?gs) = last_cell (xs @ p # ys)"
  proof (cases ys rule: rev_cases)
    case Nil
    then show ?thesis by simp
  next
    case (snoc zs z)
    then obtain us q where q: "zs = us @ [q]" using ys by (cases zs rule: rev_cases) auto
    show ?thesis
      using layout_at [of "xs @ p # m # us @ [q]" z "[]"] layout_at [of "xs @ p # us @ [q]" z "[]"] mo mo' snoc q
      by (simp add: last_cell_layout)
  qed
  then have "item_sub (gmId gm) (items A (db_contents view (memberTab g) d) (gmGid gm)) =
      Some (layout (xs @ p # ys), last_cell (xs @ p # ys))"
    using holds mo by (simp add: holds_members_def m item_sub_layout)
  from handle_sub [OF ok act this, of uuid] holds mo' show ?thesis
    by (auto simp: holds_members_def)
qed

lemma sub_fails:
  assumes ok: "ok d" and act: "gmAction gm = SUB"
    and holds: "holds_members A (db_contents view (memberTab g) d) (gmGid gm) gs"
    and who: "gmId gm \<notin> set (tl (ids_of gs))"
  shows "\<exists>e d'. handleMember L A g uuid gm d = Some (Some e, d') \<and> ok d' \<and>
    holds_members A (db_contents view (memberTab g) d') (gmGid gm) gs"
proof -
  have "item_sub (gmId gm) (items A (db_contents view (memberTab g) d) (gmGid gm)) = None"
    using holds who item_sub_absent [of "gmId gm" gs] item_sub_first [of "hd gs" "tl gs"]
    by (cases gs; cases "gmId gm = gmId (hd gs)") (auto simp: holds_members_def)
  with handle_fails [OF ok, of gm uuid] act holds show ?thesis
    by (auto simp: holds_members_def)
qed

subsection \<open>Queries\<close>

lemma query_fn_layout:
  assumes "ok d" and "item_at A (db_contents view (memberTab g) d) gid = layout gs"
  shows "layout gs i = Some it \<Longrightarrow> query_fn L A g gid FROM d i = Inr (miMember it, miNext it)"
    and "layout gs i = Some it \<Longrightarrow> query_fn L A g gid TO d i = Inr (miMember it, miPrve it)"
    and "layout gs i = None \<Longrightarrow> \<exists>e. query_fn L A g gid act d i = Inl e"
proof -
  show "layout gs i = Some it \<Longrightarrow> query_fn L A g gid FROM d i = Inr (miMember it, miNext it)"
    and "layout gs i = Some it \<Longrightarrow> query_fn L A g gid TO d i = Inr (miMember it, miPrve it)"
    using getMember_Inr [OF assms(1), of gid i it] assms(2) by (auto simp: query_fn_def)
  show "layout gs i = None \<Longrightarrow> \<exists>e. query_fn L A g gid act d i = Inl e"
    using getMember_Inl [OF assms(1), of gid i] assms(2) by (auto simp: query_fn_def)
qed

lemma query_forward:
  assumes ok: "ok d" and items: "item_at A (db_contents view (memberTab g) d) gid = layout (xs @ ys)"
    and mo: "members_ok (xs @ ys)"
  shows "query_members (query_fn L A g gid FROM d) acc (case ys of [] \<Rightarrow> [] | m # _ \<Rightarrow> gmId m) =
    Some (acc @ map Some ys)"
  using items mo
proof (induction ys arbitrary: xs acc)
  case Nil
  then obtain e where "query_fn L A g gid FROM d [] = Inl e"
    using query_fn_layout(3) [OF ok] layout_empty_id by (metis append_Nil2)
  then show ?case by (subst query_members.simps) simp
next
  case (Cons m ys)
  have "query_fn L A g gid FROM d (gmId m) = Inr (Some m, case ys of [] \<Rightarrow> [] | m # _ \<Rightarrow> gmId m)"
    using query_fn_layout(1) [OF ok Cons.prems(1) layout_at [OF Cons.prems(2)]] by (cases ys) simp_all
  with Cons.IH [of "xs @ [m]" "acc @ [Some m]"] Cons.prems show ?case
    by (subst query_members.simps) simp
qed

lemma query_backward:
  assumes ok: "ok d" and items: "item_at A (db_contents view (memberTab g) d) gid = layout (xs @ ys)"
    and mo: "members_ok (xs @ ys)"
  shows "query_members (query_fn L A g gid TO d) acc (if xs = [] then [] else gmId (last xs)) =
    Some (acc @ map Some (rev xs))"
  using items mo
proof (induction xs arbitrary: ys acc rule: rev_induct)
  case Nil
  then obtain e where "query_fn L A g gid TO d [] = Inl e"
    using query_fn_layout(3) [OF ok] layout_empty_id by (metis append_Nil)
  then show ?case by (subst query_members.simps) simp
next
  case (snoc m xs)
  then have prems: "item_at A (db_contents view (memberTab g) d) gid = layout (xs @ m # ys)"
    "members_ok (xs @ m # ys)" by simp_all
  have "query_fn L A g gid TO d (gmId m) = Inr (Some m, if xs = [] then [] else gmId (last xs))"
    using query_fn_layout(2) [OF ok prems(1) layout_at [OF prems(2)]] by simp
  with snoc.IH [of "m # ys" "acc @ [Some m]"] prems show ?case
    by (subst query_members.simps) simp
qed

end

interpretation ref_members: member_store mem_leveldb mem_ok map_of ref_codecs g for g
  by unfold_locales

lemmas ref_member_store = ref_members.member_store_axioms

end
