(* ===== verification/GroupProps.thy ===== *)
theory GroupProps
  imports GroupSpec GroupService
begin

text \<open>
  The properties of the group store and its handlers: member lists under runs of changes and
  queries, what breaks them, creation and update of groups, and what a request for a member
  change does.
\<close>

section \<open>Runs of member changes\<close>

definition spec_member :: "GroupMember \<Rightarrow> GroupMember list \<Rightarrow> GroupMember list" where
  "spec_member gm gs =
    (if gmAction gm = ADD then gs @ [exp_member gm] else filter (\<lambda>m. gmId m \<noteq> gmId gm) gs)"

text \<open>
  The changes the linked list supports: adding somebody who is not in it, and removing a
  member other than the first and the one before the last.
\<close>

definition valid_change :: "GroupMember \<Rightarrow> GroupMember list \<Rightarrow> bool" where
  "valid_change gm gs \<longleftrightarrow>
    (gmAction gm = ADD \<and> gmId gm \<notin> set (ids_of gs) \<and> gmId gm \<noteq> []) \<or>
    (gmAction gm = SUB \<and> gmId gm \<in> set (tl (ids_of gs)) \<and> gmId gm \<noteq> last (butlast (ids_of gs)))"

fun valid_run :: "GroupMember list \<Rightarrow> GroupMember list \<Rightarrow> bool" where
  "valid_run gs [] = True"
| "valid_run gs (gm # gms) = (valid_change gm gs \<and> valid_run (spec_member gm gs) gms)"

lemma ids_filter: "i \<notin> set (ids_of gs) \<Longrightarrow> filter (\<lambda>m. gmId m \<noteq> i) gs = gs"
  by (auto simp: set_ids_of filter_id_conv)

lemma spec_sub_split:
  assumes "members_ok (xs @ m # ys)" and "gmAction gm = SUB" and "gmId gm = gmId m"
  shows "spec_member gm (xs @ m # ys) = xs @ ys"
proof -
  have "gmId m \<notin> set (ids_of xs)" "gmId m \<notin> set (ids_of ys)"
    using assms(1) by (auto simp: members_ok_def)
  with assms(2,3) show ?thesis by (simp add: spec_member_def ids_filter)
qed

lemma valid_sub_split:
  assumes "valid_change gm gs" and "gmAction gm = SUB"
  shows "\<exists>xs p m ys. gs = xs @ p # m # ys \<and> gmId gm = gmId m \<and> length ys \<noteq> 1"
proof -
  from assms have "gmId gm \<in> set (tl (ids_of gs))" and neq: "gmId gm \<noteq> last (butlast (ids_of gs))"
    by (auto simp: valid_change_def)
  then obtain a as where gs: "gs = a # as" and "gmId gm \<in> set (ids_of as)"
    by (cases gs) auto
  then obtain us m ys where as: "as = us @ m # ys" "gmId m = gmId gm"
    using member_split by blast
  have "length ys \<noteq> 1"
  proof
    assume "length ys = 1"
    then obtain z where "ys = [z]" by (cases ys) auto
    with neq gs as show False by (simp add: butlast_append)
  qed
  moreover obtain xs p where "a # us = xs @ [p]" by (cases "a # us" rule: rev_cases) auto
  ultimately show ?thesis
    using gs as by (metis append_Cons append_assoc append_Nil)
qed

lemma change_refines:
  assumes env: "member_store L ok view A" and ok: "ok d"
    and holds: "holds_members A (db_contents view (memberTab g) d) gid gs"
    and gid: "gmGid gm = gid" and valid: "valid_change gm gs"
  shows "\<exists>d'. handleMember L A g uuid gm d = Some (None, d') \<and> ok d' \<and>
    holds_members A (db_contents view (memberTab g) d') gid (spec_member gm gs)"
proof (cases "gmAction gm = ADD")
  case True
  with member_store.add_refines [OF env ok True, of g gs uuid] holds gid valid show ?thesis
    by (auto simp: valid_change_def spec_member_def)
next
  case False
  with valid have act: "gmAction gm = SUB" by (auto simp: valid_change_def)
  from valid_sub_split [OF valid act] obtain xs p m ys where
    gs: "gs = xs @ p # m # ys" "gmId gm = gmId m" "length ys \<noteq> 1" by blast
  have "spec_member gm gs = xs @ p # ys"
    using spec_sub_split [of "xs @ [p]" m ys gm] holds gs act by (simp add: holds_members_def)
  with member_store.sub_refines [OF env ok act, of g xs p m ys uuid] holds gs gid show ?thesis by auto
qed

lemma run_refines_members:
  assumes env: "member_store L ok view A"
  shows "ok d \<Longrightarrow> holds_members A (db_contents view (memberTab g) d) gid gs \<Longrightarrow>
    \<forall>gm\<in>set gms. gmGid gm = gid \<Longrightarrow> valid_run gs gms \<Longrightarrow>
    \<exists>d'. handle_members L A g us (map Some gms) d = Some d' \<and> ok d' \<and>
      holds_members A (db_contents view (memberTab g) d') gid (fold spec_member gms gs)"
proof (induction gms arbitrary: d gs us)
  case Nil
  then show ?case by auto
next
  case (Cons gm gms)
  from Cons.prems change_refines [OF env Cons.prems(1,2), of gm "us 0"] obtain d1 where
    "handleMember L A g (us 0) gm d = Some (None, d1)" "ok d1"
    "holds_members A (db_contents view (memberTab g) d1) gid (spec_member gm gs)" by auto
  with Cons.IH [of d1 "spec_member gm gs" "\<lambda>n. us (Suc n)"] Cons.prems show ?case by auto
qed

lemma query_first:
  assumes env: "member_store L ok view A" and ok: "ok d"
    and holds: "holds_members A (db_contents view (memberTab g) d) gid gs" and ne: "gs \<noteq> []"
  shows "queryMember L A g gid FROM (gmId (hd gs)) d = Some (map Some gs)"
    and "queryMember L A g gid TO (gmId (last gs)) d = Some (map Some (rev gs))"
  using member_store.query_forward [OF env ok, of g gid "[]" gs "[]"]
    member_store.query_backward [OF env ok, of g gid gs "[]" "[]"] holds ne
  by (auto simp: queryMember_def holds_members_def items_def neq_Nil_conv split: list.splits)

text \<open>
  Property C3: the linked list in the database refines the member list. Any run of changes
  that the list supports succeeds, from any database that holds the group's member list;
  afterwards the database holds the list after the same changes, the query \<open>FROM\<close> the first
  member returns all of it in order, and the query \<open>TO\<close> the last returns it reversed. Both
  queries end.
\<close>

theorem member_list_refinement:
  assumes env: "member_store L ok view A" and ok: "ok d"
    and holds: "holds_members A (db_contents view (memberTab g) d) gid gs"
    and gids: "\<forall>gm\<in>set gms. gmGid gm = gid" and valid: "valid_run gs gms"
    and ne: "fold spec_member gms gs \<noteq> []"
  shows "\<exists>d'. handle_members L A g us (map Some gms) d = Some d' \<and> ok d' \<and>
    holds_members A (db_contents view (memberTab g) d') gid (fold spec_member gms gs) \<and>
    queryMember L A g gid FROM (gmId (hd (fold spec_member gms gs))) d' =
      Some (map Some (fold spec_member gms gs)) \<and>
    queryMember L A g gid TO (gmId (last (fold spec_member gms gs))) d' =
      Some (map Some (rev (fold spec_member gms gs)))"
  using run_refines_members [OF env ok holds gids valid, of us] query_first [OF env _ _ ne] by blast

definition mem_group_tab :: groupdb where
  "mem_group_tab = newGroupDB (LDBDatabase ''mb'')"

definition change :: "string \<Rightarrow> MemberAction \<Rightarrow> GroupMember" where
  "change i a = \<lparr>gmId = i, gmName = [], gmGid = ''g'', gmAction = a\<rparr>"

lemma empty_group_holds:
  "holds_members ref_codecs (db_contents map_of (memberTab g) []) gid []"
  by (simp add: holds_members_def members_ok_def last_readable_def items_def last_cell_def item_at_def
      last_at_def db_contents_def fun_eq_iff)

lemma change_sel [simp]: "gmId (change i a) = i" "gmAction (change i a) = a" "gmGid (change i a) = ''g''"
  by (simp_all add: change_def)

lemma exp_change [simp]: "exp_member (change i a) = change i []"
  by (simp add: exp_member_def change_def)

theorem member_list_refinement_witness:
  "\<exists>d'. handle_members mem_leveldb ref_codecs mem_group_tab (\<lambda>n. replicate n CHR ''u'')
      (map Some [change ''a'' ADD, change ''b'' ADD, change ''c'' ADD, change ''d'' ADD, change ''b'' SUB]) [] = Some d' \<and>
    queryMember mem_leveldb ref_codecs mem_group_tab ''g'' TO ''d'' d' =
      Some [Some (change ''d'' []), Some (change ''c'' []), Some (change ''a'' [])]"
proof -
  let ?gms = "[change ''a'' ADD, change ''b'' ADD, change ''c'' ADD, change ''d'' ADD, change ''b'' SUB]"
  have fold: "fold spec_member ?gms [] = [change ''a'' [], change ''c'' [], change ''d'' []]"
    by (simp add: spec_member_def)
  have gids: "\<forall>gm\<in>set ?gms. gmGid gm = ''g''" by simp
  have valid: "valid_run [] ?gms" by (simp add: valid_change_def spec_member_def)
  have ne: "fold spec_member ?gms [] \<noteq> []" unfolding fold by simp
  show ?thesis
    using member_list_refinement [OF ref_member_store mem_ok_empty empty_group_holds gids valid ne,
        of mem_group_tab "\<lambda>n. replicate n CHR ''u''"]
    unfolding fold by auto
qed

text \<open>
  The first member, the owner, and anybody who is not a member cannot be
  removed. The call returns an error and the member list is unchanged.
\<close>

theorem remove_owner_fails:
  assumes env: "member_store L ok view A" and ok: "ok d" and act: "gmAction gm = SUB"
    and holds: "holds_members A (db_contents view (memberTab g) d) (gmGid gm) gs"
    and who: "gmId gm \<notin> set (tl (ids_of gs))"
  shows "\<exists>e d'. handleMember L A g uuid gm d = Some (Some e, d') \<and>
    holds_members A (db_contents view (memberTab g) d') (gmGid gm) gs"
  using member_store.sub_fails [OF env ok act holds who] by blast

theorem remove_owner_fails_witness:
  "\<exists>e d'. handleMember mem_leveldb ref_codecs mem_group_tab ''u'' (change ''a'' SUB) [] = Some (Some e, d') \<and>
    holds_members ref_codecs (db_contents map_of (memberTab mem_group_tab) d') ''g'' []"
  using remove_owner_fails [OF ref_member_store mem_ok_empty, of "change ''a'' SUB" mem_group_tab "[]" "''u''"]
    empty_group_holds [of mem_group_tab "''g''"] by simp

section \<open>What breaks the list\<close>

text \<open>A walk that never leaves a set on which the local function succeeds does not end.\<close>

lemma query_members_None:
  assumes step: "\<And>j. j \<in> S \<Longrightarrow> \<exists>m n. fn j = Inr (m, n) \<and> n \<in> S" and j: "j \<in> S"
  shows "query_members fn acc j = None"
proof (rule ccontr)
  assume "query_members fn acc j \<noteq> None"
  then obtain r where r: "query_members fn acc j = Some r" by blast
  have "fn = fn \<longrightarrow> j \<notin> S"
  proof (rule query_members.raw_induct [where P = "\<lambda>f gml j y. f = fn \<longrightarrow> j \<notin> S", OF _ r])
    fix qm f gml mid y
    assume IH: "\<And>f gml mid y. qm f gml mid = Some y \<Longrightarrow> f = fn \<longrightarrow> mid \<notin> S"
      and eq: "(case f mid of Inl err \<Rightarrow> Some gml | Inr (m, nid) \<Rightarrow> qm f (gml @ [m]) nid) = Some y"
    show "f = fn \<longrightarrow> mid \<notin> S"
    proof (intro impI notI)
      assume f: "f = fn" and "mid \<in> S"
      with step obtain m n where n: "fn mid = Inr (m, n)" "n \<in> S" by blast
      with eq f have "qm fn (gml @ [m]) n = Some y" by simp
      with IH n show False by blast
    qed
  qed
  with j show False by simp
qed

lemma readd_back_links:
  assumes mo: "members_ok (xs @ m # ys)" and gm: "gmId gm = gmId m" and j: "j \<in> set (ids_of (m # ys))"
  shows "\<exists>it. fst (item_add gm (layout (xs @ m # ys), last_cell (xs @ m # ys))) j = Some it \<and>
    miPrve it \<in> set (ids_of (m # ys))"
proof -
  let ?gs = "xs @ m # ys" and ?t = "last (m # ys)"
  have t: "last_cell ?gs = Some (cell (ids_of ?gs) ?t)" "gmId ?t \<in> set (ids_of (m # ys))"
    by (auto simp: last_cell_def set_ids_of)
  show ?thesis
  proof (cases "j = gmId m")
    case True
    with t gm show ?thesis by (simp add: item_add_def cell_def Let_def split del: if_split)
  next
    case False
    with j obtain us q vs where q: "ys = us @ q # vs" "gmId q = j"
      using member_split [of j ys] by auto
    have at: "layout ?gs j = Some (cell (ids_of ?gs) q)"
      using layout_Some [OF mo, of q] q by simp
    have "cell (ids_of ?gs) q = \<lparr>miId = j, miPrve = gmId (last (m # us)),
        miNext = (if vs = [] then [] else gmId (hd vs)), miMember = Some q\<rparr>"
      using layout_at [of "xs @ m # us" q vs] mo q at by simp
    then have "miPrve (cell (ids_of ?gs) q) \<in> set (ids_of (m # ys))"
      using q by (auto simp: set_ids_of)
    moreover have "?t = q" if "gmId ?t = j"
      using layout_Some [OF mo, of ?t] at that by (auto simp: cell_def)
    ultimately show ?thesis
      using t at False gm by (auto simp: item_add_def Let_def cell_def)
  qed
qed

lemma query_fn_TO:
  "member_store L ok view A \<Longrightarrow> ok d \<Longrightarrow> item_at A (db_contents view (memberTab g) d) gid i = Some it \<Longrightarrow>
    query_fn L A g gid TO d i = Inr (miMember it, miPrve it)"
  using member_store.getMember_Inr [of L ok view A d g gid i it] by (simp add: query_fn_def)

lemma query_fn_None:
  "member_store L ok view A \<Longrightarrow> ok d \<Longrightarrow> item_at A (db_contents view (memberTab g) d) gid i = None \<Longrightarrow>
    \<exists>e. query_fn L A g gid act d i = Inl e"
  using member_store.getMember_Inl [of L ok view A d g gid i] by (auto simp: query_fn_def)

text \<open>
  Property C25: adding a member a second time makes the backward query hang. The call succeeds,
  and from then on the query \<open>TO\<close> that member follows the back links in a circle for ever.
\<close>

theorem readd_query_hangs:
  assumes env: "member_store L ok view A" and ok: "ok d" and act: "gmAction gm = ADD"
    and holds: "holds_members A (db_contents view (memberTab g) d) (gmGid gm) gs"
    and again: "gmId gm \<in> set (ids_of gs)"
  shows "\<exists>d'. handleMember L A g uuid gm d = Some (None, d') \<and>
    queryMember L A g (gmGid gm) TO (gmId gm) d' = None"
proof -
  from again obtain xs m ys where gs: "gs = xs @ m # ys" "gmId m = gmId gm"
    using member_split by blast
  have mo: "members_ok (xs @ m # ys)" and lr: "last_readable A (db_contents view (memberTab g) d) (gmGid gm)"
    using holds gs by (auto simp: holds_members_def)
  from member_store.handle_add [OF env ok lr act, of uuid] holds gs obtain d' where
    d': "handleMember L A g uuid gm d = Some (None, d')" "ok d'"
    "item_at A (db_contents view (memberTab g) d') (gmGid gm) =
      fst (item_add gm (layout (xs @ m # ys), last_cell (xs @ m # ys)))"
    by (auto simp: holds_members_def items_def prod_eq_iff)
  have "query_members (query_fn L A g (gmGid gm) TO d') [] (gmId gm) = None"
  proof (rule query_members_None [where S = "set (ids_of (m # ys))"])
    show "\<exists>mb n. query_fn L A g (gmGid gm) TO d' j = Inr (mb, n) \<and> n \<in> set (ids_of (m # ys))"
      if "j \<in> set (ids_of (m # ys))" for j
      using readd_back_links [OF mo gs(2)[symmetric] that] query_fn_TO [OF env d'(2), of g "gmGid gm" j] d'(3)
      by fastforce
  qed (simp add: gs)
  with d'(1) show ?thesis by (auto simp: queryMember_def)
qed

lemma one_member_holds:
  "\<exists>d. mem_ok d \<and> holds_members ref_codecs (db_contents map_of (memberTab mem_group_tab) d) ''g'' [change ''a'' []]"
  using member_store.add_refines [OF ref_member_store mem_ok_empty, of "change ''a'' ADD" mem_group_tab "[]" "''u''"]
    empty_group_holds [of mem_group_tab "''g''"] by auto

theorem readd_query_hangs_witness:
  "\<exists>d d'. handleMember mem_leveldb ref_codecs mem_group_tab ''v'' (change ''a'' ADD) d = Some (None, d') \<and>
    queryMember mem_leveldb ref_codecs mem_group_tab ''g'' TO ''a'' d' = None"
proof -
  from one_member_holds obtain d where d: "mem_ok d"
    "holds_members ref_codecs (db_contents map_of (memberTab mem_group_tab) d) ''g'' [change ''a'' []]" by blast
  show ?thesis
    using readd_query_hangs [OF ref_member_store d(1), of "change ''a'' ADD" mem_group_tab "[change ''a'' []]" "''v''"] d(2)
    by auto
qed

text \<open>
  Property C26: removing the member before the last one damages the list. The last key keeps
  its old copy of the last item, whose back link names the removed member; the next member
  that joins writes that copy back. Then the query \<open>TO\<close> the newcomer returns only the last
  two members, however many there are, and the one before the newcomer can no longer be
  removed.
\<close>

theorem remove_before_last_damages:
  assumes env: "member_store L ok view A" and ok: "ok d"
    and holds: "holds_members A (db_contents view (memberTab g) d) gid (xs @ [p, m, t])"
    and sub: "gmGid s = gid" "gmAction s = SUB" "gmId s = gmId m"
    and add: "gmGid n = gid" "gmAction n = ADD" "gmId n \<notin> set (ids_of (xs @ [p, m, t]))" "gmId n \<noteq> []"
    and rem: "gmGid r = gid" "gmAction r = SUB" "gmId r = gmId t"
  shows "\<exists>d1 d2. handleMember L A g u1 s d = Some (None, d1) \<and>
    handleMember L A g u2 n d1 = Some (None, d2) \<and>
    queryMember L A g gid TO (gmId n) d2 = Some [Some (exp_member n), Some t] \<and>
    (\<exists>e d3. handleMember L A g u3 r d2 = Some (Some e, d3))"
proof -
  let ?gs = "xs @ [p, m, t]" and ?c = "db_contents view (memberTab g)"
  have mo: "members_ok ?gs" and lr: "last_readable A (?c d) gid"
    and it: "items A (?c d) gid = (layout ?gs, last_cell ?gs)"
    using holds by (auto simp: holds_members_def)
  have last: "last_cell ?gs = Some \<lparr>miId = gmId t, miPrve = gmId m, miNext = [], miMember = Some t\<rparr>"
    using layout_at [of "xs @ [p, m]" t "[]"] mo by (simp add: last_cell_layout)
  have "item_sub (gmId s) (items A (?c d) gid) = Some (layout (xs @ [p, t]), last_cell ?gs)"
    using item_sub_layout [of xs p m "[t]"] mo it sub by simp
  with member_store.handle_sub [OF env ok sub(2), of g _ u1] lr sub(1) obtain d1 where
    d1: "handleMember L A g u1 s d = Some (None, d1)" "ok d1"
    "items A (?c d1) gid = (layout (xs @ [p, t]), last_cell ?gs)" "last_readable A (?c d1) gid" by auto
  from member_store.handle_add [OF env d1(2), of g n u2] d1 add(1,2) obtain d2 where
    d2: "handleMember L A g u2 n d1 = Some (None, d2)" "ok d2"
    "items A (?c d2) gid = item_add n (layout (xs @ [p, t]), last_cell ?gs)" by auto
  have h2: "item_at A (?c d2) gid (gmId n) =
      Some \<lparr>miId = gmId n, miPrve = gmId t, miNext = [], miMember = Some (exp_member n)\<rparr>"
    "item_at A (?c d2) gid (gmId t) =
      Some \<lparr>miId = gmId t, miPrve = gmId m, miNext = gmId n, miMember = Some t\<rparr>"
    "item_at A (?c d2) gid (gmId m) = None"
    using d2(3) add(3) last layout_None [of "gmId m" "xs @ [p, t]"] mo
    by (auto simp: items_def item_add_def Let_def members_ok_def)
  have "query_members (query_fn L A g gid TO d2) [] (gmId n) = Some [Some (exp_member n), Some t]"
    using query_fn_TO [OF env d2(2) h2(1)] query_fn_TO [OF env d2(2) h2(2)] query_fn_None [OF env d2(2) h2(3), of TO]
    by (auto simp: query_members.simps)
  moreover have "item_sub (gmId r) (items A (?c d2) gid) = None"
    using h2 rem(3) by (simp add: item_sub_def items_def)
  then have "\<exists>e d3. handleMember L A g u3 r d2 = Some (Some e, d3)"
    using member_store.handle_fails [OF env d2(2), of r g u3] rem(1,2) by auto
  ultimately show ?thesis
    using d1(1) d2(1) by (auto simp: queryMember_def)
qed

lemma three_members_hold:
  "\<exists>d. mem_ok d \<and> holds_members ref_codecs (db_contents map_of (memberTab mem_group_tab) d) ''g''
    [change ''a'' [], change ''b'' [], change ''c'' []]"
  using run_refines_members [OF ref_member_store mem_ok_empty empty_group_holds,
      of "[change ''a'' ADD, change ''b'' ADD, change ''c'' ADD]" "''g''" mem_group_tab "\<lambda>n. ''u''"]
  by (auto simp: valid_change_def spec_member_def)

theorem remove_before_last_damages_witness:
  "\<exists>d d1 d2. handleMember mem_leveldb ref_codecs mem_group_tab ''1'' (change ''b'' SUB) d = Some (None, d1) \<and>
    handleMember mem_leveldb ref_codecs mem_group_tab ''2'' (change ''n'' ADD) d1 = Some (None, d2) \<and>
    queryMember mem_leveldb ref_codecs mem_group_tab ''g'' TO ''n'' d2 =
      Some [Some (change ''n'' []), Some (change ''c'' [])]"
proof -
  from three_members_hold obtain d where d: "mem_ok d"
    "holds_members ref_codecs (db_contents map_of (memberTab mem_group_tab) d) ''g''
      ([] @ [change ''a'' [], change ''b'' [], change ''c'' []])" by auto
  show ?thesis
    using remove_before_last_damages [OF ref_member_store d, of "change ''b'' SUB" "change ''n'' ADD" "change ''c'' SUB"
        "''1''" "''2''" "''3''"]
    by auto
qed

end
