(* ===== verification/MailboxSpec.thy ===== *)
theory MailboxSpec
  imports Mailbox
begin

text \<open>
  What the mailbox promises: an abstract mailbox maps a peer to its messages by id; putting,
  clearing and listing on the database implement it for every peer id of full length. The
  client lemmas are proved in the locale \<open>mailbox_store\<close>, over any lawful LevelDB, codec and
  sort, and the properties restate them at the top level.
\<close>

section \<open>The abstract mailbox\<close>

type_synonym abs_mailbox = "string \<Rightarrow> string \<Rightarrow> Message option"

definition spec_put :: "Message \<Rightarrow> abs_mailbox \<Rightarrow> abs_mailbox" where
  "spec_put m a =
    (let p = Peerid (eTo (mEnvelope m)) in a(p := (a p)(eId (mEnvelope m) := Some m)))"

definition spec_clean :: "CleanMsg \<Rightarrow> abs_mailbox \<Rightarrow> abs_mailbox" where
  "spec_clean c a =
    (let p = Peerid (cJid c) in a(p := (\<lambda>i. if i \<in> set (cIds c) then None else a p i)))"

definition spec_ids :: "abs_mailbox \<Rightarrow> string \<Rightarrow> string set" where
  "spec_ids a p = {i. i \<noteq> [] \<and> a p i \<noteq> None}"

definition spec_list :: "abs_mailbox \<Rightarrow> string \<Rightarrow> Message multiset" where
  "spec_list a p = image_mset (\<lambda>i. the (a p i)) (mset_set (spec_ids a p))"

lemma spec_list_cong:
  assumes "\<And>i. i \<noteq> [] \<Longrightarrow> a p i = b p i"
  shows "spec_list a p = spec_list b p"
proof -
  have ids: "spec_ids a p = spec_ids b p"
    using assms by (auto simp: spec_ids_def)
  have "image_mset (\<lambda>i. the (a p i)) (mset_set (spec_ids b p)) =
      image_mset (\<lambda>i. the (b p i)) (mset_set (spec_ids b p))"
    by (cases "finite (spec_ids b p)") (auto simp: assms spec_ids_def intro!: image_mset_cong)
  then show ?thesis by (simp add: spec_list_def ids)
qed

text \<open>The abstraction: the decodable entries under a peer's prefix.\<close>

definition decode_msg :: "codecs \<Rightarrow> bytes \<Rightarrow> Message option" where
  "decode_msg A v = (case Message_FromBytes A v zero_Message of
     (m, None) \<Rightarrow> Some m | (m, Some e) \<Rightarrow> None)"

definition mbox_abs :: "codecs \<Rightarrow> (bytes \<rightharpoonup> bytes) \<Rightarrow> abs_mailbox" where
  "mbox_abs A c p i = Option.bind (c (p @ i)) (decode_msg A)"

definition mbox_rel :: "codecs \<Rightarrow> (bytes \<rightharpoonup> bytes) \<Rightarrow> abs_mailbox \<Rightarrow> bool" where
  "mbox_rel A c a \<longleftrightarrow> (\<forall>p. length p = 53 \<longrightarrow> a p = mbox_abs A c p)"

section \<open>Runs of mailbox operations\<close>

datatype mbox_op = Put Message | Clean CleanMsg

fun mbox_exec :: "'d leveldb \<Rightarrow> codecs \<Rightarrow> Database \<Rightarrow> mbox_op \<Rightarrow> 'd \<Rightarrow> 'd" where
  "mbox_exec L A db (Put m) d = snd (putMsg L A db m d)"
| "mbox_exec L A db (Clean c) d = doCleanMsg L db c d"

fun spec_exec :: "mbox_op \<Rightarrow> abs_mailbox \<Rightarrow> abs_mailbox" where
  "spec_exec (Put m) a = spec_put m a"
| "spec_exec (Clean c) a = spec_clean c a"

fun full_op :: "mbox_op \<Rightarrow> bool" where
  "full_op (Put m) \<longleftrightarrow> 53 \<le> length (eTo (mEnvelope m))"
| "full_op (Clean c) \<longleftrightarrow> 53 \<le> length (cJid c)"

section \<open>The query loop\<close>

definition query_hit :: "codecs \<Rightarrow> string \<Rightarrow> bytes \<times> bytes \<Rightarrow> Message option" where
  "query_hit A pid kv = (if Kfilter pid (fst kv) then decode_msg A (snd kv) else None)"

lemma query_loop_filter:
  "query_loop A pid it sl = sl @ List.map_filter (query_hit A pid) it"
proof (induction A pid it sl rule: query_loop.induct)
  case (1 A pid sl)
  show ?case by (simp add: List.map_filter_def)
next
  case (2 A pid k v it sl)
  then show ?case
    by (cases "Message_FromBytes A v zero_Message")
      (auto simp: List.map_filter_def query_hit_def decode_msg_def split: option.splits)
qed

lemma mset_map_filter:
  "mset (List.map_filter f xs) = image_mset (\<lambda>x. the (f x)) (filter_mset (\<lambda>x. f x \<noteq> None) (mset xs))"
  by (simp add: List.map_filter_def comp_def)

lemma delete_ids_fold: "delete_ids L tab ids d = fold (\<lambda>k d. snd (db_Delete L tab k d)) ids d"
  by (induction ids arbitrary: d) auto

section \<open>The mailbox over any lawful platform\<close>

locale mailbox_store =
  leveldb_laws L ok view + amino_laws A + sort_contract ct_less srt
  for L :: "'d leveldb" and ok :: "'d \<Rightarrow> bool" and view :: "'d \<Rightarrow> bytes \<rightharpoonup> bytes"
    and A :: codecs and srt :: "Message list \<Rightarrow> Message list" +
  fixes fn :: string
begin

lemma decode_bytes [simp]: "decode_msg A (Message_Bytes A m) = Some m"
  by (simp add: decode_msg_def)

lemma put_result:
  assumes "ok d"
  shows "fst (putMsg L A (LDBDatabase fn) m d) = None"
    and "ok (snd (putMsg L A (LDBDatabase fn) m d))"
    and "view (snd (putMsg L A (LDBDatabase fn) m d)) =
      (view d)(Peerid (eTo (mEnvelope m)) @ eId (mEnvelope m) \<mapsto> Message_Bytes A m)"
  using assms by (auto simp: putMsg_def Let_def NewTable_def lv_put lv_put_ok lv_put_view)

lemma clean_result:
  assumes "ok d"
  shows "ok (doCleanMsg L (LDBDatabase fn) c d)"
    and "view (doCleanMsg L (LDBDatabase fn) c d) =
      (\<lambda>k. if \<exists>i\<in>set (cIds c). k = Peerid (cJid c) @ i then None else view d k)"
proof -
  let ?ks = "map (\<lambda>i. Peerid (cJid c) @ i) (cIds c)"
  have eq: "doCleanMsg L (LDBDatabase fn) c d = fold (\<lambda>k d. snd (db_Delete L (LDBDatabase fn) k d)) ?ks d"
    by (simp add: doCleanMsg_def Let_def delete_ids_fold NewTable_def fold_map comp_def)
  have "ok (doCleanMsg L (LDBDatabase fn) c d) \<and>
    db_contents view (LDBDatabase fn) (doCleanMsg L (LDBDatabase fn) c d) =
      (\<lambda>k. if k \<in> set ?ks then None else db_contents view (LDBDatabase fn) d k)"
    unfolding eq by (rule kv_store.del_fold [OF database_store assms])
  then show "ok (doCleanMsg L (LDBDatabase fn) c d)"
    and "view (doCleanMsg L (LDBDatabase fn) c d) =
      (\<lambda>k. if \<exists>i\<in>set (cIds c). k = Peerid (cJid c) @ i then None else view d k)"
    by (auto simp: db_contents_def fun_eq_iff image_iff)
qed

lemma abs_put:
  assumes "length p = 53" and "53 \<le> length (eTo (mEnvelope m))"
  shows "mbox_abs A ((view d)(Peerid (eTo (mEnvelope m)) @ eId (mEnvelope m) \<mapsto> Message_Bytes A m)) p =
    spec_put m (mbox_abs A (view d)) p"
  using assms by (auto simp: mbox_abs_def spec_put_def Let_def fun_eq_iff length_Peerid append_eq_same_length)

lemma abs_clean:
  assumes "length p = 53" and "53 \<le> length (cJid c)"
  shows "mbox_abs A (\<lambda>k. if \<exists>i\<in>set (cIds c). k = Peerid (cJid c) @ i then None else view d k) p =
    spec_clean c (mbox_abs A (view d)) p"
  using assms by (auto simp: mbox_abs_def spec_clean_def Let_def fun_eq_iff length_Peerid append_eq_same_length)

lemma exec_ok: "ok d \<Longrightarrow> ok (mbox_exec L A (LDBDatabase fn) x d)"
  by (cases x) (auto simp: put_result clean_result)

lemma exec_refines:
  assumes "ok d" and "full_op x" and "mbox_rel A (view d) a"
  shows "mbox_rel A (view (mbox_exec L A (LDBDatabase fn) x d)) (spec_exec x a)"
proof (cases x)
  case (Put m)
  with assms show ?thesis
    by (auto simp: mbox_rel_def put_result abs_put spec_put_def Let_def)
next
  case (Clean c)
  with assms show ?thesis
    by (auto simp: mbox_rel_def clean_result abs_clean spec_clean_def Let_def)
qed

lemma run_ok: "ok d \<Longrightarrow> ok (fold (mbox_exec L A (LDBDatabase fn)) xs d)"
  by (induction xs arbitrary: d) (auto simp: exec_ok)

lemma run_refines:
  "ok d \<Longrightarrow> \<forall>x\<in>set xs. full_op x \<Longrightarrow> mbox_rel A (view d) a \<Longrightarrow>
    mbox_rel A (view (fold (mbox_exec L A (LDBDatabase fn)) xs d)) (fold spec_exec xs a)"
  by (induction xs arbitrary: d a) (auto simp: exec_ok exec_refines)

subsection \<open>Listing\<close>

lemma query_messages:
  "Messages (doQueryMsg L A srt (LDBDatabase fn) jid d) =
    srt (List.map_filter (query_hit A (Peerid jid)) (lvIter L d))"
  by (simp add: doQueryMsg_def Let_def NewTable_def query_loop_filter)

lemma view_iff: "ok d \<Longrightarrow> (k, v) \<in> set (lvIter L d) \<longleftrightarrow> view d k = Some v"
  using lv_iter[of d] lv_iter_distinct[of d] by (metis map_of_eq_Some_iff)

lemma query_hits:
  assumes "ok d"
  shows "{kv \<in> set (lvIter L d). query_hit A p kv \<noteq> None} =
    (\<lambda>i. (p @ i, the (view d (p @ i)))) ` spec_ids (mbox_abs A (view d)) p"
  using assms
  by (force simp: query_hit_def Kfilter_iff spec_ids_def mbox_abs_def view_iff image_iff
      Option.bind_eq_Some_conv split: if_splits)

lemma finite_ids:
  assumes "ok d"
  shows "finite (spec_ids (mbox_abs A (view d)) p)"
proof -
  have "finite ((\<lambda>i. (p @ i, the (view d (p @ i)))) ` spec_ids (mbox_abs A (view d)) p)"
    unfolding query_hits [OF assms, symmetric] by simp
  then show ?thesis by (rule finite_imageD) (auto simp: inj_on_def)
qed

lemma query_mset:
  assumes "ok d"
  shows "mset (Messages (doQueryMsg L A srt (LDBDatabase fn) jid d)) =
    spec_list (mbox_abs A (view d)) (Peerid jid)"
proof -
  let ?p = "Peerid jid" and ?xs = "lvIter L d"
  let ?g = "\<lambda>i. (?p @ i, the (view d (?p @ i)))"
  let ?ids = "spec_ids (mbox_abs A (view d)) ?p"
  have dist: "distinct ?xs"
    using lv_iter_distinct [OF assms] by (simp add: distinct_map)
  have hit: "the (query_hit A ?p (?g i)) = the (mbox_abs A (view d) ?p i)" if "i \<in> ?ids" for i
    using that by (auto simp: query_hit_def Kfilter_iff spec_ids_def mbox_abs_def Option.bind_eq_Some_conv)
  have "mset (Messages (doQueryMsg L A srt (LDBDatabase fn) jid d)) =
      image_mset (\<lambda>kv. the (query_hit A ?p kv)) (filter_mset (\<lambda>kv. query_hit A ?p kv \<noteq> None) (mset ?xs))"
    by (simp add: query_messages sort_perm mset_map_filter)
  also have "filter_mset (\<lambda>kv. query_hit A ?p kv \<noteq> None) (mset ?xs) = mset_set (?g ` ?ids)"
    using dist by (simp add: mset_set_set [symmetric] query_hits [OF assms, symmetric])
  also have "mset_set (?g ` ?ids) = image_mset ?g (mset_set ?ids)"
    by (rule image_mset_mset_set [symmetric]) (auto simp: inj_on_def)
  also have "image_mset (\<lambda>kv. the (query_hit A ?p kv)) (image_mset ?g (mset_set ?ids)) =
      image_mset (\<lambda>i. the (mbox_abs A (view d) ?p i)) (mset_set ?ids)"
    using finite_ids [OF assms] hit by (auto simp: image_mset.compositionality comp_def intro!: image_mset_cong)
  finally show ?thesis by (simp add: spec_list_def)
qed

lemma query_sorted:
  "sorted_wrt (\<lambda>a b. eCt (mEnvelope a) \<le> eCt (mEnvelope b))
    (Messages (doQueryMsg L A srt (LDBDatabase fn) jid d))"
  using sort_ordered by (simp add: query_messages ct_less_def not_less)

lemma query_set:
  assumes "ok d"
  shows "m \<in> set (Messages (doQueryMsg L A srt (LDBDatabase fn) jid d)) \<longleftrightarrow>
    (\<exists>i. i \<noteq> [] \<and> mbox_abs A (view d) (Peerid jid) i = Some m)"
proof -
  have "set (Messages (doQueryMsg L A srt (LDBDatabase fn) jid d)) =
      set_mset (spec_list (mbox_abs A (view d)) (Peerid jid))"
    using query_mset [OF assms] by (metis set_mset_mset)
  then show ?thesis
    using finite_ids [OF assms] by (auto simp: spec_list_def spec_ids_def image_iff)
qed

end

interpretation ref_mbox: mailbox_store mem_leveldb mem_ok map_of ref_codecs
  "sort_key (\<lambda>m. eCt (mEnvelope m))" fn for fn
  by unfold_locales

section \<open>Properties of the mailbox\<close>

lemmas ref_mailbox_store = ref_mbox.mailbox_store_axioms

text \<open>A peer id, and messages to it, for the witnesses.\<close>

definition peer_of :: "char \<Rightarrow> string" where
  "peer_of c = replicate 53 c"

definition msg_to_peer :: "string \<Rightarrow> JID \<Rightarrow> int \<Rightarrow> Message" where
  "msg_to_peer mid to ct = NewNormalMessage mid ct [] to ''hello'' []"

lemma length_peer_of [simp]: "length (peer_of c) = 53"
  by (simp add: peer_of_def)

lemma Peerid_peer_of [simp]: "Peerid (peer_of c) = peer_of c"
  by (simp add: Peerid_def)

lemma msg_to_peer_sel [simp]:
  "mid \<noteq> [] \<Longrightarrow> eId (mEnvelope (msg_to_peer mid to ct)) = mid"
  "eTo (mEnvelope (msg_to_peer mid to ct)) = to"
  "eType (mEnvelope (msg_to_peer mid to ct)) = NormalMsg"
  by (auto simp: msg_to_peer_def NewNormalMessage_def newMessage_def zero_Envelope_def Let_def)

text \<open>
  The mailbox refines the abstract one. After any sequence of puts and clears for
  full-length peer ids, from any state that stands for an abstract mailbox, a query lists
  exactly the messages the abstract mailbox holds for the peer (each as often as it is held)
  under a non-empty id, in ascending order of their time stamps.
\<close>

theorem mailbox_refinement:
  assumes env: "mailbox_store L ok view A srt" and ok: "ok d"
    and ops: "\<forall>x\<in>set ops. full_op x" and rel: "mbox_rel A (view d) a"
    and jid: "53 \<le> length jid"
  shows "mset (Messages (doQueryMsg L A srt (LDBDatabase fn) jid
        (fold (mbox_exec L A (LDBDatabase fn)) ops d))) =
      spec_list (fold spec_exec ops a) (Peerid jid) \<and>
    sorted_wrt (\<lambda>a b. eCt (mEnvelope a) \<le> eCt (mEnvelope b))
      (Messages (doQueryMsg L A srt (LDBDatabase fn) jid
        (fold (mbox_exec L A (LDBDatabase fn)) ops d)))"
proof -
  let ?d = "fold (mbox_exec L A (LDBDatabase fn)) ops d"
  have "mbox_rel A (view ?d) (fold spec_exec ops a)"
    by (rule mailbox_store.run_refines [OF env ok ops rel])
  then have "mbox_abs A (view ?d) (Peerid jid) = fold spec_exec ops a (Peerid jid)"
    using jid by (simp add: mbox_rel_def length_Peerid)
  then show ?thesis
    using mailbox_store.query_mset [OF env mailbox_store.run_ok [OF env ok]]
      mailbox_store.query_sorted [OF env]
    by (simp add: spec_list_def spec_ids_def)
qed

theorem mailbox_refinement_witness:
  "mset (Messages (doQueryMsg mem_leveldb ref_codecs (sort_key (\<lambda>m. eCt (mEnvelope m)))
      (LDBDatabase ''mb'') (peer_of CHR ''a'')
      (fold (mbox_exec mem_leveldb ref_codecs (LDBDatabase ''mb''))
        [Put (msg_to_peer ''m1'' (peer_of CHR ''a'') 7)] []))) =
   {#msg_to_peer ''m1'' (peer_of CHR ''a'') 7#}"
proof -
  have rel: "mbox_rel ref_codecs (map_of []) (\<lambda>p i. None)"
    by (simp add: mbox_rel_def mbox_abs_def fun_eq_iff)
  have "spec_ids (fold spec_exec [Put (msg_to_peer ''m1'' (peer_of CHR ''a'') 7)] (\<lambda>p i. None))
      (peer_of CHR ''a'') = {''m1''}"
    by (auto simp: spec_ids_def spec_put_def Let_def)
  then have "spec_list (fold spec_exec [Put (msg_to_peer ''m1'' (peer_of CHR ''a'') 7)] (\<lambda>p i. None))
      (peer_of CHR ''a'') = {#msg_to_peer ''m1'' (peer_of CHR ''a'') 7#}"
    by (simp add: spec_list_def spec_put_def Let_def)
  then show ?thesis
    using mailbox_refinement [OF ref_mailbox_store mem_ok_empty _ rel,
        of "[Put (msg_to_peer ''m1'' (peer_of CHR ''a'') 7)]" "peer_of CHR ''a''" "''mb''"]
    by simp
qed

text \<open>
  An offline message is delivered. When a node sends a normal or group message
  that fits the packet limit, with an id, to a full-length recipient, the put handler answers
  success, and the answer of the query handler to that recipient decodes to a bag with the
  message in it.
\<close>

theorem offline_delivery:
  assumes env: "mailbox_store L ok view A srt" and ok: "ok d"
    and kind: "eType (mEnvelope m) \<in> {NormalMsg, GroupMsg}"
    and size: "length (Message_Bytes A m) \<le> MAX_PKG"
    and mid: "eId (mEnvelope m) \<noteq> []"
    and jid: "Peerid (eTo (mEnvelope m)) = Peerid jid"
    and req: "length (encoded (cJID A) jid) \<le> 128"
  shows "\<exists>d' b. msgService L A (LDBDatabase fn) (Message_Bytes A m) d = (SUCCESS, None, d') \<and>
    queryService L A srt (LDBDatabase fn) None (encoded (cJID A) jid) d' = (Bag_Bytes A b, None, d') \<and>
    Bag_FromBytes A (Bag_Bytes A b) zero_MessageBag = (b, None) \<and> m \<in> set (Messages b)"
proof -
  let ?db = "LDBDatabase fn"
  let ?d' = "snd (putMsg L A ?db m d)"
  let ?b = "doQueryMsg L A srt ?db jid ?d'"
  have am: "amino_laws A"
    using env by (simp add: mailbox_store_def)
  note put = mailbox_store.put_result [OF env ok, of fn m]
  have "msgService L A ?db (Message_Bytes A m) d = (SUCCESS, None, ?d')"
    using kind put(1) by (cases "putMsg L A ?db m d")
      (auto simp: msgService_def amino_laws.Message_read [OF am size] verifyMsg_def)
  moreover have "queryService L A srt ?db None (encoded (cJID A) jid) ?d' = (Bag_Bytes A ?b, None, ?d')"
    using codec_laws.reader_encoded [OF amino_laws.jid_codec [OF am] TrueI req] by (simp add: queryService_def)
  moreover have "mbox_abs A (view ?d') (Peerid jid) (eId (mEnvelope m)) = Some m"
    by (simp add: mbox_abs_def put(3) jid mailbox_store.decode_bytes [OF env])
  then have "m \<in> set (Messages ?b)"
    using mid mailbox_store.query_set [OF env put(2)] by blast
  ultimately show ?thesis
    using amino_laws.Bag_roundtrip [OF am] by blast
qed

lemma length_pack: "length (pack ss) = (\<Sum>s\<leftarrow>ss. Suc (2 * length s))"
  by (induction ss rule: pack.induct) auto

lemma ref_msg_size: "length (Message_Bytes ref_codecs (msg_to_peer ''m1'' (peer_of c) 7)) \<le> MAX_PKG"
  by (simp add: Message_Bytes_def encoded_def ref_codecs_def field_codec_def Let_def msg_to_def env_to_def
      msg_to_peer_def NewNormalMessage_def newMessage_def zero_Envelope_def length_pack int_str_def
      NormalMsg_def NoACK_def MAX_PKG_def peer_of_def)

lemma ref_jid_size: "length (encoded (cJID ref_codecs) (peer_of c)) \<le> 128"
  by (simp add: encoded_def ref_codecs_def plain_codec_def peer_of_def)

theorem offline_delivery_witness:
  "\<exists>d' b. msgService mem_leveldb ref_codecs (LDBDatabase ''mb'')
      (Message_Bytes ref_codecs (msg_to_peer ''m1'' (peer_of CHR ''a'') 7)) [] = (SUCCESS, None, d') \<and>
    queryService mem_leveldb ref_codecs (sort_key (\<lambda>m. eCt (mEnvelope m))) (LDBDatabase ''mb'') None
      (encoded (cJID ref_codecs) (peer_of CHR ''a'')) d' = (Bag_Bytes ref_codecs b, None, d') \<and>
    Bag_FromBytes ref_codecs (Bag_Bytes ref_codecs b) zero_MessageBag = (b, None) \<and>
    msg_to_peer ''m1'' (peer_of CHR ''a'') 7 \<in> set (Messages b)"
  by (rule offline_delivery [OF ref_mailbox_store mem_ok_empty _ ref_msg_size _ _ ref_jid_size]) simp_all

text \<open>
  Mailboxes are isolated. Storing a message for one full-length peer, or
  clearing messages of it, changes nothing another full-length peer is shown.
\<close>

theorem mailbox_isolation:
  assumes env: "mailbox_store L ok view A srt" and ok: "ok d"
    and op: "full_op x"
    and other: "Peerid (case x of Put m \<Rightarrow> eTo (mEnvelope m) | Clean c \<Rightarrow> cJid c) \<noteq> Peerid jid"
    and jid: "53 \<le> length jid"
  shows "mset (Messages (doQueryMsg L A srt (LDBDatabase fn) jid (mbox_exec L A (LDBDatabase fn) x d))) =
    mset (Messages (doQueryMsg L A srt (LDBDatabase fn) jid d))"
proof -
  have "mbox_rel A (view d) (\<lambda>p. mbox_abs A (view d) p)"
    by (simp add: mbox_rel_def)
  from mailbox_store.exec_refines [OF env ok op this, of fn] jid
  have "spec_exec x (mbox_abs A (view d)) (Peerid jid) =
      mbox_abs A (view (mbox_exec L A (LDBDatabase fn) x d)) (Peerid jid)"
    by (simp add: mbox_rel_def length_Peerid)
  moreover from other have "spec_exec x (mbox_abs A (view d)) (Peerid jid) = mbox_abs A (view d) (Peerid jid)"
    by (cases x) (auto simp: spec_put_def spec_clean_def Let_def)
  ultimately have "mbox_abs A (view (mbox_exec L A (LDBDatabase fn) x d)) (Peerid jid) =
      mbox_abs A (view d) (Peerid jid)"
    by simp
  then show ?thesis
    by (simp add: mailbox_store.query_mset [OF env] ok mailbox_store.exec_ok [OF env ok]
        spec_list_def spec_ids_def)
qed

theorem mailbox_isolation_witness:
  "mset (Messages (doQueryMsg mem_leveldb ref_codecs (sort_key (\<lambda>m. eCt (mEnvelope m)))
      (LDBDatabase ''mb'') (peer_of CHR ''b'')
      (mbox_exec mem_leveldb ref_codecs (LDBDatabase ''mb'') (Put (msg_to_peer ''m1'' (peer_of CHR ''a'') 7)) []))) =
    mset (Messages (doQueryMsg mem_leveldb ref_codecs (sort_key (\<lambda>m. eCt (mEnvelope m)))
      (LDBDatabase ''mb'') (peer_of CHR ''b'') []))"
proof -
  have "peer_of CHR ''a'' \<noteq> peer_of CHR ''b''" by (simp add: peer_of_def)
  then show ?thesis
    using mailbox_isolation [OF ref_mailbox_store mem_ok_empty,
        of "Put (msg_to_peer ''m1'' (peer_of CHR ''a'') 7)" "peer_of CHR ''b''" "''mb''"] by simp
qed

lemma drain_result:
  assumes env: "mailbox_store L ok view A srt" and ok: "ok d"
    and keyed: "\<And>i m. mbox_abs A (view d) (Peerid jid) i = Some m \<Longrightarrow> eId (mEnvelope m) = i"
    and jid: "53 \<le> length jid"
  shows "Messages (doQueryMsg L A srt (LDBDatabase fn) jid
    (doCleanMsg L (LDBDatabase fn)
      \<lparr>cJid = jid, cIds = map (\<lambda>m. eId (mEnvelope m)) (Messages (doQueryMsg L A srt (LDBDatabase fn) jid d))\<rparr> d)) = []"
proof -
  let ?ms = "Messages (doQueryMsg L A srt (LDBDatabase fn) jid d)"
  let ?c = "\<lparr>cJid = jid, cIds = map (\<lambda>m. eId (mEnvelope m)) ?ms\<rparr>"
  let ?d' = "doCleanMsg L (LDBDatabase fn) ?c d"
  have ok': "ok ?d'" by (rule mailbox_store.clean_result(1) [OF env ok])
  have clean: "mbox_abs A (view ?d') (Peerid jid) = spec_clean ?c (mbox_abs A (view d)) (Peerid jid)"
    unfolding mailbox_store.clean_result(2) [OF env ok]
    by (rule mailbox_store.abs_clean [OF env]) (use jid in \<open>auto simp: length_Peerid\<close>)
  have gone: "mbox_abs A (view ?d') (Peerid jid) i = None" if "i \<noteq> []" for i
  proof (cases "mbox_abs A (view d) (Peerid jid) i")
    case None
    then show ?thesis by (simp add: clean spec_clean_def Let_def)
  next
    case (Some m)
    with that have "m \<in> set ?ms"
      using mailbox_store.query_set [OF env ok, of m fn jid] by blast
    then have "i \<in> set (cIds ?c)"
      using keyed [OF Some] by (simp add: rev_image_eqI)
    then show ?thesis by (simp add: clean spec_clean_def Let_def)
  qed
  have "m \<notin> set (Messages (doQueryMsg L A srt (LDBDatabase fn) jid ?d'))" for m
    using gone mailbox_store.query_set [OF env ok', of m fn jid] by (metis option.distinct(1))
  then show ?thesis by (metis last_in_set)
qed

lemma ref_put_view:
  "map_of (snd (putMsg mem_leveldb ref_codecs (LDBDatabase fn) m [])) =
    [Peerid (eTo (mEnvelope m)) @ eId (mEnvelope m) \<mapsto> Message_Bytes ref_codecs m]"
  by (simp only: ref_mbox.put_result(3) [OF mem_ok_empty] map_of.simps)

lemma ref_put_keyed:
  assumes "53 \<le> length (eTo (mEnvelope m))"
    and "mbox_abs ref_codecs (map_of (snd (putMsg mem_leveldb ref_codecs (LDBDatabase fn) m [])))
      (Peerid (eTo (mEnvelope m))) i = Some m'"
  shows "eId (mEnvelope m') = i"
  using assms by (auto simp: ref_put_view mbox_abs_def split: if_splits)

lemma abs_short: "length p < 53 \<Longrightarrow> mbox_abs A c (Peerid p) (q @ i) = mbox_abs A c q i"
  by (simp add: mbox_abs_def Peerid_short)

text \<open>
  The put handler acknowledges exactly what it stored. On a healthy database it
  returns no error if and only if the request decodes to a normal or group message; then it
  answers success and the message is the only entry that changed, under the recipient's peer
  id and the message id. Otherwise the database is untouched.
\<close>

theorem put_handler_truthful:
  assumes env: "mailbox_store L ok view A srt" and ok: "ok d"
    and run: "msgService L A (LDBDatabase fn) rw d = (out, e, d')"
  shows "(e = None \<longleftrightarrow> (\<exists>m. Message_FromReader A rw zero_Message = (m, None) \<and>
      eType (mEnvelope m) \<in> {NormalMsg, GroupMsg})) \<and>
    (e = None \<longrightarrow> out = SUCCESS \<and> (\<exists>m. Message_FromReader A rw zero_Message = (m, None) \<and>
      view d' = (view d)(Peerid (eTo (mEnvelope m)) @ eId (mEnvelope m) \<mapsto> Message_Bytes A m))) \<and>
    (e \<noteq> None \<longrightarrow> d' = d)"
proof (cases "Message_FromReader A rw zero_Message")
  case (Pair m e')
  obtain e'' d'' where put: "putMsg L A (LDBDatabase fn) m d = (e'', d'')"
    by (cases "putMsg L A (LDBDatabase fn) m d")
  with mailbox_store.put_result [OF env ok, of fn m] Pair run show ?thesis
    by (cases e') (auto simp: msgService_def verifyMsg_def split: if_splits)
qed

theorem put_handler_truthful_witness:
  "\<exists>e d'. msgService mem_leveldb ref_codecs (LDBDatabase ''mb'') ''junk'' [] = (e, Some e, d') \<and> d' = []"
proof -
  have run: "msgService mem_leveldb ref_codecs (LDBDatabase ''mb'') ''junk'' [] = (''malformed'', Some ''malformed'', [])"
    by (simp add: msgService_def Message_FromReader_def ref_codecs_def field_codec_def Let_def MAX_PKG_def)
  from put_handler_truthful [OF ref_mailbox_store mem_ok_empty run] run show ?thesis by blast
qed

text \<open>
  Property C30: a request with a JID shorter than 53 bytes reaches everybody's messages. Its
  peer id is empty, so a query with it returns every decodable message of the database,
  whoever it is for, and a clear with it removes the message of any peer.
\<close>

theorem short_jid_reaches_all:
  assumes env: "mailbox_store L ok view A srt" and ok: "ok d"
    and short: "length jid < 53"
    and stored: "mbox_abs A (view d) p i = Some m" and i: "i \<noteq> []"
  shows "m \<in> set (Messages (doQueryMsg L A srt (LDBDatabase fn) jid d)) \<and>
    mbox_abs A (view (doCleanMsg L (LDBDatabase fn) \<lparr>cJid = jid, cIds = [p @ i]\<rparr> d)) p i = None"
proof
  have "mbox_abs A (view d) (Peerid jid) (p @ i) = Some m"
    using short stored by (simp add: abs_short)
  with i show "m \<in> set (Messages (doQueryMsg L A srt (LDBDatabase fn) jid d))"
    using mailbox_store.query_set [OF env ok] by blast
  show "mbox_abs A (view (doCleanMsg L (LDBDatabase fn) \<lparr>cJid = jid, cIds = [p @ i]\<rparr> d)) p i = None"
    by (simp add: mailbox_store.clean_result [OF env ok] mbox_abs_def Peerid_short short)
qed

theorem short_jid_reaches_all_witness:
  "msg_to_peer ''m1'' (peer_of CHR ''a'') 7 \<in> set (Messages (doQueryMsg mem_leveldb ref_codecs
    (sort_key (\<lambda>m. eCt (mEnvelope m))) (LDBDatabase ''mb'') []
    (snd (putMsg mem_leveldb ref_codecs (LDBDatabase ''mb'') (msg_to_peer ''m1'' (peer_of CHR ''a'') 7) []))))"
proof -
  have "mbox_abs ref_codecs (map_of (snd (putMsg mem_leveldb ref_codecs (LDBDatabase ''mb'')
      (msg_to_peer ''m1'' (peer_of CHR ''a'') 7) []))) (peer_of CHR ''a'') ''m1'' =
      Some (msg_to_peer ''m1'' (peer_of CHR ''a'') 7)"
    by (simp add: ref_put_view mbox_abs_def)
  then show ?thesis
    by (rule conjunct1 [OF short_jid_reaches_all [OF ref_mailbox_store ref_mbox.put_result(2) [OF mem_ok_empty]],
          rotated]) simp_all
qed

text \<open>
  A message with an empty id is acknowledged and never shown. The put handler
  answers success for it, but a query strips the peer prefix and wants at least one byte
  more, so no query of its recipient shows it.
\<close>

theorem empty_id_lost:
  assumes env: "mailbox_store L ok view A srt" and ok: "ok d"
    and to: "53 \<le> length (eTo (mEnvelope m))" and mid: "eId (mEnvelope m) = []"
    and jid: "Peerid jid = Peerid (eTo (mEnvelope m))"
  shows "fst (putMsg L A (LDBDatabase fn) m d) = None \<and>
    mset (Messages (doQueryMsg L A srt (LDBDatabase fn) jid (snd (putMsg L A (LDBDatabase fn) m d)))) =
    mset (Messages (doQueryMsg L A srt (LDBDatabase fn) jid d))"
proof
  let ?d' = "snd (putMsg L A (LDBDatabase fn) m d)"
  note put = mailbox_store.put_result [OF env ok, of fn m]
  show "fst (putMsg L A (LDBDatabase fn) m d) = None" by (rule put)
  have same: "mbox_abs A (view ?d') (Peerid jid) i = mbox_abs A (view d) (Peerid jid) i" if "i \<noteq> []" for i
    using that by (simp add: put(3) mbox_abs_def jid mid)
  then have "spec_list (mbox_abs A (view ?d')) (Peerid jid) = spec_list (mbox_abs A (view d)) (Peerid jid)"
    by (rule spec_list_cong)
  then show "mset (Messages (doQueryMsg L A srt (LDBDatabase fn) jid ?d')) =
      mset (Messages (doQueryMsg L A srt (LDBDatabase fn) jid d))"
    by (simp add: mailbox_store.query_mset [OF env] ok put)
qed

definition no_id_msg :: Message where
  "no_id_msg = zero_Message\<lparr>mEnvelope := zero_Envelope\<lparr>eTo := peer_of CHR ''a'', eType := NormalMsg\<rparr>\<rparr>"

lemma no_id_msg_sel [simp]: "eTo (mEnvelope no_id_msg) = peer_of CHR ''a''" "eId (mEnvelope no_id_msg) = []"
  by (simp_all add: no_id_msg_def zero_Envelope_def)

theorem empty_id_lost_witness:
  "mset (Messages (doQueryMsg mem_leveldb ref_codecs (sort_key (\<lambda>m. eCt (mEnvelope m)))
      (LDBDatabase ''mb'') (peer_of CHR ''a'') (snd (putMsg mem_leveldb ref_codecs (LDBDatabase ''mb'') no_id_msg [])))) =
    mset (Messages (doQueryMsg mem_leveldb ref_codecs (sort_key (\<lambda>m. eCt (mEnvelope m)))
      (LDBDatabase ''mb'') (peer_of CHR ''a'') []))"
  using empty_id_lost [OF ref_mailbox_store mem_ok_empty, of no_id_msg "peer_of CHR ''a''" "''mb''"] by simp

text \<open>
  Property C36: a message with a short recipient can be planted in any mailbox, and its
  owner does not clear it. With a recipient shorter than 53 bytes the key is the message id alone; an id
  that starts with a peer id puts the message in that peer's mailbox, and clearing the ids of
  everything the peer's query returns leaves it there. The peer has a JID of full length, and what its
  mailbox held before was stored under the ids of the messages, as \<open>putMsg\<close> does for full-length recipients.
\<close>

theorem planted_message_stays:
  assumes env: "mailbox_store L ok view A srt" and ok: "ok d"
    and short: "length (eTo (mEnvelope m)) < 53"
    and mid: "eId (mEnvelope m) = Peerid jid @ x" and x: "x \<noteq> []" and jid: "53 \<le> length jid"
    and keyed: "\<And>i m. mbox_abs A (view d) (Peerid jid) i = Some m \<Longrightarrow> eId (mEnvelope m) = i"
    and d': "d' = snd (putMsg L A (LDBDatabase fn) m d)"
    and ids: "ids = map (\<lambda>m. eId (mEnvelope m)) (Messages (doQueryMsg L A srt (LDBDatabase fn) jid d'))"
  shows "m \<in> set (Messages (doQueryMsg L A srt (LDBDatabase fn) jid d')) \<and>
    m \<in> set (Messages (doQueryMsg L A srt (LDBDatabase fn) jid
      (doCleanMsg L (LDBDatabase fn) \<lparr>cJid = jid, cIds = ids\<rparr> d')))"
proof -
  note put = mailbox_store.put_result [OF env ok, of fn m, folded d']
  have abs': "mbox_abs A (view d') (Peerid jid) = (mbox_abs A (view d) (Peerid jid))(x \<mapsto> m)"
    by (simp add: put(3) mbox_abs_def fun_eq_iff Peerid_short short mid mailbox_store.decode_bytes [OF env])
  have "x \<notin> set ids"
  proof
    assume "x \<in> set ids"
    then obtain m' i where "x = eId (mEnvelope m')" "mbox_abs A (view d') (Peerid jid) i = Some m'"
      using mailbox_store.query_set [OF env put(2), of _ fn jid] by (auto simp: ids)
    then have "x = Peerid jid @ x"
      using keyed [of i m'] mid by (auto simp: abs' split: if_splits)
    with jid have "length x = 53 + length x"
      by (metis length_Peerid length_append leD)
    then show False by simp
  qed
  then have "mbox_abs A (view (doCleanMsg L (LDBDatabase fn) \<lparr>cJid = jid, cIds = ids\<rparr> d')) (Peerid jid) x = Some m"
    using fun_cong [OF abs', of x] by (simp add: mailbox_store.clean_result [OF env put(2)] mbox_abs_def)
  with x abs' show ?thesis
    using mailbox_store.query_set [OF env put(2), of m fn jid]
      mailbox_store.query_set [OF env mailbox_store.clean_result(1) [OF env put(2)]] by fastforce
qed

definition planted_msg :: Message where
  "planted_msg = msg_to_peer (peer_of CHR ''a'' @ ''x'') [] 7"

theorem planted_message_stays_witness:
  "\<exists>d ids. d = snd (putMsg mem_leveldb ref_codecs (LDBDatabase ''mb'') planted_msg []) \<and>
    ids = map (\<lambda>m. eId (mEnvelope m)) (Messages (doQueryMsg mem_leveldb ref_codecs (sort_key (\<lambda>m. eCt (mEnvelope m)))
      (LDBDatabase ''mb'') (peer_of CHR ''a'') d)) \<and>
    planted_msg \<in> set (Messages (doQueryMsg mem_leveldb ref_codecs (sort_key (\<lambda>m. eCt (mEnvelope m)))
      (LDBDatabase ''mb'') (peer_of CHR ''a'') (doCleanMsg mem_leveldb (LDBDatabase ''mb'') \<lparr>cJid = peer_of CHR ''a'', cIds = ids\<rparr> d)))"
  using planted_message_stays [OF ref_mailbox_store mem_ok_empty, of planted_msg "peer_of CHR ''a''" "''x''" _ "''mb''"]
  by (simp add: planted_msg_def mbox_abs_def)

end
