(* ===== verification/ServiceProps.thy ===== *)
theory ServiceProps
  imports Service MailboxSpec
begin

text \<open>
  The running chat service: what the dispatch loop does with the messages the handler of
  \<open>PID_NORMAL\<close> accepts, in every interleaving, what a stopped service still answers, and the
  way of a message over the network into a mailbox and out of it.
\<close>

section \<open>Runs, and a concrete one\<close>

lemma svc_run_append: "svc_run A s' es' s'' \<Longrightarrow> svc_run A s es s' \<Longrightarrow> svc_run A s (es @ es') s''"
proof (induction rule: svc_run.induct)
  case (run_nil s)
  then show ?case by simp
next
  case (run_snoc t es t' e t'')
  then show ?case by (metis append.assoc svc_run.run_snoc)
qed

lemma svc_run_cons: "svc_step A s e s1 \<Longrightarrow> svc_run A s1 es s' \<Longrightarrow> svc_run A s (e # es) s'"
  using svc_run_append [OF _ svc_run.run_snoc [OF svc_run.run_nil]] by fastforce

definition demo_svc :: "unit ChatService" where
  "demo_svc = \<lparr>csMyid = peer_of CHR ''a'', csHomedir = ''/tmp'', csRecvMsgCh = [], csStop = False,
    csHandleMsgFn = [(''h'', ())], csMbox = \<lparr>mbMyid = [], mbStop = False, mbDb = LDBDatabase ''mb''\<rparr>\<rparr>"

definition demo_msg :: Message where "demo_msg = msg_to_peer ''m1'' (peer_of CHR ''a'') 7"

definition demo_events :: "unit event list" where
  "demo_events = [Request (Message_Bytes ref_codecs demo_msg), Request (Message_Bytes ref_codecs demo_msg),
     Enqueue demo_msg, Take demo_msg [(''h'', ())], StartOne]"

definition demo_state :: "unit running" where
  "demo_state = \<lparr>sSvc = demo_svc, sCtxDone = False, sWaiting = [demo_msg],
     sLoop = Dispatching demo_msg [], sRaced = False, sAccepted = [demo_msg], sTaken = [demo_msg],
     sAcked = [demo_msg], sStarted = [(''h'', (), demo_msg)]\<rparr>"

lemma demo_sel [simp]:
  "sWaiting demo_state = [demo_msg]" "sAccepted demo_state = [demo_msg]" "sRaced demo_state = False"
  "sLoop demo_state = Dispatching demo_msg []" "csRecvMsgCh demo_svc = []"
  "csHandleMsgFn demo_svc = [(''h'', ())]"
  by (simp_all add: demo_state_def demo_svc_def)

lemma demo_read: "Message_FromReader ref_codecs (Message_Bytes ref_codecs demo_msg) zero_Message = (demo_msg, None)"
  unfolding demo_msg_def by (rule refc.Message_read [OF ref_msg_size])

lemma demo_run: "svc_run ref_codecs (cs_Start demo_svc) demo_events demo_state"
  unfolding demo_events_def
  by (rule svc_run_cons, rule svc_step.request [OF _ demo_read],
      simp add: cs_Start_def,
      rule svc_run_cons, rule svc_step.request [OF _ demo_read],
      simp add: cs_Start_def,
      rule svc_run_cons, rule svc_step.enqueue,
      simp_all add: cs_Start_def recv_cap_def demo_svc_def,
      rule svc_run_cons, rule svc_step.take, simp_all,
      rule svc_run_cons, rule svc_step.start_one, simp_all)
    (simp add: svc_run.run_nil demo_state_def demo_svc_def)

section \<open>An invariant of every run\<close>

text \<open>The messages a handler was started with, in order.\<close>

definition calls_of :: "string \<Rightarrow> 'h running \<Rightarrow> Message list" where
  "calls_of fid s = map (\<lambda>(f, fn, m). m) (filter (\<lambda>(f, fn, m). f = fid) (sStarted s))"

text \<open>The message the loop is handing out and this handler has still to be started with.\<close>

fun owed :: "string \<Rightarrow> 'h loop \<Rightarrow> Message list" where
  "owed fid (Dispatching m fs) = (if fid \<in> fst ` set fs then [m] else [])"
| "owed fid Idle = []"
| "owed fid Exited = []"

fun loop_ok :: "'h loop \<Rightarrow> bool" where
  "loop_ok (Dispatching m fs) \<longleftrightarrow> distinct (map fst fs)"
| "loop_ok Idle \<longleftrightarrow> True"
| "loop_ok Exited \<longleftrightarrow> True"

text \<open>\<open>T\<close>: what the loop had taken when the handler was registered.\<close>

definition svc_inv :: "Message list \<Rightarrow> string \<Rightarrow> 'h running \<Rightarrow> bool" where
  "svc_inv T fid s \<longleftrightarrow>
    distinct (map fst (csHandleMsgFn (sSvc s))) \<and> fid \<in> fst ` set (csHandleMsgFn (sSvc s)) \<and>
    loop_ok (sLoop s) \<and> length (csRecvMsgCh (sSvc s)) \<le> recv_cap \<and>
    sAccepted s = sTaken s @ csRecvMsgCh (sSvc s) \<and>
    sTaken s = T @ calls_of fid s @ owed fid (sLoop s)"

lemma calls_of_simps [simp]:
  "calls_of fid (s\<lparr>sWaiting := a\<rparr>) = calls_of fid s"
  "calls_of fid (s\<lparr>sSvc := c\<rparr>) = calls_of fid s"
  "calls_of fid (s\<lparr>sAccepted := b\<rparr>) = calls_of fid s"
  "calls_of fid (s\<lparr>sAcked := b\<rparr>) = calls_of fid s"
  "calls_of fid (s\<lparr>sTaken := b\<rparr>) = calls_of fid s"
  "calls_of fid (s\<lparr>sLoop := l\<rparr>) = calls_of fid s"
  "calls_of fid (s\<lparr>sRaced := r\<rparr>) = calls_of fid s"
  "calls_of fid (s\<lparr>sCtxDone := r\<rparr>) = calls_of fid s"
  "calls_of fid (s\<lparr>sStarted := sStarted s @ [(f, fn, m)]\<rparr>) =
    calls_of fid s @ (if f = fid then [m] else [])"
  by (simp_all add: calls_of_def)

lemma mset_keys:
  assumes "mset fs = mset hs"
  shows "fst ` set fs = fst ` set hs" and "distinct (map fst fs) \<longleftrightarrow> distinct (map fst hs)"
proof -
  show "fst ` set fs = fst ` set hs"
    using mset_eq_setD [OF assms] by simp
  have "mset (map fst fs) = mset (map fst hs)"
    using assms by simp
  then show "distinct (map fst fs) \<longleftrightarrow> distinct (map fst hs)"
    by (rule mset_eq_imp_distinct_iff)
qed

lemma keys_delete: "fst ` set (AList.delete k xs) = fst ` set xs - {k}"
proof -
  have "set (map fst (AList.delete k xs)) = set (map fst xs) - {k}" unfolding delete_keys by simp
  then show ?thesis by simp
qed

lemma delete_other_key: "fid \<noteq> k \<Longrightarrow> fid \<in> fst ` set xs \<Longrightarrow> fid \<in> fst ` set (AList.delete k xs)"
  by (simp add: keys_delete)

lemma svc_inv_step:
  assumes "svc_step A s e s'" and "svc_inv T fid s" and "e \<noteq> Unregister fid"
  shows "svc_inv T fid s'"
  using assms
proof (induction rule: svc_step.induct)
  case (take s m ms fs)
  then have "fid \<in> fst ` set fs" "distinct (map fst fs)"
    by (auto simp: svc_inv_def mset_keys [OF take(4)])
  with take show ?case by (auto simp: svc_inv_def)
next
  case (start_one s m f fn fs)
  then show ?case by (auto simp: svc_inv_def calls_of_def)
next
  case (register s uuid fn)
  then show ?case
    by (auto simp: svc_inv_def AppendHandleMsg_def Let_def dom_update distinct_update)
next
  case (unregister s f)
  then have "fid \<noteq> f" by auto
  with unregister show ?case
    by (simp add: svc_inv_def DropHandleMsg_def delete_other_key distinct_delete)
next
  case (call_stop s c e)
  then show ?case by (auto simp: svc_inv_def cs_Stop_def split: if_splits)
qed (auto simp: svc_inv_def recv_cap_def)

lemma svc_inv_run:
  "svc_run A s es s' \<Longrightarrow> svc_inv T fid s \<Longrightarrow> Unregister fid \<notin> set es \<Longrightarrow> svc_inv T fid s'"
proof (induction rule: svc_run.induct)
  case (run_snoc s es s' e s'')
  then show ?case by (intro svc_inv_step [OF run_snoc(2)]) auto
qed

lemma svc_inv_Start:
  "distinct (map fst (csHandleMsgFn c)) \<Longrightarrow> fid \<in> fst ` set (csHandleMsgFn c) \<Longrightarrow>
    csRecvMsgCh c = [] \<Longrightarrow> svc_inv [] fid (cs_Start c)"
  by (simp add: svc_inv_def cs_Start_def calls_of_def)

text \<open>
  Property C4: every accepted message reaches every handler exactly once and in order. In any
  interleaving of requests, registrations, the dispatch loop, stops and cancellation, the
  messages a handler that stays registered was started with, followed by the one the loop is
  handing out and owes it, are the messages taken from the channel; those followed by the
  contents of the channel are the messages accepted; and the channel never exceeds its
  capacity.
\<close>

theorem dispatch_exactly_once:
  assumes run: "svc_run A (cs_Start c) es s"
    and reg: "distinct (map fst (csHandleMsgFn c))" "fid \<in> fst ` set (csHandleMsgFn c)"
    and new: "csRecvMsgCh c = []" and stays: "Unregister fid \<notin> set es"
  shows "sAccepted s = calls_of fid s @ owed fid (sLoop s) @ csRecvMsgCh (sSvc s) \<and>
    length (csRecvMsgCh (sSvc s)) \<le> 128 \<and>
    (sLoop s = Idle \<longrightarrow> calls_of fid s = sTaken s)"
  using svc_inv_run [OF run svc_inv_Start [OF reg new] stays]
  by (auto simp: svc_inv_def recv_cap_def)

theorem dispatch_exactly_once_witness:
  "sAccepted demo_state = calls_of ''h'' demo_state @ owed ''h'' (sLoop demo_state) @
      csRecvMsgCh (sSvc demo_state) \<and> calls_of ''h'' demo_state = [demo_msg]"
  using dispatch_exactly_once [OF demo_run, of "''h''"]
  by (simp add: demo_svc_def demo_events_def calls_of_def demo_state_def)

lemma accepted_queue_step:
  "svc_step A s e s' \<Longrightarrow> sAccepted s = sTaken s @ csRecvMsgCh (sSvc s) \<and> length (csRecvMsgCh (sSvc s)) \<le> recv_cap \<and>
      distinct (map fst (csHandleMsgFn (sSvc s))) \<and> loop_ok (sLoop s) \<Longrightarrow>
    sAccepted s' = sTaken s' @ csRecvMsgCh (sSvc s') \<and> length (csRecvMsgCh (sSvc s')) \<le> recv_cap \<and>
      distinct (map fst (csHandleMsgFn (sSvc s'))) \<and> loop_ok (sLoop s')"
proof (induction rule: svc_step.induct)
  case (take s m ms fs)
  then show ?case by (auto simp: mset_keys(2) [OF take(4)])
next
  case (register s uuid fn)
  then show ?case by (simp add: AppendHandleMsg_def Let_def distinct_update)
next
  case (unregister s f)
  then show ?case by (simp add: DropHandleMsg_def distinct_delete)
next
  case (call_stop s c e)
  then show ?case by (auto simp: cs_Stop_def split: if_splits)
qed (auto simp: recv_cap_def)

lemma accepted_queue_run:
  "svc_run A s es s' \<Longrightarrow> sAccepted s = sTaken s @ csRecvMsgCh (sSvc s) \<and> length (csRecvMsgCh (sSvc s)) \<le> recv_cap \<and>
      distinct (map fst (csHandleMsgFn (sSvc s))) \<and> loop_ok (sLoop s) \<Longrightarrow>
    sAccepted s' = sTaken s' @ csRecvMsgCh (sSvc s') \<and> length (csRecvMsgCh (sSvc s')) \<le> recv_cap \<and>
      distinct (map fst (csHandleMsgFn (sSvc s'))) \<and> loop_ok (sLoop s')"
  by (induction rule: svc_run.induct) (auto dest: accepted_queue_step)

text \<open>A handler that was never registered has never been started, nor is it about to be.\<close>

definition unknown :: "string \<Rightarrow> 'h running \<Rightarrow> bool" where
  "unknown fid s \<longleftrightarrow> fid \<notin> fst ` set (csHandleMsgFn (sSvc s)) \<and> calls_of fid s = [] \<and> owed fid (sLoop s) = []"

lemma unknown_step:
  "svc_step A s e s' \<Longrightarrow> unknown fid s \<Longrightarrow> (\<And>fn. e \<noteq> Register fid fn) \<Longrightarrow> unknown fid s'"
proof (induction rule: svc_step.induct)
  case (take s m ms fs)
  then show ?case by (auto simp: unknown_def mset_keys(1) [OF take(4)])
next
  case (start_one s m f fn fs)
  then show ?case by (auto simp: unknown_def calls_of_def split: if_splits)
next
  case (register s uuid fn)
  then have "fid \<noteq> uuid" by auto
  with register show ?case by (auto simp: unknown_def AppendHandleMsg_def Let_def dom_update)
next
  case (unregister s f)
  then show ?case by (simp add: unknown_def DropHandleMsg_def keys_delete)
next
  case (call_stop s c e)
  then show ?case by (auto simp: unknown_def cs_Stop_def split: if_splits)
qed (auto simp: unknown_def)

lemma unknown_run:
  "svc_run A s es s' \<Longrightarrow> unknown fid s \<Longrightarrow> \<forall>fn. Register fid fn \<notin> set es \<Longrightarrow> unknown fid s'"
  by (induction rule: svc_run.induct) (auto dest: unknown_step)

lemma register_inv:
  assumes before: "svc_run A (cs_Start c) es1 s1" and reg: "svc_step A s1 (Register fid fn) s2"
    and new: "csRecvMsgCh c = []" "distinct (map fst (csHandleMsgFn c))"
    and fresh: "fid \<notin> fst ` set (csHandleMsgFn c)" "\<forall>fn. Register fid fn \<notin> set es1"
  shows "svc_inv (sTaken s1) fid s2"
proof -
  have "unknown fid s1"
    by (rule unknown_run [OF before _ fresh(2)]) (use fresh(1) in \<open>simp add: unknown_def cs_Start_def calls_of_def\<close>)
  moreover have "sAccepted s1 = sTaken s1 @ csRecvMsgCh (sSvc s1) \<and> length (csRecvMsgCh (sSvc s1)) \<le> recv_cap \<and>
      distinct (map fst (csHandleMsgFn (sSvc s1))) \<and> loop_ok (sLoop s1)"
    by (rule accepted_queue_run [OF before]) (use new in \<open>simp add: cs_Start_def\<close>)
  ultimately show ?thesis
    using reg by (auto simp: svc_step_simps svc_inv_def unknown_def AppendHandleMsg_def Let_def dom_update distinct_update)
qed

text \<open>
  Property C23: a session sees only what comes after it. Take a service that has run until a handler, as of a session,
  is registered under a fresh id, and on from there in any way that keeps the handler: the messages it was
  started with, and the one it is owed, are those the loop took after the registration, in order. What the loop took before
  never reaches the session.
\<close>

theorem late_session_misses:
  assumes before: "svc_run A (cs_Start c) es1 s1" and reg: "svc_step A s1 (Register fid fn) s2"
    and later: "svc_run A s2 es2 s3" and new: "csRecvMsgCh c = []" "distinct (map fst (csHandleMsgFn c))"
    and fresh: "fid \<notin> fst ` set (csHandleMsgFn c)" "\<forall>fn. Register fid fn \<notin> set es1"
    and stays: "Unregister fid \<notin> set es2"
  shows "sTaken s3 = sTaken s1 @ calls_of fid s3 @ owed fid (sLoop s3)"
  using svc_inv_run [OF later register_inv [OF before reg new fresh] stays] by (simp add: svc_inv_def)

theorem late_session_misses_witness:
  "\<exists>s2. svc_step ref_codecs (demo_state\<lparr>sLoop := Idle\<rparr>) (Register ''s'' ()) s2 \<and> calls_of ''s'' s2 = [] \<and>
    sTaken s2 = [demo_msg]"
proof -
  let ?s1 = "demo_state\<lparr>sLoop := Idle\<rparr>"
  have "svc_step ref_codecs demo_state AllStarted ?s1" by (rule svc_step.all_started) simp_all
  from svc_run.run_snoc [OF demo_run this]
  have run: "svc_run ref_codecs (cs_Start demo_svc) (demo_events @ [AllStarted]) ?s1" .
  obtain s2 where s2: "svc_step ref_codecs ?s1 (Register ''s'' ()) s2"
    using svc_step.register [of ?s1 ref_codecs "''s''" "()"] by auto
  have taken: "sTaken s2 = sTaken ?s1" using s2 by (simp add: svc_step_simps)
  have "sTaken s2 = sTaken ?s1 @ calls_of ''s'' s2 @ owed ''s'' (sLoop s2)"
    by (rule late_session_misses [OF run s2 svc_run.run_nil]) (simp_all add: demo_events_def)
  with s2 taken show ?thesis by (auto simp: demo_state_def)
qed

section \<open>The loop makes progress\<close>

fun system_event :: "'h event \<Rightarrow> bool" where
  "system_event (Enqueue m) = True"
| "system_event (Take m fs) = True"
| "system_event StartOne = True"
| "system_event AllStarted = True"
| "system_event e = False"

text \<open>A run that needs no further call from outside.\<close>

definition quiet_run :: "codecs \<Rightarrow> 'h running \<Rightarrow> 'h running \<Rightarrow> bool" where
  "quiet_run A s s' \<longleftrightarrow> (\<exists>es. svc_run A s es s' \<and> (\<forall>e\<in>set es. system_event e))"

lemma quiet_refl: "quiet_run A s s"
  unfolding quiet_run_def by (rule exI [of _ "[]"]) (simp add: svc_run.run_nil)

lemma quiet_step: "svc_step A s e s' \<Longrightarrow> system_event e \<Longrightarrow> quiet_run A s s'"
  using svc_run.run_snoc [OF svc_run.run_nil] unfolding quiet_run_def by fastforce

lemma quiet_trans: "quiet_run A s s' \<Longrightarrow> quiet_run A s' s'' \<Longrightarrow> quiet_run A s s''"
  unfolding quiet_run_def by (metis Un_iff set_append svc_run_append)

lemma finish_dispatch:
  "\<not> sRaced s \<Longrightarrow> sLoop s = Dispatching m fs \<Longrightarrow>
    \<exists>s'. quiet_run A s s' \<and> \<not> sRaced s' \<and> sLoop s' = Idle \<and> sSvc s' = sSvc s \<and>
      sWaiting s' = sWaiting s \<and> sAccepted s' = sAccepted s"
proof (induction fs arbitrary: s)
  case Nil
  then show ?case
    using quiet_step [OF svc_step.all_started [of s m A]]
    by (intro exI [of _ "s\<lparr>sLoop := Idle\<rparr>"]) simp
next
  case (Cons f fs)
  obtain fid fn where f: "f = (fid, fn)" by (cases f)
  let ?s1 = "s\<lparr>sLoop := Dispatching m fs, sStarted := sStarted s @ [(fid, fn, m)]\<rparr>"
  have "quiet_run A s ?s1"
    using Cons.prems f by (intro quiet_step [of A s StartOne]) (auto intro: svc_step.start_one)
  moreover from Cons.IH [of ?s1] Cons.prems obtain s' where "quiet_run A ?s1 s'" "\<not> sRaced s'"
    "sLoop s' = Idle" "sSvc s' = sSvc s" "sWaiting s' = sWaiting s" "sAccepted s' = sAccepted s" by auto
  ultimately show ?case using quiet_trans by blast
qed

lemma drain_channel:
  "\<not> sRaced s \<Longrightarrow> sLoop s = Idle \<Longrightarrow>
    \<exists>s'. quiet_run A s s' \<and> \<not> sRaced s' \<and> sLoop s' = Idle \<and> csRecvMsgCh (sSvc s') = [] \<and>
      sWaiting s' = sWaiting s \<and> sAccepted s' = sAccepted s"
proof (induction "csRecvMsgCh (sSvc s)" arbitrary: s)
  case Nil
  then show ?case by (intro exI [of _ s]) (simp add: quiet_refl)
next
  case (Cons m ms)
  let ?c = "sSvc s"
  let ?s1 = "s\<lparr>sSvc := ?c\<lparr>csRecvMsgCh := ms\<rparr>, sLoop := Dispatching m (csHandleMsgFn ?c),
      sTaken := sTaken s @ [m]\<rparr>"
  have "svc_step A s (Take m (csHandleMsgFn ?c)) ?s1"
    using Cons.prems Cons.hyps(2) [symmetric] by (intro svc_step.take) simp_all
  then have "quiet_run A s ?s1" by (rule quiet_step) simp
  moreover from finish_dispatch [of ?s1 m "csHandleMsgFn ?c" A] Cons.prems obtain s2 where
    s2: "quiet_run A ?s1 s2" "\<not> sRaced s2" "sLoop s2 = Idle" "sSvc s2 = ?c\<lparr>csRecvMsgCh := ms\<rparr>"
    "sWaiting s2 = sWaiting s" "sAccepted s2 = sAccepted s" by auto
  moreover from Cons.hyps(1) [of s2] s2 obtain s3 where "quiet_run A s2 s3" "\<not> sRaced s3"
    "sLoop s3 = Idle" "csRecvMsgCh (sSvc s3) = []" "sWaiting s3 = sWaiting s" "sAccepted s3 = sAccepted s" by auto
  ultimately show ?case using quiet_trans by blast
qed

lemma flush_waiting:
  "\<not> sRaced s \<Longrightarrow> sLoop s = Idle \<Longrightarrow> csRecvMsgCh (sSvc s) = [] \<Longrightarrow>
    \<exists>s'. quiet_run A s s' \<and> \<not> sRaced s' \<and> sLoop s' = Idle \<and> csRecvMsgCh (sSvc s') = [] \<and>
      sWaiting s' = [] \<and> sAccepted s' = sAccepted s @ sWaiting s"
proof (induction "sWaiting s" arbitrary: s)
  case Nil
  then show ?case by (intro exI [of _ s]) (simp add: quiet_refl)
next
  case (Cons m ms)
  let ?c = "sSvc s"
  let ?s1 = "s\<lparr>sWaiting := remove1 m (sWaiting s), sSvc := ?c\<lparr>csRecvMsgCh := csRecvMsgCh ?c @ [m]\<rparr>,
      sAccepted := sAccepted s @ [m], sAcked := sAcked s @ [m]\<rparr>"
  have "svc_step A s (Enqueue m) ?s1"
    using Cons.prems Cons.hyps(2) [symmetric] by (intro svc_step.enqueue) (simp_all add: recv_cap_def)
  then have q1: "quiet_run A s ?s1" by (rule quiet_step) simp
  from drain_channel [of ?s1 A] Cons.prems Cons.hyps(2) [symmetric] obtain s2 where
    s2: "quiet_run A ?s1 s2" "\<not> sRaced s2" "sLoop s2 = Idle" "csRecvMsgCh (sSvc s2) = []"
    "sWaiting s2 = ms" "sAccepted s2 = sAccepted s @ [m]" by auto
  from Cons.hyps(1) [of s2] s2 obtain s3 where "quiet_run A s2 s3" "\<not> sRaced s3"
    "sLoop s3 = Idle" "csRecvMsgCh (sSvc s3) = []" "sWaiting s3 = []"
    "sAccepted s3 = sAccepted s @ m # ms" by auto
  moreover have "quiet_run A s s3"
    by (rule quiet_trans [OF quiet_trans [OF q1 s2(1)]]) fact
  ultimately show ?case
    using Cons.hyps(2) [symmetric] by (intro exI [of _ s3]) simp
qed

lemma settle:
  assumes "\<not> sRaced s" and "sLoop s \<noteq> Exited"
  shows "\<exists>s'. quiet_run A s s' \<and> sLoop s' = Idle \<and> csRecvMsgCh (sSvc s') = [] \<and>
    sWaiting s' = [] \<and> sAccepted s' = sAccepted s @ sWaiting s"
proof -
  obtain s1 where s1: "quiet_run A s s1" "\<not> sRaced s1" "sLoop s1 = Idle"
    "sWaiting s1 = sWaiting s" "sAccepted s1 = sAccepted s"
    using assms finish_dispatch quiet_refl by (metis loop.exhaust)
  from drain_channel [OF s1(2,3), of A] obtain s2 where s2: "quiet_run A s1 s2" "\<not> sRaced s2"
    "sLoop s2 = Idle" "csRecvMsgCh (sSvc s2) = []" "sWaiting s2 = sWaiting s" "sAccepted s2 = sAccepted s"
    using s1 by auto
  from flush_waiting [OF s2(2-4), of A] obtain s3 where s3: "quiet_run A s2 s3" "sLoop s3 = Idle"
    "csRecvMsgCh (sSvc s3) = []" "sWaiting s3 = []" "sAccepted s3 = sAccepted s2 @ sWaiting s2" by auto
  have "quiet_run A s s3"
    by (rule quiet_trans [OF quiet_trans [OF s1(1) s2(1)] s3(1)])
  with s2 s3 show ?thesis by (intro exI [of _ s3]) simp
qed

lemma drain_calls_from:
  assumes run: "svc_run A s0 es s" and inv: "svc_inv T fid s0" and stays: "Unregister fid \<notin> set es"
    and live: "\<not> sRaced s" "sLoop s \<noteq> Exited"
  shows "\<exists>es' s'. svc_run A s es' s' \<and> (\<forall>e\<in>set es'. system_event e) \<and> sWaiting s' = [] \<and>
    T @ calls_of fid s' = sAccepted s @ sWaiting s"
proof -
  from settle [OF live, of A] obtain es' s' where s': "svc_run A s es' s'" "\<forall>e\<in>set es'. system_event e"
    "sLoop s' = Idle" "csRecvMsgCh (sSvc s') = []" "sWaiting s' = []" "sAccepted s' = sAccepted s @ sWaiting s"
    by (auto simp: quiet_run_def)
  have "Unregister fid \<notin> set (es @ es')" using stays s'(2) by auto
  then have "svc_inv T fid s'"
    by (rule svc_inv_run [OF svc_run_append [OF s'(1) run] inv])
  with s' show ?thesis
    by (intro exI [of _ es'] exI [of _ s']) (simp add: svc_inv_def)
qed

lemma drain_calls:
  assumes run: "svc_run A (cs_Start c) es s"
    and reg: "distinct (map fst (csHandleMsgFn c))" "fid \<in> fst ` set (csHandleMsgFn c)"
    and new: "csRecvMsgCh c = []" and stays: "Unregister fid \<notin> set es"
    and live: "\<not> sRaced s" "sLoop s \<noteq> Exited"
  shows "\<exists>es' s'. svc_run A s es' s' \<and> (\<forall>e\<in>set es'. system_event e) \<and> sWaiting s' = [] \<and>
    calls_of fid s' = sAccepted s @ sWaiting s"
  using drain_calls_from [OF run svc_inv_Start [OF reg new] stays live] by simp

text \<open>
  Property C15: nothing gets stuck while the loop runs. From every reachable state without a
  registry race in which the loop has not returned, however full the channel is and however many requests
  wait, the service can go on by itself, with no further call from outside, until every
  message accepted or waiting has been handed to the handler, each as often as it arrived.
\<close>

theorem dispatcher_drains:
  assumes run: "svc_run A (cs_Start c) es s"
    and reg: "distinct (map fst (csHandleMsgFn c))" "fid \<in> fst ` set (csHandleMsgFn c)"
    and new: "csRecvMsgCh c = []" and stays: "Unregister fid \<notin> set es"
    and live: "\<not> sRaced s" "sLoop s \<noteq> Exited"
  shows "\<exists>es' s'. svc_run A s es' s' \<and> (\<forall>e\<in>set es'. system_event e) \<and> sWaiting s' = [] \<and>
    calls_of fid s' = sAccepted s @ sWaiting s"
  by (rule drain_calls [OF run reg new stays live])

theorem dispatcher_drains_witness:
  "\<exists>es' s'. svc_run ref_codecs demo_state es' s' \<and> calls_of ''h'' s' = [demo_msg, demo_msg]"
  using dispatcher_drains [OF demo_run, of "''h''"] by (auto simp: demo_events_def)

section \<open>Acknowledgements\<close>

lemma ack_step:
  assumes "svc_step A s e s'" and "\<not> done_closed s" and "sAcked s = sAccepted s" and "e \<noteq> CallStop" "e \<noteq> CancelCtx"
  shows "\<not> done_closed s' \<and> sAcked s' = sAccepted s'"
  using assms
  by (induction rule: svc_step.induct)
    (auto simp: done_closed_def AppendHandleMsg_def DropHandleMsg_def Let_def)

lemma ack_run:
  "svc_run A s es s' \<Longrightarrow> \<not> done_closed s \<and> sAcked s = sAccepted s \<Longrightarrow> CallStop \<notin> set es \<Longrightarrow>
    CancelCtx \<notin> set es \<Longrightarrow> \<not> done_closed s' \<and> sAcked s' = sAccepted s'"
proof (induction rule: svc_run.induct)
  case (run_snoc s es s' e s'')
  then show ?case by (intro ack_step [OF run_snoc(2)]) auto
qed

lemma exited_step:
  assumes "svc_step A s e s'" and "sLoop s = Exited"
  shows "sLoop s' = Exited \<and> sStarted s' = sStarted s"
  using assms by (induction rule: svc_step.induct) auto

lemma exited_run:
  "svc_run A s es s' \<Longrightarrow> sLoop s = Exited \<Longrightarrow> sLoop s' = Exited \<and> sStarted s' = sStarted s"
proof (induction rule: svc_run.induct)
  case (run_snoc s es s' e s'')
  then show ?case using exited_step [OF run_snoc(2)] by auto
qed simp

text \<open>
  Until the service is stopped or its context cancelled, an acknowledgement is
  truthful: the messages answered with success are those that entered the channel, in order.
\<close>

theorem ack_means_accepted:
  assumes run: "svc_run A (cs_Start c) es s" and new: "csRecvMsgCh c = []" "\<not> csStop c"
    and on: "CallStop \<notin> set es" "CancelCtx \<notin> set es"
  shows "sAcked s = sAccepted s"
  using ack_run [OF run _ on] new by (simp add: cs_Start_def done_closed_def)

theorem ack_means_accepted_witness:
  "sAcked demo_state = [demo_msg] \<and> sAcked demo_state = sAccepted demo_state"
  using ack_means_accepted [OF demo_run]
  by (simp add: demo_svc_def demo_events_def demo_state_def)

text \<open>
  Property C22: a stopped service still answers success, and the message is lost. Once
  the service is stopped and its loop has returned, any request that decodes can be answered
  with success without the message entering the channel, and no run from there on starts a
  handler with any message.
\<close>

theorem stopped_service_loses:
  assumes stop: "csStop (sSvc s)" "sLoop s = Exited" "\<not> sRaced s"
    and req: "length (Message_Bytes A m) \<le> MAX_PKG" and am: "amino_laws A"
  shows "\<exists>s'. svc_run A s [Request (Message_Bytes A m), Unblocked m] s' \<and>
    sAcked s' = sAcked s @ [m] \<and> sAccepted s' = sAccepted s \<and>
    (\<forall>es s''. svc_run A s' es s'' \<longrightarrow> sStarted s'' = sStarted s)"
proof -
  let ?s1 = "s\<lparr>sWaiting := sWaiting s @ [m]\<rparr>"
  let ?s2 = "?s1\<lparr>sWaiting := remove1 m (sWaiting ?s1), sAcked := sAcked ?s1 @ [m]\<rparr>"
  have "svc_step A s (Request (Message_Bytes A m)) ?s1"
    using stop(3) amino_laws.Message_read [OF am req] by (rule svc_step.request)
  moreover have "svc_step A ?s1 (Unblocked m) ?s2"
    using stop by (intro svc_step.unblocked) (simp_all add: done_closed_def)
  ultimately have "svc_run A s ([] @ [Request (Message_Bytes A m)] @ [Unblocked m]) ?s2"
    by (metis append.assoc svc_run.run_nil svc_run.run_snoc)
  moreover have "sStarted s'' = sStarted s" if "svc_run A ?s2 es s''" for es s''
    using exited_run [OF that] stop(2) by simp
  ultimately show ?thesis by (intro exI [of _ ?s2]) simp
qed

theorem stopped_service_loses_witness:
  "\<exists>s'. svc_run ref_codecs (demo_state\<lparr>sSvc := demo_svc\<lparr>csStop := True\<rparr>, sLoop := Exited\<rparr>)
      [Request (Message_Bytes ref_codecs demo_msg), Unblocked demo_msg] s' \<and>
    sAcked s' = [demo_msg, demo_msg] \<and> sAccepted s' = [demo_msg]"
  using stopped_service_loses [of "demo_state\<lparr>sSvc := demo_svc\<lparr>csStop := True\<rparr>, sLoop := Exited\<rparr>" ref_codecs demo_msg]
    ref_msg_size refc.amino_laws_axioms
  by (auto simp: demo_state_def demo_msg_def)

end
