(* ===== verification/Network.thy ===== *)
theory Network
  imports ServiceProps
begin

text \<open>
  Nodes talking to a mailbox node. The locale states what the p2p service does for a client
  of a mailbox: a request to a protocol the mailbox registered runs that handler on the
  mailbox's database and brings back what it wrote. Sending, querying and clearing are then
  proved end to end, through both codecs and both ends of each call.
\<close>

locale mailbox_client =
  mailbox_store L ok view A srt fn
  for L :: "'d leveldb" and ok :: "'d \<Rightarrow> bool" and view :: "'d \<Rightarrow> bytes \<rightharpoonup> bytes"
    and A :: codecs and srt :: "Message list \<Rightarrow> Message list" and fn :: string +
  fixes us :: "nat \<Rightarrow> string" and box :: string and dbs :: "'w \<Rightarrow> 'd"
    and P :: "'w p2p" and me :: string
  assumes serves: "(pid, h) \<in> set (mailbox_Start L A srt None us \<lparr>mbMyid = box, mbStop = False, mbDb = LDBDatabase fn\<rparr>) \<Longrightarrow>
    h me rw (dbs w) = Returns (out, None, d') \<Longrightarrow>
    \<exists>w'. pRequest P box pid rw t w = (Inr out, w') \<and> dbs w' = d'"
begin

lemma store_request:
  assumes "ok (dbs w)" and "length (Message_Bytes A m) \<le> MAX_PKG"
    and "eType (mEnvelope m) = NormalMsg \<or> eType (mEnvelope m) = GroupMsg"
  shows "\<exists>w'. pRequest P box PID_MAILBOX (Message_Bytes A m) t w = (Inr SUCCESS, w') \<and>
    dbs w' = snd (putMsg L A (LDBDatabase fn) m (dbs w))"
proof (rule serves)
  show "(PID_MAILBOX, \<lambda>caller rw d. Returns (msgService L A (LDBDatabase fn) rw d)) \<in>
      set (mailbox_Start L A srt None us \<lparr>mbMyid = box, mbStop = False, mbDb = LDBDatabase fn\<rparr>)"
    by (simp add: mailbox_Start_def)
  show "Returns (msgService L A (LDBDatabase fn) (Message_Bytes A m) (dbs w)) =
      Returns (SUCCESS, None, snd (putMsg L A (LDBDatabase fn) m (dbs w)))"
    using assms put_result(1) [OF assms(1), of m]
    by (auto simp: msgService_def Message_read verifyMsg_def elim: fst_None_E)
qed

lemma query_request:
  assumes "Mailid jid = box" and "length (encoded (cJID A) jid) \<le> 128"
  shows "\<exists>w'. mailbox_QueryMsg A P jid w =
      ((Some (doQueryMsg L A srt (LDBDatabase fn) jid (dbs w)), None), w') \<and> dbs w' = dbs w"
proof -
  let ?b = "doQueryMsg L A srt (LDBDatabase fn) jid (dbs w)"
  have "\<exists>w'. pRequest P box PID_MAILBOX_QUERY (encoded (cJID A) jid) request_timeout w = (Inr (Bag_Bytes A ?b), w') \<and>
    dbs w' = dbs w"
  proof (rule serves)
    show "(PID_MAILBOX_QUERY, \<lambda>caller rw d. Returns (queryService L A srt (LDBDatabase fn) None rw d)) \<in>
        set (mailbox_Start L A srt None us \<lparr>mbMyid = box, mbStop = False, mbDb = LDBDatabase fn\<rparr>)"
      by (simp add: mailbox_Start_def)
    show "Returns (queryService L A srt (LDBDatabase fn) None (encoded (cJID A) jid) (dbs w)) =
        Returns (Bag_Bytes A ?b, None, dbs w)"
      using jidc.reader_encoded [of jid 128] assms(2) by (simp add: queryService_def)
  qed
  then show ?thesis
    using assms(1) by (auto simp: mailbox_QueryMsg_def jidc.marshal_encoded Let_def)
qed

lemma clean_request:
  assumes "Mailid jid = box" and "length (encoded (cClean A) \<lparr>cJid = jid, cIds = ids\<rparr>) \<le> 2 * 1024 * 1024"
  shows "\<exists>w'. mailbox_CleanMsg A P jid ids w = (None, w') \<and>
    dbs w' = doCleanMsg L (LDBDatabase fn) \<lparr>cJid = jid, cIds = ids\<rparr> (dbs w)"
proof -
  let ?c = "\<lparr>cJid = jid, cIds = ids\<rparr>"
  have "\<exists>w'. pRequest P box PID_MAILBOX_CLEAN (encoded (cClean A) ?c) request_timeout w = (Inr [], w') \<and>
    dbs w' = doCleanMsg L (LDBDatabase fn) ?c (dbs w)"
  proof (rule serves)
    show "(PID_MAILBOX_CLEAN, \<lambda>caller rw d. Returns (cleanService L A (LDBDatabase fn) rw d)) \<in>
        set (mailbox_Start L A srt None us \<lparr>mbMyid = box, mbStop = False, mbDb = LDBDatabase fn\<rparr>)"
      by (simp add: mailbox_Start_def)
    show "Returns (cleanService L A (LDBDatabase fn) (encoded (cClean A) ?c) (dbs w)) =
        Returns ([], None, doCleanMsg L (LDBDatabase fn) ?c (dbs w))"
      using cleanc.reader_encoded [of ?c "2 * 1024 * 1024"] assms(2) by (simp add: cleanService_def)
  qed
  then show ?thesis
    using assms(1) by (auto simp: mailbox_CleanMsg_def cleanc.marshal_encoded)
qed

text \<open>Sending to a peer that cannot be reached stores the message in its mailbox.\<close>

lemma send_offline:
  assumes "ok (dbs w)" and "length (Message_Bytes A m) \<le> MAX_PKG"
    and "eType (mEnvelope m) = NormalMsg" and "Mailid (eTo (mEnvelope m)) = box"
    and "pRequest P (Peerid (eTo (mEnvelope m))) PID_NORMAL (Message_Bytes A m) request_timeout w = (Inl e, w1)"
    and "dbs w1 = dbs w"
  shows "\<exists>w'. SendMsg A P m w = (None, w') \<and> dbs w' = snd (putMsg L A (LDBDatabase fn) m (dbs w))"
  using store_request [of w1 m request_timeout] assms by (auto simp: SendMsg_def send_or_store_def)

end

section \<open>A reference network\<close>

text \<open>
  For the witnesses: the world is the database of one mailbox node, every other peer is
  offline. The handlers run as registered.
\<close>

definition ref_box :: string where "ref_box = peer_of CHR ''m''"

definition ref_table :: "(string \<times> mem handler) list" where
  "ref_table = mailbox_Start mem_leveldb ref_codecs (sort_key (\<lambda>m. eCt (mEnvelope m))) None
    (\<lambda>n. ''u'') \<lparr>mbMyid = ref_box, mbStop = False, mbDb = LDBDatabase ''mb''\<rparr>"

definition ref_p2p :: "string \<Rightarrow> mem p2p" where
  "ref_p2p me =
    \<lparr>pRequest = (\<lambda>to pid rw t w.
       if to \<noteq> ref_box then (Inl ''dial failed'', w)
       else (case map_of ref_table pid of
               None \<Rightarrow> (Inl ''protocol not supported'', w)
             | Some h \<Rightarrow> (case h me rw w of
                   Returns (out, None, d') \<Rightarrow> (Inr out, d')
                 | Returns (out, Some e, d') \<Rightarrow> (Inl ''stream reset'', d')
                 | Panics \<Rightarrow> (Inl ''stream reset'', w)
                 | Hangs \<Rightarrow> (Inl ''timeout'', w)))),
     pMyid = (\<lambda>w. me), pPeers = (\<lambda>w. ([], [], 0)), pFindpeer = (\<lambda>p w. Inl ''not found'')\<rparr>"

lemma ref_table_distinct: "distinct (map fst ref_table)"
  by (simp add: ref_table_def mailbox_Start_def groupService_def Let_def PID_defs)

lemma ref_serves:
  "(pid, h) \<in> set ref_table \<Longrightarrow> h me rw w = Returns (out, None, d') \<Longrightarrow>
    pRequest (ref_p2p me) ref_box pid rw t w = (Inr out, d')"
  using map_of_is_SomeI [OF ref_table_distinct, of pid h] by (simp add: ref_p2p_def)

interpretation ref_net: mailbox_client mem_leveldb mem_ok map_of ref_codecs "sort_key (\<lambda>m. eCt (mEnvelope m))"
  "''mb''" "\<lambda>n. ''u''" ref_box "\<lambda>w. w" "ref_p2p me" me for me
  by unfold_locales (use ref_serves in \<open>auto simp: ref_table_def\<close>)

lemmas ref_client = ref_net.mailbox_client_axioms

section \<open>Delivery to a peer that is offline\<close>

lemma query_then_clean:
  assumes net: "mailbox_client L ok view A srt fn us box dbs P me" and ok: "ok (dbs w)"
    and jid: "53 \<le> length (csMyid c)" "Mailid (csMyid c) = box"
    and keyed: "\<And>i m. mbox_abs A (view (dbs w)) (Peerid (csMyid c)) i = Some m \<Longrightarrow> eId (mEnvelope m) = i"
    and ms: "ms = Messages (doQueryMsg L A srt (LDBDatabase fn) (csMyid c) (dbs w))"
    and fits: "length (encoded (cJID A) (csMyid c)) \<le> 128"
      "length (encoded (cClean A) \<lparr>cJid = csMyid c, cIds = map (\<lambda>m. eId (mEnvelope m)) ms\<rparr>) \<le> 2 * 1024 * 1024"
  shows "\<exists>w1 e w2. cs_QueryMsg A P c w = ((Some (doQueryMsg L A srt (LDBDatabase fn) (csMyid c) (dbs w)), None), w1) \<and>
    cs_CleanMsg A P c (map (\<lambda>m. eId (mEnvelope m)) ms) w1 = (e, w2) \<and>
    Messages (doQueryMsg L A srt (LDBDatabase fn) (csMyid c) (dbs w2)) = []"
proof -
  let ?q = "doQueryMsg L A srt (LDBDatabase fn) (csMyid c)" and ?ids = "map (\<lambda>m. eId (mEnvelope m)) ms"
  have env: "mailbox_store L ok view A srt" using net by (simp add: mailbox_client_def)
  from mailbox_client.query_request [OF net jid(2) fits(1), of w] obtain w1 where
    w1: "cs_QueryMsg A P c w = ((Some (?q (dbs w)), None), w1)" "dbs w1 = dbs w"
    by (auto simp: cs_QueryMsg_def)
  obtain e w2 where w2: "cs_CleanMsg A P c ?ids w1 = (e, w2)"
    by (cases "cs_CleanMsg A P c ?ids w1")
  have "Messages (?q (dbs w2)) = []"
  proof (cases "ms = []")
    case True
    with w2 w1(2) ms show ?thesis by (simp add: cs_CleanMsg_def)
  next
    case False
    with mailbox_client.clean_request [OF net jid(2) fits(2), of w1] w2 w1(2)
    have "dbs w2 = doCleanMsg L (LDBDatabase fn) \<lparr>cJid = csMyid c, cIds = ?ids\<rparr> (dbs w)"
      by (auto simp: cs_CleanMsg_def)
    then show ?thesis
      using drain_result [OF env, OF ok keyed jid(1), of fn] ms by simp
  qed
  with w1(1) w2 show ?thesis by blast
qed

lemma put_found:
  assumes env: "mailbox_store L ok view A srt" and ok: "ok d" and mid: "eId (mEnvelope m) \<noteq> []"
  shows "m \<in> set (Messages (doQueryMsg L A srt (LDBDatabase fn) (eTo (mEnvelope m)) (snd (putMsg L A (LDBDatabase fn) m d))))"
proof -
  note put = mailbox_store.put_result [OF env ok, of fn m]
  have "mbox_abs A (view (snd (putMsg L A (LDBDatabase fn) m d))) (Peerid (eTo (mEnvelope m))) (eId (mEnvelope m)) = Some m"
    by (simp add: put(3) mbox_abs_def mailbox_store.decode_bytes [OF env])
  then show ?thesis using mid mailbox_store.query_set [OF env put(2)] by blast
qed

lemma put_keyed:
  assumes env: "mailbox_store L ok view A srt" and ok: "ok d" and to: "53 \<le> length (eTo (mEnvelope m))"
    and keyed: "\<And>i m. mbox_abs A (view d) p i = Some m \<Longrightarrow> eId (mEnvelope m) = i" and p: "length p = 53"
    and here: "mbox_abs A (view (snd (putMsg L A (LDBDatabase fn) m d))) p i = Some m'"
  shows "eId (mEnvelope m') = i"
proof -
  from here have "spec_put m (mbox_abs A (view d)) p i = Some m'"
    using mailbox_store.abs_put [OF env p to] by (simp add: mailbox_store.put_result [OF env ok])
  with keyed show ?thesis by (auto simp: spec_put_def Let_def split: if_splits)
qed

text \<open>
  A normal message to a peer that cannot be reached, from the call that sends it to the peer's two queries
  and the clear between them; the ids of the messages stored before are their keys.
\<close>

lemma send_query_clear:
  assumes alice: "mailbox_client L ok view A srt fn us box dbs Pa alice"
    and bob: "mailbox_client L ok view A srt fn us box dbs Pb bob"
    and ok: "ok (dbs w)" and ty: "eType (mEnvelope m) = NormalMsg"
    and to: "eTo (mEnvelope m) = csMyid c" and mid: "eId (mEnvelope m) \<noteq> []"
    and jid: "53 \<le> length (csMyid c)" "Mailid (csMyid c) = box"
    and off: "pRequest Pa (Peerid (csMyid c)) PID_NORMAL (Message_Bytes A m) request_timeout w = (Inl e, w1)"
      "dbs w1 = dbs w"
    and keyed: "\<And>i m. mbox_abs A (view (dbs w)) (Peerid (csMyid c)) i = Some m \<Longrightarrow> eId (mEnvelope m) = i"
    and fits: "length (Message_Bytes A m) \<le> MAX_PKG" "length (encoded (cJID A) (csMyid c)) \<le> 128"
      "length (encoded (cClean A) \<lparr>cJid = csMyid c, cIds = map (\<lambda>m. eId (mEnvelope m)) (Messages
        (doQueryMsg L A srt (LDBDatabase fn) (csMyid c) (snd (putMsg L A (LDBDatabase fn) m (dbs w)))))\<rparr>) \<le> 2 * 1024 * 1024"
  shows "\<exists>w2 b w3 w4 b' w5. SendMsg A Pa m w = (None, w2) \<and>
    cs_QueryMsg A Pb c w2 = ((Some b, None), w3) \<and> m \<in> set (Messages b) \<and>
    cs_CleanMsg A Pb c (map (\<lambda>m. eId (mEnvelope m)) (Messages b)) w3 = (None, w4) \<and>
    cs_QueryMsg A Pb c w4 = ((Some b', None), w5) \<and> Messages b' = []"
proof -
  have env: "mailbox_store L ok view A srt"
    using alice by (simp add: mailbox_client_def)
  let ?d = "snd (putMsg L A (LDBDatabase fn) m (dbs w))"
  let ?q = "doQueryMsg L A srt (LDBDatabase fn) (csMyid c)"
  let ?ids = "map (\<lambda>m. eId (mEnvelope m)) (Messages (?q ?d))"
  note put = mailbox_store.put_result [OF env ok, of fn m]
  from mailbox_client.send_offline [OF alice ok fits(1) ty _ _ off(2)] off(1) to jid(2)
  obtain w2 where w2: "SendMsg A Pa m w = (None, w2)" "dbs w2 = ?d" by auto
  from mailbox_client.query_request [OF bob jid(2) fits(2), of w2] w2(2)
  obtain w3 where w3: "cs_QueryMsg A Pb c w2 = ((Some (?q ?d), None), w3)" "dbs w3 = ?d"
    by (auto simp: cs_QueryMsg_def)
  have m: "m \<in> set (Messages (?q ?d))"
    using put_found [OF env ok mid] to by simp
  then have "?ids \<noteq> []" by auto
  with mailbox_client.clean_request [OF bob jid(2) fits(3), of w3] w3(2)
  obtain w4 where w4: "cs_CleanMsg A Pb c ?ids w3 = (None, w4)"
    "dbs w4 = doCleanMsg L (LDBDatabase fn) \<lparr>cJid = csMyid c, cIds = ?ids\<rparr> ?d"
    by (auto simp: cs_CleanMsg_def)
  from mailbox_client.query_request [OF bob jid(2) fits(2), of w4]
  obtain w5 where w5: "cs_QueryMsg A Pb c w4 = ((Some (?q (dbs w4)), None), w5)"
    by (auto simp: cs_QueryMsg_def)
  have "Messages (?q (dbs w4)) = []"
    unfolding w4(2)
  proof (rule drain_result [OF env put(2) _ jid(1)])
    show "eId (mEnvelope m') = i" if "mbox_abs A (view ?d) (Peerid (csMyid c)) i = Some m'" for i m'
      by (rule put_keyed [OF env ok _ keyed _ that]) (use to jid(1) in \<open>auto simp: length_Peerid\<close>)
  qed
  with w2(1) w3(1) m w4(1) w5 show ?thesis by blast
qed

definition bob_jid :: JID where "bob_jid = NewJID (peer_of CHR ''b'') ref_box"

definition bob_svc :: "unit ChatService" where
  "bob_svc = demo_svc\<lparr>csMyid := bob_jid\<rparr>"

definition msg_to_bob :: Message where "msg_to_bob = msg_to_peer ''m1'' bob_jid 7"

lemma bob_facts [simp]:
  "Peerid bob_jid = peer_of CHR ''b''" "Mailid bob_jid = ref_box" "length bob_jid = 106"
  "csMyid bob_svc = bob_jid" "eTo (mEnvelope msg_to_bob) = bob_jid" "eId (mEnvelope msg_to_bob) = ''m1''"
  "eType (mEnvelope msg_to_bob) = NormalMsg" "peer_of CHR ''b'' \<noteq> ref_box"
  by (simp_all add: bob_jid_def Peerid_NewJID Mailid_NewJID ref_box_def bob_svc_def msg_to_bob_def)
    (simp_all add: NewJID_def peer_of_def)

lemma bob_sizes:
  "length (Message_Bytes ref_codecs msg_to_bob) \<le> MAX_PKG"
  by (simp add: msg_to_bob_def Message_Bytes_def encoded_def ref_codecs_def field_codec_def Let_def msg_to_def env_to_def
      msg_to_peer_def NewNormalMessage_def newMessage_def zero_Envelope_def length_pack int_str_def
      NormalMsg_def NoACK_def MAX_PKG_def)

lemma ref_query_one:
  assumes "53 \<le> length (eTo (mEnvelope m))" and "eId (mEnvelope m) \<noteq> []"
  shows "Messages (doQueryMsg mem_leveldb ref_codecs (sort_key (\<lambda>m. eCt (mEnvelope m))) (LDBDatabase fn) (eTo (mEnvelope m))
    (snd (putMsg mem_leveldb ref_codecs (LDBDatabase fn) m []))) = [m]"
proof -
  let ?d = "snd (putMsg mem_leveldb ref_codecs (LDBDatabase fn) m [])" and ?p = "Peerid (eTo (mEnvelope m))"
  have abs: "mbox_abs ref_codecs (map_of ?d) ?p = [eId (mEnvelope m) \<mapsto> m]"
    by (simp add: ref_put_view mbox_abs_def fun_eq_iff)
  then have "spec_ids (mbox_abs ref_codecs (map_of ?d)) ?p = {eId (mEnvelope m)}"
    using assms(2) by (auto simp: spec_ids_def)
  then have "spec_list (mbox_abs ref_codecs (map_of ?d)) ?p = {#m#}"
    by (simp add: spec_list_def abs)
  then have "mset (Messages (doQueryMsg mem_leveldb ref_codecs (sort_key (\<lambda>m. eCt (mEnvelope m)))
      (LDBDatabase fn) (eTo (mEnvelope m)) ?d)) = {#m#}"
    by (simp only: ref_mbox.query_mset [OF ref_mbox.put_result(2) [OF mem_ok_empty]])
  then show ?thesis by simp
qed

lemma bob_query:
  "Messages (doQueryMsg mem_leveldb ref_codecs (sort_key (\<lambda>m. eCt (mEnvelope m))) (LDBDatabase ''mb'') bob_jid
    (snd (putMsg mem_leveldb ref_codecs (LDBDatabase ''mb'') msg_to_bob []))) = [msg_to_bob]"
  using ref_query_one [of msg_to_bob "''mb''"] by simp

lemma clean_size: "length (encoded (cClean ref_codecs) \<lparr>cJid = j, cIds = [i]\<rparr>) = 2 * (Suc (length j + length i))"
  by (simp add: encoded_def ref_codecs_def field_codec_def Let_def clean_to_def length_pack)

section \<open>What sending does\<close>

text \<open>
  What sending reports. A normal message is reported sent exactly when its
  recipient or, failing that, the recipient's mailbox answered the request at all, whatever
  the answer says; the mailbox is not asked when the recipient answered. A message that is
  neither normal nor for a group is refused without any request.
\<close>

theorem send_outcomes:
  "(eType (mEnvelope m) = NormalMsg \<longrightarrow>
     (case pRequest P (Peerid (eTo (mEnvelope m))) PID_NORMAL (Message_Bytes A m) request_timeout w of
        (Inr reply, w1) \<Rightarrow> SendMsg A P m w = (None, w1)
      | (Inl e, w1) \<Rightarrow>
          (fst (SendMsg A P m w) = None \<longleftrightarrow>
            (\<exists>reply w2. pRequest P (Mailid (eTo (mEnvelope m))) PID_MAILBOX (Message_Bytes A m) request_timeout w1 =
              (Inr reply, w2))))) \<and>
   (eType (mEnvelope m) \<notin> {NormalMsg, GroupMsg} \<longrightarrow> SendMsg A P m w = (Some ''not support yet'', w))"
  by (auto simp: SendMsg_def send_or_store_def split: prod.splits sum.splits)

text \<open>
  A group message is never delivered directly, and what its mailbox stores no
  query of a member returns. No node registers a handler for the protocol it is sent on, and
  the message that the put handler of the mailbox stores is keyed by the recipient field,
  not the group: with an empty recipient, as \<open>SendMsg\<close> needs none for a group message, the mailbox
  of a full-length peer shows the same messages as before, unless the message id starts with that peer's id.
\<close>

theorem group_message_unseen:
  assumes env: "mailbox_store L ok view A srt" and ok: "ok d"
    and to: "eTo (mEnvelope m) = []" and jid: "53 \<le> length jid"
    and mid: "\<not> prefix (Peerid jid) (eId (mEnvelope m))"
  shows "PID_GROUP \<notin> fst ` set (mailbox_Start L A srt werr us mb) \<and> PID_GROUP \<noteq> PID_NORMAL \<and>
    mset (Messages (doQueryMsg L A srt (LDBDatabase fn) jid (snd (putMsg L A (LDBDatabase fn) m d)))) =
    mset (Messages (doQueryMsg L A srt (LDBDatabase fn) jid d))"
proof (intro conjI)
  let ?d' = "snd (putMsg L A (LDBDatabase fn) m d)"
  note put = mailbox_store.put_result [OF env ok, of fn m]
  have "Peerid jid @ i \<noteq> eId (mEnvelope m)" for i
    using mid by (metis prefixI)
  then have "mbox_abs A (view ?d') (Peerid jid) i = mbox_abs A (view d) (Peerid jid) i" for i
    by (simp add: put(3) mbox_abs_def to Peerid_short)
  then have "spec_list (mbox_abs A (view ?d')) (Peerid jid) = spec_list (mbox_abs A (view d)) (Peerid jid)"
    by (intro spec_list_cong)
  then show "mset (Messages (doQueryMsg L A srt (LDBDatabase fn) jid ?d')) =
      mset (Messages (doQueryMsg L A srt (LDBDatabase fn) jid d))"
    by (simp add: mailbox_store.query_mset [OF env] ok put)
qed (simp_all add: mailbox_Start_def groupService_def Let_def PID_defs)

theorem group_message_unseen_witness:
  "mset (Messages (doQueryMsg mem_leveldb ref_codecs (sort_key (\<lambda>m. eCt (mEnvelope m))) (LDBDatabase ''mb'')
      (peer_of CHR ''a'') (snd (putMsg mem_leveldb ref_codecs (LDBDatabase ''mb'') (msg_to_peer ''m1'' [] 7) [])))) =
    mset (Messages (doQueryMsg mem_leveldb ref_codecs (sort_key (\<lambda>m. eCt (mEnvelope m))) (LDBDatabase ''mb'')
      (peer_of CHR ''a'') []))"
proof -
  have "\<not> prefix (peer_of CHR ''a'') ''m1''"
    using prefix_length_le [of "peer_of CHR ''a''" "''m1''"] by auto
  then show ?thesis
    using group_message_unseen [OF ref_mailbox_store mem_ok_empty, of "msg_to_peer ''m1'' [] 7" "peer_of CHR ''a''"]
    by simp
qed

end
