(* ===== verification/GroupAdmin.thy ===== *)
theory GroupAdmin
  imports GroupProps Network
begin

text \<open>
  The group handlers as a whole: creating a group and updating it, over the network too, what a request
  for a member change does, and how the tables of groups and members overlap.
\<close>

section \<open>What a member change writes\<close>

text \<open>The second state differs from the first in entries under a prefix at most.\<close>

definition only_under ::
    "('d \<Rightarrow> bool) \<Rightarrow> ('d \<Rightarrow> bytes \<rightharpoonup> bytes) \<Rightarrow> string \<Rightarrow> 'd \<Rightarrow> 'd \<Rightarrow> bool" where
  "only_under ok view p d d' \<longleftrightarrow> ok d' \<and> (\<forall>k. \<not> prefix p k \<longrightarrow> view d' k = view d k)"

text \<open>Everything a change writes is in the member table, under the id of the group.\<close>

definition group_area :: "groupdb \<Rightarrow> GID \<Rightarrow> string" where
  "group_area g gid = db_prefix (memberTab g) @ gid"

lemma only_under_weaken: "only_under ok view p d d' \<Longrightarrow> prefix q p \<Longrightarrow> only_under ok view q d d'"
  by (auto simp: only_under_def dest: prefix_order.trans)

lemma member_keys_area:
  "prefix gid (memberK gid i)" "prefix gid (memberLastK gid)" "prefix gid (memberLogK gid l)"
  "prefix gid (memberLastlogK gid)"
  by (simp_all add: memberK_def memberLastK_def memberLogK_def memberLastlogK_def)

text \<open>No member item of any group, nor its last key, differs.\<close>

definition same_items ::
    "codecs \<Rightarrow> ('d \<Rightarrow> bytes \<rightharpoonup> bytes) \<Rightarrow> groupdb \<Rightarrow> 'd \<Rightarrow> 'd \<Rightarrow> bool" where
  "same_items A view g d d' \<longleftrightarrow>
    (\<forall>h. items A (db_contents view (memberTab g) d') h = items A (db_contents view (memberTab g) d) h \<and>
      last_readable A (db_contents view (memberTab g) d') h = last_readable A (db_contents view (memberTab g) d) h)"

lemma items_upd_log [store_simps]:
  "items A (c(memberLogK gid l := x)) h = items A c h"
  "items A (c(memberLastlogK gid := x)) h = items A c h"
  by (auto simp: items_def item_at_def last_at_def fun_eq_iff key_simps)

lemma last_readable_upd_log [store_simps]:
  "last_readable A (c(memberLogK gid l := x)) h = last_readable A c h"
  "last_readable A (c(memberLastlogK gid := x)) h = last_readable A c h"
  by (auto simp: last_readable_def last_at_def key_simps)

lemma exp_req_actions:
  assumes "exp_req r = r" and "Some m \<in> set (rqMembers r)"
  shows "gmAction m = []"
proof -
  have "rqMembers r = map (map_option exp_member) (rqMembers r)"
    using arg_cong [OF assms(1), of rqMembers] by (simp add: exp_req_def)
  with assms(2) have "Some m \<in> map_option exp_member ` set (rqMembers r)"
    by (metis list.set_map)
  then obtain x where "Some m = map_option exp_member x" by blast
  then show ?thesis by (cases x) (simp_all add: exp_member_def)
qed

declare db_Put.simps [simp del] db_Get.simps [simp del]

context member_store
begin

lemma group_decoded: "aUnmarshal (cGroup A) (encoded (cGroup A) grp) zero_Group = (None, exp_group grp)"
  by (rule groupc.unmarshal_encoded) simp

lemma group_read:
  "length (encoded (cGroup A) grp) \<le> 10 * MAX_PKG \<Longrightarrow>
    aUnmarshalReader (cGroup A) (encoded (cGroup A) grp) zero_Group (10 * MAX_PKG) = (None, exp_group grp)"
  by (rule groupc.reader_encoded) (simp_all add: MAX_PKG_def)

lemma grsp_decoded: "aUnmarshal (cGroupRsp A) (encoded (cGroupRsp A) r) zero_GroupRsp = (None, exp_grsp r)"
  by (rule grspc.unmarshal_encoded) simp

lemma group_bytes: "toByte (cGroup A) grp = Inr (encoded (cGroup A) grp)"
  unfolding toByte_def by (rule groupc.marshal_encoded) simp

lemma req_decoded: "aUnmarshalReader (cMemberReq A) rw zero_MemberReq n = (None, r) \<Longrightarrow> exp_req r = r"
  by (rule reqc.reader_exported)

lemma log_decoded: "aUnmarshal (cMemberLog A) (encoded (cMemberLog A) x) zero_MemberLog = (None, x)"
  by (rule logc.unmarshal_encoded) simp

lemma only_refl: "ok d \<Longrightarrow> only_under ok view p d d"
  by (simp add: only_under_def)

lemma only_trans: "only_under ok view p d d' \<Longrightarrow> only_under ok view p d' d'' \<Longrightarrow> only_under ok view p d d''"
  by (simp add: only_under_def)

lemma only_put:
  "only_under ok view (group_area g gid) d d1 \<Longrightarrow> prefix gid k \<Longrightarrow>
    only_under ok view (group_area g gid) d (snd (db_Put L (memberTab g) k v d1))"
  by (auto simp: only_under_def group_area_def db_Put_prefix lv_put_ok lv_put_view)

lemma only_del:
  "only_under ok view (group_area g gid) d d1 \<Longrightarrow> prefix gid k \<Longrightarrow>
    only_under ok view (group_area g gid) d (snd (db_Delete L (memberTab g) k d1))"
  by (auto simp: only_under_def group_area_def db_Delete_prefix lv_delete_ok lv_delete_view)

lemmas only_rules = only_refl only_put only_del member_keys_area

lemma append_log_full:
  assumes "ok d"
  shows "\<exists>x d'. append_log L A g uuid gm d = Some (encoded (cMemberLog A) x, d') \<and> mlId x = uuid \<and>
    ok d' \<and> only_under ok view (group_area g (gmGid gm)) d d' \<and> same_items A view g d d'"
proof (cases "db_Get L (memberTab g) (memberLastlogK (gmGid gm)) d")
  case (Inl e)
  with assms show ?thesis
    by (auto simp: append_log_def Let_def same_items_def store_ops store_simps zero_MemberLog_def
        intro!: only_rules)
next
  case (Inr b)
  with assms show ?thesis
    by (auto simp: append_log_def Let_def same_items_def store_ops store_simps zero_MemberLog_def
        intro!: only_rules)
qed

lemma add_member_only:
  assumes "ok d" and "add_member L A g gm d = Some d'"
  shows "only_under ok view (group_area g (gmGid gm)) d d'"
proof (cases "db_Get L (memberTab g) (memberLastK (gmGid gm)) d")
  case (Inl e)
  with assms show ?thesis
    by (auto simp: add_member_def Let_def intro!: only_rules)
next
  case (Inr b)
  with assms show ?thesis
    by (auto simp: add_member_def Let_def intro!: only_rules)
qed

lemma sub_member_only:
  assumes "ok d" and "sub_member L A g gm d = Some (e, d')"
  shows "only_under ok view (group_area g (gmGid gm)) d d'"
  using assms
  by (auto simp: sub_member_def Let_def bind_eq_Some_conv split: sum.splits intro!: only_rules)

lemma handle_only:
  assumes ok: "ok d" and run: "handleMember L A g uuid gm d = Some (e, d')"
  shows "only_under ok view (group_area g (gmGid gm)) d d'"
proof -
  from append_log_full [OF ok, of uuid gm] obtain x d1 where 1:
    "append_log L A g uuid gm d = Some (encoded (cMemberLog A) x, d1)" "ok d1"
    "only_under ok view (group_area g (gmGid gm)) d d1" by blast
  have sub: "only_under ok view (group_area g (gmGid gm)) d d2"
    if "sub_member L A g gm d1 = Some (e2, d2)" for e2 d2
    by (rule only_trans [OF 1(3) sub_member_only [OF 1(2) that]])
  have add: "only_under ok view (group_area g (gmGid gm)) d d2" if "add_member L A g gm d1 = Some d2" for d2
    by (rule only_trans [OF 1(3) add_member_only [OF 1(2) that]])
  have last: "only_under ok view (group_area g (gmGid gm)) d d3"
    if "db_Put L (memberTab g) (memberLastlogK (gmGid gm)) b d2 = (e3, d3)"
      "only_under ok view (group_area g (gmGid gm)) d d2" for b d2 e3 d3
    using only_put [OF that(2) member_keys_area(4), of b] that(1) by simp
  from run 1(1,3) show ?thesis
    by (auto simp: handleMember_def bind_eq_Some_conv split: if_splits option.splits
        dest: sub add last)
qed

lemma add_member_total: "\<exists>d'. add_member L A g gm d = Some d'"
  by (cases "db_Get L (memberTab g) (memberLastK (gmGid gm)) d") (auto simp: add_member_def Let_def)

lemma sub_member_total: "\<exists>e d'. sub_member L A g gm d = Some (e, d')"
  by (auto simp: sub_member_def Let_def split: sum.splits)

lemma handle_total:
  assumes "ok d"
  shows "\<exists>e d'. handleMember L A g uuid gm d = Some (e, d')"
proof -
  from append_log_full [OF assms, of uuid gm] obtain x d1 where
    1: "append_log L A g uuid gm d = Some (encoded (cMemberLog A) x, d1)" by blast
  obtain d2 where 2: "add_member L A g gm d1 = Some d2" using add_member_total by blast
  obtain e3 d3 where 3: "sub_member L A g gm d1 = Some (e3, d3)" using sub_member_total by blast
  show ?thesis by (cases e3) (simp_all add: handleMember_def 1 2 3 split: prod.split)
qed

text \<open>A successful addition: the last-log key names the new entry of the log.\<close>

lemma handle_add_full:
  assumes ok: "ok d" and act: "gmAction gm = ADD" and run: "handleMember L A g uuid gm d = Some (e, d')"
  shows "only_under ok view (group_area g (gmGid gm)) d d' \<and>
    (\<exists>x. db_contents view (memberTab g) d' (memberLastlogK (gmGid gm)) = Some (encoded (cMemberLog A) x) \<and> mlId x = uuid)"
proof -
  from append_log_full [OF ok, of uuid gm] obtain x d1 where 1:
    "append_log L A g uuid gm d = Some (encoded (cMemberLog A) x, d1)" "mlId x = uuid" "ok d1"
    "only_under ok view (group_area g (gmGid gm)) d d1" by blast
  with run act obtain d2 where 2: "add_member L A g gm d1 = Some d2"
    and d': "db_Put L (memberTab g) (memberLastlogK (gmGid gm)) (encoded (cMemberLog A) x) d2 = (e, d')"
    by (auto simp: handleMember_def bind_eq_Some_conv)
  have only: "only_under ok view (group_area g (gmGid gm)) d1 d2" by (rule add_member_only [OF 1(3) 2])
  then have "ok d2" by (simp add: only_under_def)
  with d' have "db_contents view (memberTab g) d' (memberLastlogK (gmGid gm)) = Some (encoded (cMemberLog A) x)"
    using put_contents [of d2 "memberLastlogK (gmGid gm)" "encoded (cMemberLog A) x"] by simp
  moreover have "only_under ok view (group_area g (gmGid gm)) d d'"
    using only_put [OF only_trans [OF 1(4) only] member_keys_area(4), of "encoded (cMemberLog A) x"] d'
    by simp
  ultimately show ?thesis using 1(2) by blast
qed

lemma handle_inert:
  assumes ok: "ok d" and act: "gmAction gm \<notin> {ADD, SUB}"
  shows "\<exists>d'. handleMember L A g uuid gm d = Some (Some ''not support opt'', d') \<and> ok d' \<and>
    only_under ok view (group_area g (gmGid gm)) d d' \<and> same_items A view g d d'"
  using append_log_full [OF ok, of uuid gm] act by (auto simp: handleMember_def)

lemma same_items_trans:
  "same_items A view g d d' \<Longrightarrow> same_items A view g d' d'' \<Longrightarrow> same_items A view g d d''"
  by (simp add: same_items_def)

lemma handle_members_inert:
  "ok d \<Longrightarrow> \<forall>m. Some m \<in> set ms \<longrightarrow> gmAction m \<notin> {ADD, SUB} \<Longrightarrow> handle_members L A g us ms d = Some d' \<Longrightarrow>
    ok d' \<and> same_items A view g d d'"
proof (induction ms arbitrary: us d)
  case Nil
  then show ?case by (simp add: same_items_def)
next
  case (Cons m ms)
  show ?case
  proof (cases m)
    case None
    with Cons.prems(3) show ?thesis by simp
  next
    case (Some r)
    with Cons.prems(2) have "gmAction r \<notin> {ADD, SUB}" by simp
    from handle_inert [OF Cons.prems(1) this, of "us 0"] obtain d1 where
      d1: "handleMember L A g (us 0) r d = Some (Some ''not support opt'', d1)" "ok d1" "same_items A view g d d1"
      by blast
    with Cons.IH [OF d1(2), of "\<lambda>n. us (Suc n)"] Cons.prems(2,3) Some show ?thesis
      by (auto intro: same_items_trans)
  qed
qed

lemma member_service_items:
  assumes ok: "ok d" and run: "groupMemberService L A g us rw d = Returns (out, e, d')"
  shows "ok d' \<and> same_items A view g d d'"
proof (cases "\<exists>req grp. aUnmarshalReader (cMemberReq A) rw zero_MemberReq 4096 = (None, req) \<and>
    getGroup L A g (rqGid req) d = Inr grp \<and> rqAction req \<in> {ADD, SUB}")
  case True
  then obtain rq grp where rq: "aUnmarshalReader (cMemberReq A) rw zero_MemberReq 4096 = (None, rq)"
    "getGroup L A g (rqGid rq) d = Inr grp" "rqAction rq \<in> {ADD, SUB}" by blast
  then have hm: "handle_members L A g us (rqMembers rq) d = Some d'"
    using run by (auto simp: groupMemberService_def Let_def zero_MemberRsp_def split: option.splits)
  have "exp_req rq = rq"
    by (rule req_decoded [OF rq(1)])
  then have "\<forall>m. Some m \<in> set (rqMembers rq) \<longrightarrow> gmAction m \<notin> {ADD, SUB}"
    using exp_req_actions by (metis action_neq(5,6) insertE singletonD)
  from handle_members_inert [OF ok this hm] show ?thesis .
next
  case False
  then have "d' = d"
    using run by (auto simp: groupMemberService_def Let_def zero_MemberRsp_def
        split: option.splits sum.splits prod.splits if_splits)
  with ok show ?thesis by (simp add: same_items_def)
qed

end

section \<open>The tables of groups and members\<close>

lemma newGroupDB_sel [simp]:
  "groupTab (newGroupDB db) = table db ''GROUP''" "memberTab (newGroupDB db) = table db ''GROUP_MEMBER''"
  by (simp_all add: newGroupDB_def NewTable_def group_prefix_def member_prefix_def)

lemma db_contents_table: "db_contents view (table db p) d k = view d (db_prefix db @ p @ k)"
  by (simp add: db_contents_def)

lemma group_put_members:
  assumes "member_store L ok view A" and "ok d"
  shows "db_contents view (table db ''GROUP_MEMBER'') (snd (db_Put L (table db ''GROUP'') gid v d)) k =
    (if gid = ''_MEMBER'' @ k then Some v else db_contents view (table db ''GROUP_MEMBER'') d k)"
proof -
  have "leveldb_laws L ok view"
    using assms(1) by (simp add: member_store_def database_def)
  then show ?thesis
    using assms(2) by (auto simp: db_contents_table db_Put_prefix leveldb_laws.lv_put_view)
qed

lemma group_put_contents:
  assumes "member_store L ok view A" and "ok d" and "\<not> prefix ''_MEMBER'' gid"
  shows "db_contents view (table db ''GROUP_MEMBER'') (snd (db_Put L (table db ''GROUP'') gid v d)) =
    db_contents view (table db ''GROUP_MEMBER'') d"
  using group_put_members [OF assms(1,2), of db gid v] assms(3) by (auto simp: fun_eq_iff prefix_def)

lemma only_under_group:
  assumes "only_under ok view (group_area (newGroupDB db) h) d d'" and "\<not> prefix ''_MEMBER'' gid"
  shows "db_contents view (table db ''GROUP'') d' gid = db_contents view (table db ''GROUP'') d gid"
proof -
  have "\<not> prefix (group_area (newGroupDB db) h) (db_prefix db @ ''GROUP'' @ gid)"
    using assms(2) by (auto simp: group_area_def prefix_def)
  with assms(1) show ?thesis by (simp add: only_under_def db_contents_table)
qed

lemma group_laws: "member_store L ok view A \<Longrightarrow> leveldb_laws L ok view"
  by (simp add: member_store_def database_def)

lemma group_get: "member_store L ok view A \<Longrightarrow> ok d \<Longrightarrow> db_contents view db d k = Some v \<Longrightarrow> db_Get L db k d = Inr v"
  by (simp add: leveldb_laws.db_get_iff [OF group_laws, of L ok view A])

lemma group_get_none:
  assumes "member_store L ok view A" and "ok d" and "db_contents view db d k = None"
  shows "\<exists>e. db_Get L db k d = Inl e"
  using leveldb_laws.db_get_iff [OF group_laws [OF assms(1)] assms(2), of db k] assms(3)
  by (cases "db_Get L db k d") auto

text \<open>Storing a group: the entry is there, and the member table is as it was.\<close>

lemma group_put:
  assumes env: "member_store L ok view A" and ok: "ok d" and gid: "\<not> prefix ''_MEMBER'' gid"
  shows "\<exists>d1. db_Put L (table db ''GROUP'') gid v d = (None, d1) \<and> ok d1 \<and>
    db_contents view (table db ''GROUP'') d1 gid = Some v \<and>
    db_contents view (table db ''GROUP_MEMBER'') d1 = db_contents view (table db ''GROUP_MEMBER'') d"
proof -
  obtain e d1 where p: "db_Put L (table db ''GROUP'') gid v d = (e, d1)"
    by (cases "db_Put L (table db ''GROUP'') gid v d")
  have "lvPut L (db_prefix db @ ''GROUP'' @ gid) v d = (e, d1)"
    using p by (simp add: db_Put_prefix)
  then have "e = None" "ok d1" "view d1 = (view d)(db_prefix db @ ''GROUP'' @ gid \<mapsto> v)"
    using leveldb_laws.lv_put [OF group_laws [OF env], OF ok] leveldb_laws.lv_put_ok [OF group_laws [OF env], OF ok]
      leveldb_laws.lv_put_view [OF group_laws [OF env], OF ok] by (metis fst_conv snd_conv)+
  moreover have "db_contents view (table db ''GROUP_MEMBER'') d1 = db_contents view (table db ''GROUP_MEMBER'') d"
    using group_put_contents [OF env, OF ok gid, of db v] p by simp
  ultimately show ?thesis using p by (simp add: db_contents_table)
qed

definition owner_of :: "JID \<Rightarrow> GroupMember" where
  "owner_of caller = zero_GroupMember\<lparr>gmId := caller\<rparr>"

lemma owner_of_sel [simp]: "gmId (owner_of j) = j" "gmName (owner_of j) = []" "gmAction (owner_of j) = []"
  "exp_member (owner_of j) = owner_of j"
  by (simp_all add: owner_of_def zero_GroupMember_def exp_member_def)

lemma exp_group_owner: "exp_group (grp\<lparr>gOwner := Some (owner_of j)\<rparr>) = grp\<lparr>gOwner := Some (owner_of j)\<rparr>"
  by (simp add: exp_group_def)

text \<open>Reading a group back, and saving it when it is new or has members already.\<close>

lemma getGroup_stored:
  assumes env: "member_store L ok view A" and ok: "ok d"
    and at: "db_contents view (table db ''GROUP'') d gid = Some (encoded (cGroup A) grp)"
  shows "getGroup L A (newGroupDB db) gid d = Inr (setLastlog L A (newGroupDB db) (exp_group grp) d)"
proof -
  have "db_Get L (table db ''GROUP'') gid d = Inr (encoded (cGroup A) grp)"
    by (rule group_get [OF env ok at])
  moreover have "aUnmarshal (cGroup A) (encoded (cGroup A) grp) zero_Group = (None, exp_group grp)"
    by (rule member_store.group_decoded [OF env])
  ultimately show ?thesis by (simp add: getGroup_def)
qed

lemma setLastlog_stored:
  assumes env: "member_store L ok view A" and ok: "ok d"
    and at: "db_contents view (table db ''GROUP_MEMBER'') d (memberLastlogK (gId grp)) = Some (encoded (cMemberLog A) x)"
  shows "setLastlog L A (newGroupDB db) grp d = grp\<lparr>gLastlog := mlId x\<rparr>"
proof -
  have "db_Get L (table db ''GROUP_MEMBER'') (memberLastlogK (gId grp)) d = Inr (encoded (cMemberLog A) x)"
    by (rule group_get [OF env ok at])
  moreover have "aUnmarshal (cMemberLog A) (encoded (cMemberLog A) x) zero_MemberLog = (None, x)"
    by (rule member_store.log_decoded [OF env])
  ultimately show ?thesis by (simp add: setLastlog_def)
qed

lemma setLastlog_keeps: "gOwner (setLastlog L A g grp d) = gOwner grp" "gName (setLastlog L A g grp d) = gName grp"
  "gId (setLastlog L A g grp d) = gId grp"
  by (auto simp: setLastlog_def split: sum.splits prod.splits option.splits)

lemma saveGroup_new:
  assumes env: "member_store L ok view A" and ok: "ok d" and own: "gOwner grp = Some (owner_of j)" "j \<noteq> []"
    and gid: "\<not> prefix ''_MEMBER'' (gId grp)"
    and new: "holds_members A (db_contents view (table db ''GROUP_MEMBER'') d) (gId grp) []"
  shows "\<exists>d'. saveGroup L A (newGroupDB db) uuid grp d = Some (None, d') \<and> ok d' \<and>
    getGroup L A (newGroupDB db) (gId grp) d' = Inr ((exp_group grp)\<lparr>gLastlog := uuid\<rparr>) \<and>
    holds_members A (db_contents view (table db ''GROUP_MEMBER'') d') (gId grp) [(owner_of j)\<lparr>gmGid := gId grp\<rparr>]"
proof -
  let ?g = "newGroupDB db" and ?gid = "gId grp" and ?T = "table db ''GROUP_MEMBER''"
  let ?gm = "\<lparr>gmId = j, gmName = [], gmGid = ?gid, gmAction = ADD\<rparr>"
  from group_put [OF env, OF ok gid] obtain d1 where put: "db_Put L (table db ''GROUP'') ?gid (encoded (cGroup A) grp) d = (None, d1)"
    and ok1: "ok d1" and at: "db_contents view (table db ''GROUP'') d1 ?gid = Some (encoded (cGroup A) grp)"
    and same: "db_contents view ?T d1 = db_contents view ?T d" by blast
  have new1: "holds_members A (db_contents view (memberTab ?g) d1) (gmGid ?gm) []"
    using new same by simp
  then have "db_contents view ?T d1 (memberLastK ?gid) = None"
    by (auto simp: holds_members_def last_readable_def items_def last_cell_def)
  from group_get_none [OF env, OF ok1 this]
  obtain e where none: "db_Get L ?T (memberLastK ?gid) d1 = Inl e" by blast
  from member_store.add_refines [OF env, OF ok1, of ?gm ?g "[]" uuid] new1 own(2) obtain d' where
    h: "handleMember L A ?g uuid ?gm d1 = Some (None, d')" "ok d'"
    "holds_members A (db_contents view ?T d') ?gid [exp_member ?gm]" by auto
  from member_store.handle_add_full [OF env, OF ok1 _ h(1)] obtain x where
    only: "only_under ok view (group_area ?g ?gid) d1 d'" and
    log: "db_contents view ?T d' (memberLastlogK ?gid) = Some (encoded (cMemberLog A) x)" "mlId x = uuid" by auto
  have "db_contents view (table db ''GROUP'') d' ?gid = Some (encoded (cGroup A) grp)"
    using only_under_group [OF only gid] at by simp
  from getGroup_stored [OF env, OF h(2) this] setLastlog_stored [OF env, OF h(2), of db "exp_group grp" x] log
  have "getGroup L A ?g ?gid d' = Inr ((exp_group grp)\<lparr>gLastlog := uuid\<rparr>)"
    by (simp add: exp_group_def)
  moreover have "exp_member ?gm = (owner_of j)\<lparr>gmGid := ?gid\<rparr>"
    by (simp add: exp_member_def owner_of_def zero_GroupMember_def)
  ultimately show ?thesis
    using h own none put by (simp add: saveGroup_def)
qed

lemma saveGroup_existing:
  assumes env: "member_store L ok view A" and ok: "ok d" and own: "gOwner grp = Some (owner_of j)"
    and gid: "\<not> prefix ''_MEMBER'' (gId grp)"
    and old: "db_contents view (table db ''GROUP_MEMBER'') d (memberLastK (gId grp)) = Some b"
  shows "\<exists>d'. saveGroup L A (newGroupDB db) uuid grp d = Some (None, d') \<and> ok d' \<and>
    getGroup L A (newGroupDB db) (gId grp) d' = Inr (setLastlog L A (newGroupDB db) (exp_group grp) d') \<and>
    db_contents view (table db ''GROUP_MEMBER'') d' = db_contents view (table db ''GROUP_MEMBER'') d"
proof -
  let ?gid = "gId grp" and ?T = "table db ''GROUP_MEMBER''"
  from group_put [OF env, OF ok gid] obtain d1 where put: "db_Put L (table db ''GROUP'') ?gid (encoded (cGroup A) grp) d = (None, d1)"
    and ok1: "ok d1" and at: "db_contents view (table db ''GROUP'') d1 ?gid = Some (encoded (cGroup A) grp)"
    and same: "db_contents view ?T d1 = db_contents view ?T d" by blast
  have "db_Get L ?T (memberLastK ?gid) d1 = Inr b"
    using old same by (intro group_get [OF env, OF ok1]) simp
  with put own getGroup_stored [OF env, OF ok1 at] ok1 same show ?thesis
    by (simp add: saveGroup_def)
qed

section \<open>Creating and updating groups\<close>

text \<open>
  A group is created with its creator as owner and only member. A request for an
  id that has no members yet is answered with the group as requested, its owner set to the
  peer that called and its log to the entry of the owner's addition; the member list in
  the database is the owner alone. The id must not continue the prefix of the member table.
\<close>

lemma create_group_result:
  assumes env: "member_store L ok view A" and ok: "ok d"
    and req: "Group_FromReader A rw zero_Group = (req, None)" and gid: "gId req \<noteq> []" "\<not> prefix ''_MEMBER'' (gId req)"
    and new: "holds_members A (db_contents view (table db ''GROUP_MEMBER'') d) (gId req) []"
    and caller: "caller \<noteq> []"
  shows "\<exists>d'. groupUpdateService L A (newGroupDB db) uuid caller rw d =
      Returns (resp (cGroupRsp A)
        \<lparr>grGroup = Some (req\<lparr>gOwner := Some (owner_of caller), gLastlog := uuid\<rparr>), grErr = []\<rparr>, None, d') \<and>
    holds_members A (db_contents view (table db ''GROUP_MEMBER'') d') (gId req) [(owner_of caller)\<lparr>gmGid := gId req\<rparr>]"
proof -
  let ?grp = "req\<lparr>gOwner := Some (owner_of caller)\<rparr>"
  from saveGroup_new [OF env, OF ok _ caller, of ?grp db uuid] gid(2) new obtain d' where
    "saveGroup L A (newGroupDB db) uuid ?grp d = Some (None, d')"
    "getGroup L A (newGroupDB db) (gId req) d' = Inr (?grp\<lparr>gLastlog := uuid\<rparr>)"
    "holds_members A (db_contents view (table db ''GROUP_MEMBER'') d') (gId req) [(owner_of caller)\<lparr>gmGid := gId req\<rparr>]"
    by (auto simp: exp_group_owner)
  then show ?thesis
    using req gid(1) by (simp add: groupUpdateService_def Let_def owner_of_def [symmetric] zero_GroupRsp_def)
qed

definition demo_group :: Group where "demo_group = zero_Group\<lparr>gId := ''g'', gName := ''n''\<rparr>"

lemma demo_group_sel [simp]: "gId demo_group = ''g''" "gName demo_group = ''n''" "gOwner demo_group = None"
  by (simp_all add: demo_group_def zero_Group_def)

lemma demo_group_read:
  "Group_FromReader ref_codecs (encoded (cGroup ref_codecs) demo_group) zero_Group = (demo_group, None)"
proof -
  have "length (encoded (cGroup ref_codecs) demo_group) \<le> 10 * MAX_PKG"
    by (simp add: encoded_def ref_codecs_def field_codec_def Let_def group_to_def demo_group_def zero_Group_def
        length_pack MAX_PKG_def)
  then have "aUnmarshalReader (cGroup ref_codecs) (encoded (cGroup ref_codecs) demo_group) zero_Group (10 * MAX_PKG) =
      (None, exp_group demo_group)"
    by (intro refc.groupc.reader_encoded) (simp_all add: MAX_PKG_def)
  then show ?thesis by (simp add: Group_FromReader_def exp_group_def)
qed

text \<open>
  Property C29: anybody can take over an existing group. An update of a group that has members,
  by any peer, is accepted: afterwards the stored group names the caller as its owner and
  carries the caller's name for it, while the member list, with the former owner as its first
  member, is as before.
\<close>

theorem update_takes_over:
  assumes env: "member_store L ok view A" and ok: "ok d"
    and req: "Group_FromReader A rw zero_Group = (req, None)" and gid: "gId req \<noteq> []" "\<not> prefix ''_MEMBER'' (gId req)"
    and holds: "holds_members A (db_contents view (table db ''GROUP_MEMBER'') d) (gId req) (m # gs)"
  shows "\<exists>grp d'. groupUpdateService L A (newGroupDB db) uuid caller rw d =
      Returns (resp (cGroupRsp A) \<lparr>grGroup = Some grp, grErr = []\<rparr>, None, d') \<and>
    getGroup L A (newGroupDB db) (gId req) d' = Inr grp \<and> gOwner grp = Some (owner_of caller) \<and>
    gName grp = gName req \<and>
    holds_members A (db_contents view (table db ''GROUP_MEMBER'') d') (gId req) (m # gs)"
proof -
  let ?grp = "req\<lparr>gOwner := Some (owner_of caller)\<rparr>"
  from holds obtain b where "db_contents view (table db ''GROUP_MEMBER'') d (memberLastK (gId req)) = Some b"
    by (cases "db_contents view (table db ''GROUP_MEMBER'') d (memberLastK (gId req))")
      (auto simp: holds_members_def items_def last_at_def last_cell_def)
  with saveGroup_existing [OF env, OF ok, of ?grp caller db b uuid] gid(2) obtain d' where
    "saveGroup L A (newGroupDB db) uuid ?grp d = Some (None, d')"
    "getGroup L A (newGroupDB db) (gId req) d' = Inr (setLastlog L A (newGroupDB db) ?grp d')"
    "db_contents view (table db ''GROUP_MEMBER'') d' = db_contents view (table db ''GROUP_MEMBER'') d"
    by (auto simp: exp_group_owner)
  then show ?thesis
    using req gid(1) holds
    by (simp add: groupUpdateService_def Let_def owner_of_def [symmetric] zero_GroupRsp_def setLastlog_keeps)
qed

theorem update_takes_over_witness:
  "\<exists>d d' grp out. groupUpdateService mem_leveldb ref_codecs (newGroupDB (LDBDatabase ''mb'')) ''u2'' ''eve''
      (encoded (cGroup ref_codecs) demo_group) d = Returns (out, None, d') \<and>
    getGroup mem_leveldb ref_codecs (newGroupDB (LDBDatabase ''mb'')) ''g'' d' = Inr grp \<and>
    gOwner grp = Some (owner_of ''eve'')"
proof -
  from one_member_holds obtain d where d: "mem_ok d"
    "holds_members ref_codecs (db_contents map_of (table (LDBDatabase ''mb'') ''GROUP_MEMBER'') d) (gId demo_group) [change ''a'' []]"
    by (auto simp: mem_group_tab_def)
  from update_takes_over [OF ref_member_store d(1) demo_group_read _ _ d(2)] show ?thesis by fastforce
qed

text \<open>
  Property C24: requests for member changes answer success and change no member list. The
  action of each member is not part of the encoding, so it is empty when the handler gets it:
  every addition and removal in the request fails, the errors are dropped, and the answer is
  success. No item and no last key of any group changes, whatever is requested.
\<close>

theorem member_requests_inert:
  assumes env: "member_store L ok view A" and ok: "ok d"
    and run: "groupMemberService L A g us rw d = Returns (out, e, d')"
  shows "(holds_members A (db_contents view (memberTab g) d) gid gs \<longrightarrow>
      holds_members A (db_contents view (memberTab g) d') gid gs) \<and>
    (aUnmarshalReader (cMemberReq A) rw zero_MemberReq 4096 = (None, req) \<and> rqAction req \<in> {ADD, SUB} \<and>
      getGroup L A g (rqGid req) d = Inr grp \<longrightarrow>
      e = None \<and> out = resp (cMemberRsp A) \<lparr>rsAction = rqAction req, rsResult = ''success'', rsErr = []\<rparr>)"
proof
  show "holds_members A (db_contents view (memberTab g) d) gid gs \<longrightarrow>
      holds_members A (db_contents view (memberTab g) d') gid gs"
    using member_store.member_service_items [OF env, OF ok run] by (simp add: same_items_def holds_members_def)
qed (use run in \<open>auto simp: groupMemberService_def Let_def zero_MemberRsp_def SUCCESS_def split: option.splits\<close>)

definition demo_req :: GroupMemberReq where
  "demo_req = zero_MemberReq\<lparr>rqGid := ''g'', rqAction := ADD, rqMembers := [Some (change ''b'' ADD)]\<rparr>"

lemma demo_req_sel [simp]: "rqGid demo_req = ''g''" "rqAction demo_req = ADD"
  by (simp_all add: demo_req_def zero_MemberReq_def)

lemma demo_req_read:
  "aUnmarshalReader (cMemberReq ref_codecs) (encoded (cMemberReq ref_codecs) demo_req) zero_MemberReq 4096 =
    (None, demo_req\<lparr>rqMembers := [Some (change ''b'' [])]\<rparr>)"
proof -
  have "length (encoded (cMemberReq ref_codecs) demo_req) \<le> 4096"
    by (simp add: encoded_def ref_codecs_def field_codec_def Let_def req_to_def demo_req_def zero_MemberReq_def
        list_to_def member_to_def change_def length_pack ADD_def)
  then have "aUnmarshalReader (cMemberReq ref_codecs) (encoded (cMemberReq ref_codecs) demo_req) zero_MemberReq 4096 =
      (None, exp_req demo_req)"
    by (intro refc.reqc.reader_encoded) (simp_all add: wf_req_def demo_req_def zero_MemberReq_def)
  then show ?thesis by (simp add: exp_req_def demo_req_def zero_MemberReq_def)
qed

theorem member_requests_inert_witness:
  "\<exists>d out d'. groupMemberService mem_leveldb ref_codecs (newGroupDB (LDBDatabase ''mb'')) (\<lambda>n. ''u'')
      (encoded (cMemberReq ref_codecs) demo_req) d = Returns (out, None, d') \<and>
    out = resp (cMemberRsp ref_codecs) \<lparr>rsAction = ADD, rsResult = ''success'', rsErr = []\<rparr> \<and>
    holds_members ref_codecs (db_contents map_of (table (LDBDatabase ''mb'') ''GROUP_MEMBER'') d') ''g''
      [(owner_of ''ann'')\<lparr>gmGid := ''g''\<rparr>]"
proof -
  let ?g = "newGroupDB (LDBDatabase ''mb'')" and ?r = "demo_req\<lparr>rqMembers := [Some (change ''b'' [])]\<rparr>"
  have "holds_members ref_codecs (db_contents map_of (table (LDBDatabase ''mb'') ''GROUP_MEMBER'') [])
      (gId (demo_group\<lparr>gOwner := Some (owner_of ''ann'')\<rparr>)) []"
    using empty_group_holds [of mem_group_tab] by (simp add: mem_group_tab_def)
  from saveGroup_new [OF ref_member_store mem_ok_empty _ _ _ this, of "''ann''" "''u1''"] obtain d grp where d: "mem_ok d"
    "getGroup mem_leveldb ref_codecs ?g ''g'' d = Inr grp"
    "holds_members ref_codecs (db_contents map_of (memberTab ?g) d) ''g'' [(owner_of ''ann'')\<lparr>gmGid := ''g''\<rparr>]"
    by auto
  obtain d' where h: "handleMember mem_leveldb ref_codecs ?g ''u'' (change ''b'' []) d = Some (Some ''not support opt'', d')"
    using member_store.handle_inert [OF ref_member_store d(1), of "change ''b'' []" ?g "''u''"] by auto
  obtain out where run: "groupMemberService mem_leveldb ref_codecs ?g (\<lambda>n. ''u'')
      (encoded (cMemberReq ref_codecs) demo_req) d = Returns (out, None, d')"
    using h d(2) by (simp add: groupMemberService_def demo_req_read Let_def zero_MemberRsp_def)
  from member_requests_inert [OF ref_member_store d(1) run, of "''g''" "[(owner_of ''ann'')\<lparr>gmGid := ''g''\<rparr>]" ?r grp] d run
  show ?thesis
    by (auto simp: demo_req_read)
qed

section \<open>Groups and each other\<close>

lemma items_cong:
  assumes "\<And>k. prefix h k \<Longrightarrow> c' k = c k"
  shows "items A c' h = items A c h" and "last_readable A c' h = last_readable A c h"
  using assms member_keys_area
  by (simp_all add: items_def item_at_def last_at_def last_readable_def fun_eq_iff)

lemma area_disjoint:
  assumes "only_under ok view (group_area g gid) d d'" and "length h = length gid" "h \<noteq> gid" and "prefix h k"
  shows "db_contents view (memberTab g) d' k = db_contents view (memberTab g) d k"
proof -
  have "\<not> prefix gid k"
    using assms(2-4) by (metis prefix_length_prefix prefix_order.eq_iff order_refl)
  then have "\<not> prefix (group_area g gid) (db_prefix (memberTab g) @ k)"
    by (simp add: group_area_def)
  with assms(1) show ?thesis by (simp add: only_under_def db_contents_def)
qed

text \<open>
  Property C37: groups are isolated from each other. A member change of one group, whatever it is
  and whether or not it succeeds, leaves the member list of every other group whose id has the
  same length as it was. The ids the client draws all have the same length.
\<close>

theorem groups_isolated:
  assumes env: "member_store L ok view A" and ok: "ok d"
    and run: "handleMember L A g uuid gm d = Some (e, d')"
    and other: "length h = length (gmGid gm)" "h \<noteq> gmGid gm"
    and holds: "holds_members A (db_contents view (memberTab g) d) h gs"
  shows "holds_members A (db_contents view (memberTab g) d') h gs"
proof -
  have "db_contents view (memberTab g) d' k = db_contents view (memberTab g) d k" if "prefix h k" for k
    by (rule area_disjoint [OF member_store.handle_only [OF env, OF ok run] other that])
  from items_cong [OF this, where A = A] holds show ?thesis
    by (simp add: holds_members_def)
qed

theorem groups_isolated_witness:
  "\<exists>d d'. handleMember mem_leveldb ref_codecs mem_group_tab ''u''
      \<lparr>gmId = ''x'', gmName = [], gmGid = ''k'', gmAction = ADD\<rparr> d = Some (None, d') \<and>
    holds_members ref_codecs (db_contents map_of (memberTab mem_group_tab) d') ''g'' [change ''a'' []]"
proof -
  let ?gm = "\<lparr>gmId = ''x'', gmName = [], gmGid = ''k'', gmAction = ADD\<rparr>"
  from member_store.add_refines [OF ref_member_store mem_ok_empty, of "change ''a'' ADD" mem_group_tab "[]" "''t''"]
  obtain d where d: "handleMember mem_leveldb ref_codecs mem_group_tab ''t'' (change ''a'' ADD) [] = Some (None, d)"
    "mem_ok d" "holds_members ref_codecs (db_contents map_of (memberTab mem_group_tab) d) ''g'' [change ''a'' []]"
    using empty_group_holds [of mem_group_tab "''g''"] by auto
  have "holds_members ref_codecs (db_contents map_of (memberTab mem_group_tab) d) ''k'' []"
    using groups_isolated [OF ref_member_store mem_ok_empty d(1) _ _ empty_group_holds] by simp
  from member_store.add_refines [OF ref_member_store d(2), of ?gm mem_group_tab "[]" "''u''"] this
  obtain d' where h: "handleMember mem_leveldb ref_codecs mem_group_tab ''u'' ?gm d = Some (None, d')" by auto
  from groups_isolated [OF ref_member_store d(2) h _ _ d(3)] h show ?thesis by auto
qed

text \<open>
  The update handler always answers. On a healthy database no request makes it panic
  or run for ever: whatever the bytes and the caller, it returns.
\<close>

lemma update_total:
  assumes env: "member_store L ok view A" and ok: "ok d"
  shows "\<exists>out e d'. groupUpdateService L A (newGroupDB db) uuid caller rw d = Returns (out, e, d')"
proof -
  obtain req e0 where r: "Group_FromReader A rw zero_Group = (req, e0)" by (cases "Group_FromReader A rw zero_Group")
  let ?grp = "req\<lparr>gOwner := Some (owner_of caller)\<rparr>"
  obtain e1 d1 where p: "db_Put L (table db ''GROUP'') (gId req) (encoded (cGroup A) ?grp) d = (e1, d1)"
    by (cases "db_Put L (table db ''GROUP'') (gId req) (encoded (cGroup A) ?grp) d")
  then have "ok d1"
    using leveldb_laws.lv_put_ok [OF group_laws [OF env], OF ok] by (metis db_Put_prefix snd_conv)
  then have h: "\<exists>e d'. handleMember L A (newGroupDB db) uuid gm d1 = Some (e, d')" for gm
    by (rule member_store.handle_total [OF env])
  have "\<exists>e d'. saveGroup L A (newGroupDB db) uuid ?grp d = Some (e, d')"
    using h [of "\<lparr>gmId = caller, gmName = [], gmGid = gId req, gmAction = ADD\<rparr>"] p
    by (cases e1) (auto simp: saveGroup_def split: sum.split)
  then obtain e d' where "saveGroup L A (newGroupDB db) uuid ?grp d = Some (e, d')" by blast
  then show ?thesis
    using r by (auto simp: groupUpdateService_def Let_def owner_of_def [symmetric] split: option.split sum.split)
qed

text \<open>
  A group id can be chosen so that the group is stored over a member of another
  group. The group table's prefix followed by \<open>_MEMBER\<close> is the member table's: a request to update
  the group whose id is \<open>_MEMBER\<close> followed by the key of a member, from any peer, is served,
  and where the member's item was the database then holds that request. Groups with shorter ids are stored as before.
\<close>

lemma group_id_overwrites_member:
  assumes env: "member_store L ok view A" and ok: "ok d"
    and req: "Group_FromReader A rw zero_Group = (req, None)" and gid: "gId req = ''_MEMBER'' @ memberK h i"
    and ret: "groupUpdateService L A (newGroupDB db) uuid caller rw d = Returns (out, e, d')"
  shows "ok d' \<and> db_contents view (table db ''GROUP_MEMBER'') d' (memberK h i) =
      Some (encoded (cGroup A) (req\<lparr>gOwner := Some (owner_of caller)\<rparr>)) \<and>
    (\<forall>h'. length h' < length (gId req) \<longrightarrow>
      db_contents view (table db ''GROUP'') d' h' = db_contents view (table db ''GROUP'') d h')"
proof -
  let ?grp = "req\<lparr>gOwner := Some (owner_of caller)\<rparr>" and ?T = "table db ''GROUP_MEMBER''"
  note lv = group_laws [OF env]
  obtain e1 d1 where p: "db_Put L (table db ''GROUP'') (gId req) (encoded (cGroup A) ?grp) d = (e1, d1)"
    by (cases "db_Put L (table db ''GROUP'') (gId req) (encoded (cGroup A) ?grp) d")
  then have "lvPut L (db_prefix db @ ''GROUP'' @ gId req) (encoded (cGroup A) ?grp) d = (e1, d1)"
    by (simp add: db_Put_prefix)
  then have d1: "e1 = None" "ok d1" "view d1 = (view d)(db_prefix db @ ''GROUP'' @ gId req \<mapsto> encoded (cGroup A) ?grp)"
    using leveldb_laws.lv_put [OF lv, OF ok] leveldb_laws.lv_put_ok [OF lv, OF ok] leveldb_laws.lv_put_view [OF lv, OF ok]
    by (metis fst_conv snd_conv)+
  have at1: "view d1 (db_prefix db @ ''GROUP_MEMBER'' @ memberK h i) = Some (encoded (cGroup A) ?grp)"
    by (simp add: d1(3) gid)
  have keep1: "view d1 (db_prefix db @ ''GROUP'' @ h') = view d (db_prefix db @ ''GROUP'' @ h')"
    if "length h' < length (gId req)" for h'
    using that by (auto simp: d1(3))
  have area: "\<not> prefix (group_area (newGroupDB db) (gId req)) (db_prefix db @ k)"
    if "length k < length ''GROUP_MEMBER'' + length (gId req)" for k
    using that by (auto simp: group_area_def dest!: prefix_length_le)
  have later: "ok d2 \<and> (\<forall>k. length k < length ''GROUP_MEMBER'' + length (gId req) \<longrightarrow>
      view d2 (db_prefix db @ k) = view d1 (db_prefix db @ k))"
    if "handleMember L A (newGroupDB db) uuid gm d1 = Some (e2, d2)" "gmGid gm = gId req" for gm e2 d2
    using member_store.handle_only [OF env, OF d1(2) that(1)] area that(2) by (simp add: only_under_def)
  have "d' = d1 \<or> (\<exists>gm e2. gmGid gm = gId req \<and> handleMember L A (newGroupDB db) uuid gm d1 = Some (e2, d'))"
    using ret req gid p d1(1)
    by (auto simp: groupUpdateService_def saveGroup_def Let_def owner_of_def [symmetric] bind_eq_Some_conv
        split: option.splits sum.splits)
  then have "ok d' \<and> (\<forall>k. length k < length ''GROUP_MEMBER'' + length (gId req) \<longrightarrow>
      view d' (db_prefix db @ k) = view d1 (db_prefix db @ k))"
    using later d1(2) by blast
  moreover have "length (''GROUP_MEMBER'' @ memberK h i) < length ''GROUP_MEMBER'' + length (gId req)"
    by (simp add: gid)
  ultimately show ?thesis
    using at1 keep1 by (auto simp: db_contents_table)
qed

section \<open>Creating a group over the network\<close>

lemma client_members: "mailbox_client L ok view A srt fn us box dbs P me \<Longrightarrow> member_store L ok view A"
  by (simp add: mailbox_client_def mailbox_store_def member_store_def database_def)

lemma create_over_network:
  assumes net: "mailbox_client L ok view A srt fn us box dbs P me" and ok: "ok (dbs w)" and me: "me \<noteq> []"
    and box: "Mailid (csMyid c) = box" "box \<noteq> []"
    and gid: "gid = (if gId grp = [] then newGID keyid (csMyid c) else gId grp)" "\<not> prefix ''_MEMBER'' gid"
    and new: "holds_members A (db_contents view (table (LDBDatabase fn) ''GROUP_MEMBER'') (dbs w)) gid []"
    and fits: "length (encoded (cGroup A) (grp\<lparr>gId := gid\<rparr>)) \<le> 10 * MAX_PKG"
  shows "\<exists>w'. CreateGroup A P keyid c grp w =
      (Inr \<lparr>grGroup = Some (grp\<lparr>gId := gid, gOwner := Some (owner_of me), gLastlog := us 0\<rparr>), grErr = []\<rparr>,
       grp\<lparr>gId := gid\<rparr>, w') \<and>
    holds_members A (db_contents view (table (LDBDatabase fn) ''GROUP_MEMBER'') (dbs w')) gid [(owner_of me)\<lparr>gmGid := gid\<rparr>]"
proof -
  have env: "member_store L ok view A" by (rule client_members [OF net])
  let ?grp = "grp\<lparr>gId := gid\<rparr>" and ?g = "newGroupDB (LDBDatabase fn)"
  let ?rsp = "\<lparr>grGroup = Some (?grp\<lparr>gOwner := Some (owner_of me), gLastlog := us 0\<rparr>), grErr = []\<rparr>"
  have gne: "gid \<noteq> []" using gid(1) box by (auto simp: newGID_def split: if_splits)
  have req: "Group_FromReader A (encoded (cGroup A) ?grp) zero_Group = (exp_group ?grp, None)"
    using member_store.group_read [OF env fits] by (simp add: Group_FromReader_def MAX_PKG_def)
  from create_group_result [OF env, OF ok req _ _ _ me, of "LDBDatabase fn" "us 0"] gne gid(2) new
  obtain d' where d': "groupUpdateService L A ?g (us 0) me (encoded (cGroup A) ?grp) (dbs w) =
      Returns (resp (cGroupRsp A) ?rsp, None, d')"
    "holds_members A (db_contents view (table (LDBDatabase fn) ''GROUP_MEMBER'') d') gid [(owner_of me)\<lparr>gmGid := gid\<rparr>]"
    by (auto simp: exp_group_def)
  have "(PID_MAILBOX_GROUP_UPDATE, \<lambda>caller rw d. groupUpdateService L A ?g (us 0) caller rw d) \<in>
      set (mailbox_Start L A srt None us \<lparr>mbMyid = box, mbStop = False, mbDb = LDBDatabase fn\<rparr>)"
    by (simp add: mailbox_Start_def groupService_def Let_def)
  from mailbox_client.serves [OF net this, of "encoded (cGroup A) ?grp" w, OF d'(1)] obtain w' where
    w': "pRequest P box PID_MAILBOX_GROUP_UPDATE (encoded (cGroup A) ?grp) request_timeout w =
      (Inr (resp (cGroupRsp A) ?rsp), w')" "dbs w' = d'" by blast
  have "GroupRsp_FromBytes A (resp (cGroupRsp A) ?rsp) zero_GroupRsp = (?rsp, None)"
    using member_store.grsp_decoded [OF env, of ?rsp] by (simp add: GroupRsp_FromBytes_def resp_def exp_grsp_def exp_group_def)
  moreover have "toByte (cGroup A) ?grp = Inr (encoded (cGroup A) ?grp)"
    by (rule member_store.group_bytes [OF env])
  moreover have "(if gId grp = [] then grp\<lparr>gId := newGID keyid (csMyid c)\<rparr> else grp) = ?grp"
    using gid(1) by auto
  ultimately show ?thesis
    using w' d'(2) box by (simp add: CreateGroup_def genGroup_def Let_def)
qed

text \<open>
  Property C10: creating a group works end to end. A client with a mailbox gets back the group
  with the id it drew (or asked for), itself as the owner, and the mailbox holds it as the
  only member. The request must fit the handler's limit and the id be new.
\<close>

theorem create_group_end_to_end:
  assumes net: "mailbox_client L ok view A srt fn us box dbs P me" and ok: "ok (dbs w)" and me: "me \<noteq> []"
    and box: "Mailid (csMyid c) = box" "box \<noteq> []"
    and gid: "gid = (if gId grp = [] then newGID keyid (csMyid c) else gId grp)" "\<not> prefix ''_MEMBER'' gid"
    and new: "holds_members A (db_contents view (table (LDBDatabase fn) ''GROUP_MEMBER'') (dbs w)) gid []"
    and fits: "length (encoded (cGroup A) (grp\<lparr>gId := gid\<rparr>)) \<le> 10 * MAX_PKG"
  shows "\<exists>w'. CreateGroup A P keyid c grp w =
      (Inr \<lparr>grGroup = Some (grp\<lparr>gId := gid, gOwner := Some (owner_of me), gLastlog := us 0\<rparr>), grErr = []\<rparr>,
       grp\<lparr>gId := gid\<rparr>, w') \<and>
    holds_members A (db_contents view (table (LDBDatabase fn) ''GROUP_MEMBER'') (dbs w')) gid [(owner_of me)\<lparr>gmGid := gid\<rparr>]"
  by (rule create_over_network [OF net, OF ok me box gid new fits])

definition ann_svc :: "unit ChatService" where
  "ann_svc = demo_svc\<lparr>csMyid := NewJID (peer_of CHR ''n'') ref_box\<rparr>"

lemma ann_mailid [simp]: "Mailid (csMyid ann_svc) = ref_box" "ref_box \<noteq> []"
  by (simp_all add: ann_svc_def Mailid_NewJID ref_box_def) (simp add: peer_of_def)

theorem create_group_end_to_end_witness:
  "\<exists>w'. CreateGroup ref_codecs (ref_p2p ''ann'') ''key'' ann_svc demo_group [] =
    (Inr \<lparr>grGroup = Some (demo_group\<lparr>gOwner := Some (owner_of ''ann''), gLastlog := ''u''\<rparr>), grErr = []\<rparr>, demo_group, w')"
proof -
  have new: "holds_members ref_codecs (db_contents map_of (table (LDBDatabase ''mb'') ''GROUP_MEMBER'') []) ''g'' []"
    using empty_group_holds [of mem_group_tab] by (simp add: mem_group_tab_def)
  have same: "demo_group\<lparr>gId := ''g''\<rparr> = demo_group" by (simp add: demo_group_def)
  have fits: "length (encoded (cGroup ref_codecs) (demo_group\<lparr>gId := ''g''\<rparr>)) \<le> 10 * MAX_PKG"
    by (simp add: encoded_def ref_codecs_def field_codec_def Let_def group_to_def demo_group_def zero_Group_def
        length_pack MAX_PKG_def)
  show ?thesis
    using create_group_end_to_end [OF ref_client mem_ok_empty _ ann_mailid _ _ new fits, of "''ann''" "''key''"]
    by (auto simp: same)
qed

end
