(* ===== verification/RefGateway.thy ===== *)
theory RefGateway
  imports RpcServer GroupAdmin
begin

text \<open>
  A concrete environment for the gateway, on the reference store, codecs and network. For the
  witnesses only: users are coded by fields, and requests too, with the string
  parameters they have.
\<close>

definition user_to :: "User \<Rightarrow> string list" where
  "user_to u = [uName u, uIcon u, uComment u, uId u, int_str (uAge u), int_str (uGender u), uGid u, uLastlog u]"

fun user_from :: "string list \<Rightarrow> User option" where
  "user_from [a, b, c, d, e, f, g, h] = Some \<lparr>uName = a, uIcon = b, uComment = c, uId = d,
     uAge = str_int e, uGender = str_int f, uGid = g, uLastlog = h\<rparr>"
| "user_from _ = None"

lemma user_fields [simp]: "user_from (user_to u) = Some u"
  by (simp add: user_to_def)

definition ref_user :: "User amino" where
  "ref_user = field_codec user_to user_from"

interpretation refu: codec_laws ref_user zero_User "\<lambda>u. u" "\<lambda>u. True"
  unfolding ref_user_def by (rule field_codec_laws) simp_all

interpretation ref_users: user_store mem_leveldb mem_ok map_of ref_user db for db
  by unfold_locales

lemmas ref_user_store = ref_users.user_store_axioms

definition str_at :: "(string \<times> xval) list \<Rightarrow> string \<Rightarrow> string" where
  "str_at m k = (case map_of m k of Some (XStr s) \<Rightarrow> s | _ \<Rightarrow> [])"

definition ref_json :: json_lib where
  "ref_json =
    \<lparr>jsReq = (\<lambda>b z. case unpack b of
        Some (i # t # m # ps) \<Rightarrow>
          (None, \<lparr>reqId = i, reqToken = t, reqMethod = m, reqParams = map XStr ps\<rparr>)
      | _ \<Rightarrow> (Some ''malformed'', z)),
     jsReqBytes = (\<lambda>r. Inr (pack (reqId r # reqToken r # reqMethod r #
        (case all_strings (reqParams r) of Some ss \<Rightarrow> ss | None \<Rightarrow> [])))),
     jsRsp = (\<lambda>b z. case unpack b of
        Some [i, v, c, m] \<Rightarrow> (None, if c = [] then z\<lparr>rspId := i, rspResult := RVal (XStr v)\<rparr>
          else z\<lparr>rspId := i, rspError := Some \<lparr>errCode = c, errMessage = m\<rparr>\<rparr>)
      | _ \<Rightarrow> (Some ''malformed'', z)),
     jsRspBytes = (\<lambda>r. Inr (pack [rspId r, (case rspResult r of RStr v \<Rightarrow> v | _ \<Rightarrow> []),
        (case rspError r of Some e \<Rightarrow> errCode e | None \<Rightarrow> []), (case rspError r of Some e \<Rightarrow> errMessage e | None \<Rightarrow> [])])),
     jsMap = (\<lambda>b. if b \<noteq> [] \<and> hd b = CHR ''{'' then Inr [] else Inl ''malformed''),
     jsMapBytes = (\<lambda>m. Inr (pack (user_to (zero_User\<lparr>uName := str_at m ''name'', uComment := str_at m ''comment'',
        uId := str_at m ''id'', uGid := str_at m ''gid'', uLastlog := str_at m ''lastlog''\<rparr>))))\<rparr>"

definition ref_libs :: "(mem, mem) libs" where
  "ref_libs = \<lparr>libL = mem_leveldb, libA = ref_codecs, libUser = ref_user, libJson = ref_json,
     libP2p = ref_p2p ''me'', libSha1 = rev, libOrder = (\<lambda>ks. ks)\<rparr>"

lemma ref_libs_sel [simp]: "libL ref_libs = mem_leveldb" "libA ref_libs = ref_codecs" "libUser ref_libs = ref_user"
  "libJson ref_libs = ref_json" "libP2p ref_libs = ref_p2p ''me''"
  by (simp_all add: ref_libs_def)

lemma ref_request [simp]:
  "Req_FromBytes ref_json (pack (i # t # m # ps)) z =
    \<lparr>reqId = i, reqToken = t, reqMethod = m, reqParams = map XStr ps\<rparr>"
  by (simp add: Req_FromBytes_def ref_json_def)

text \<open>A gateway on the node of theory Network, started with the password \<open>pw\<close>.\<close>

definition ref_gw :: "(unit, mem, mem) gateway" where
  "ref_gw = \<lparr>gwChat = bob_svc, gwPwd = ''pw'', gwPort = 9990, gwTokens = Map.empty,
     gwServices = [(''user'', UserService (LDBDatabase (path_Join [csHomedir bob_svc, ''user'']))),
       (''group'', GroupService (LDBDatabase (path_Join [csHomedir bob_svc, ''group''])))],
     gwUserdb = [], gwGroupdb = [], gwWorld = []\<rparr>"

lemma ref_gw_started: "StartRPC (\<lambda>fn opts. Inr []) ''pw'' 9990 bob_svc [] = Some ref_gw"
  by (simp add: StartRPC_def NewUserService_def NewGroupService_def NewLDBDatabase_def GetHomedir_def
      serviceReg_def ref_gw_def)

lemma ref_gw_sel [simp]: "gwTokens ref_gw = Map.empty" "gwPwd ref_gw = ''pw''" "gwChat ref_gw = bob_svc"
  "gwWorld ref_gw = []" "gwUserdb ref_gw = []"
  by (simp_all add: ref_gw_def)

definition ref_tick :: tick where
  "ref_tick = \<lparr>tkUuid = ''u'', tkNano = 7000000000, tkUnix = 7, tkElapsed = ''1s'', tkKeyid = ''key''\<rparr>"

text \<open>The same gateway with a client logged in.\<close>

definition ref_gw_in :: "(unit, mem, mem) gateway" where
  "ref_gw_in = ref_gw\<lparr>gwTokens := [''tok'' \<mapsto> 7]\<rparr>"

lemma ref_gw_in_sel [simp]: "gwTokens ref_gw_in = [''tok'' \<mapsto> 7]" "gwChat ref_gw_in = bob_svc"
  "gwWorld ref_gw_in = []" "gwServices ref_gw_in = gwServices ref_gw" "gwUserdb ref_gw_in = []"
  "token_time ref_gw_in ''tok'' = 7"
  by (simp_all add: ref_gw_in_def token_time_def)

lemma ref_libs_client:
  "mailbox_client mem_leveldb mem_ok map_of (libA ref_libs) (sort_key (\<lambda>m. eCt (mEnvelope m))) ''mb'' (\<lambda>n. ''u'')
    ref_box (\<lambda>w. w) (libP2p ref_libs) ''me''"
  unfolding ref_libs_sel by (rule ref_client)

text \<open>A group that the reference mailbox creates for the gateway's node.\<close>

lemma ref_create:
  "\<exists>w'. CreateGroup ref_codecs (ref_p2p ''me'') ''key'' bob_svc demo_group [] =
    (Inr \<lparr>grGroup = Some (demo_group\<lparr>gOwner := Some (owner_of ''me''), gLastlog := ''u''\<rparr>), grErr = []\<rparr>, demo_group, w')"
proof -
  have new: "holds_members ref_codecs (db_contents map_of (table (LDBDatabase ''mb'') ''GROUP_MEMBER'') []) ''g'' []"
    using empty_group_holds [of mem_group_tab] by (simp add: mem_group_tab_def)
  have same: "demo_group\<lparr>gId := ''g''\<rparr> = demo_group" by (simp add: demo_group_def)
  have fits: "length (encoded (cGroup ref_codecs) (demo_group\<lparr>gId := ''g''\<rparr>)) \<le> 10 * MAX_PKG"
    by (simp add: encoded_def ref_codecs_def field_codec_def Let_def group_to_def demo_group_def zero_Group_def
        length_pack MAX_PKG_def)
  have box: "Mailid (csMyid bob_svc) = ref_box" by simp
  show ?thesis
    using create_over_network [OF ref_client mem_ok_empty _ box _ _ _ new fits, of "''me''" "''key''"]
    by (auto simp: same)
qed

end
