(* ===== verification/RpcProps.thy ===== *)
theory RpcProps
  imports RefGateway
begin

text \<open>
  The gateway's promises: who gets in, which methods there are, what the user service stores
  and finds, what sending and opening a session do to the mailbox, and where it panics.
\<close>

section \<open>Runs of the gateway\<close>

datatype 'h gw_event =
    HttpReq tick "bytes option"
  | WsOpen tick string 'h "bytes option"
  | WsClose string

fun gw_exec :: "('d, 'w) libs \<Rightarrow> 'h gw_event \<Rightarrow> ('h, 'd, 'w) gateway \<Rightarrow> ('h, 'd, 'w) gateway" where
  "gw_exec lb (HttpReq tk body) s = snd (http_rpc lb tk body s)"
| "gw_exec lb (WsOpen tk fid conn inp) s = snd (snd (ws_open lb tk fid conn inp s))"
| "gw_exec lb (WsClose fid) s = ws_close fid s"

definition decoded :: "('d, 'w) libs \<Rightarrow> bytes \<Rightarrow> Req" where
  "decoded lb dat = Req_FromBytes (libJson lb) dat zero_Req"

text \<open>An \<open>auth\<close> request that passes.\<close>

fun logs_in :: "('d, 'w) libs \<Rightarrow> string \<Rightarrow> 'h gw_event \<Rightarrow> bool" where
  "logs_in lb pwd (HttpReq tk (Some dat)) \<longleftrightarrow>
     reqMethod (decoded lb dat) = ''auth'' \<and> (pwd = [] \<or> reqParams (decoded lb dat) = [XStr pwd])"
| "logs_in lb pwd e \<longleftrightarrow> False"

fun is_close :: "'h gw_event \<Rightarrow> bool" where
  "is_close (WsClose fid) = True"
| "is_close e = False"

lemma handle_no_token:
  assumes "gwTokens s = Map.empty" and "\<not> (reqMethod req = ''auth'' \<and> (gwPwd s = [] \<or> reqParams req = [XStr (gwPwd s)]))"
  shows "\<exists>code msg. handle_req lb tk req s = (Some (NewRsp (reqId req) RNil (Some \<lparr>errCode = code, errMessage = msg\<rparr>)), s) \<and>
    code \<in> {''1001'', ''1002''}"
  using assms by (auto simp: handle_req_def token_time_def fnReg_def fn_auth_def)

lemma exec_no_token:
  assumes "gwTokens s = Map.empty" and "\<not> logs_in lb (gwPwd s) ev" and "\<not> is_close ev"
  shows "gw_exec lb ev s = s"
proof (cases ev)
  case (HttpReq tk body)
  show ?thesis
  proof (cases body)
    case None
    with HttpReq show ?thesis by (simp add: http_rpc_def)
  next
    case (Some dat)
    with HttpReq assms handle_no_token [of s "decoded lb dat" lb tk] show ?thesis
      by (auto simp: http_rpc_def decoded_def)
  qed
next
  case (WsOpen tk fid conn inp)
  with assms(1) show ?thesis by (auto simp: ws_open_def Let_def split: option.split)
qed (use assms(3) in simp)

lemma run_no_token:
  "gwTokens s = Map.empty \<Longrightarrow> \<forall>ev\<in>set evs. \<not> logs_in lb (gwPwd s) ev \<and> \<not> is_close ev \<Longrightarrow>
    fold (gw_exec lb) evs s = s"
  by (induction evs) (simp_all add: exec_no_token)

lemma StartRPC_sel:
  assumes "StartRPC openFile pwd port c w = Some s"
  shows "gwTokens s = Map.empty" "gwPwd s = pwd" "gwChat s = c" "gwWorld s = w"
    "\<exists>udb gdb. gwServices s = [(''user'', UserService udb), (''group'', GroupService gdb)]"
  using assms by (auto simp: StartRPC_def serviceReg_def split: option.splits prod.splits)

text \<open>
  Without the password nothing happens. On a gateway started with a password,
  any run of HTTP requests and attempts to open sessions none of which carries that password
  leaves the whole state as it was: no message is sent, nothing is stored or
  cleared, no handler registered; and each HTTP request that arrives is answered with error
  1001 or 1002.
\<close>

theorem no_password_no_effect:
  assumes start: "StartRPC openFile pwd port c w = Some s"
    and evs: "\<forall>ev\<in>set evs. \<not> logs_in lb pwd ev \<and> \<not> is_close ev"
    and req: "HttpReq tk (Some dat) \<in> set evs"
  shows "fold (gw_exec lb) evs s = s \<and>
    (\<exists>code msg. code \<in> {''1001'', ''1002''} \<and> http_rpc lb tk (Some dat) (fold (gw_exec lb) evs s) =
      (Some (Rsp_WriteTo (libJson lb) (NewRsp (reqId (decoded lb dat)) RNil (Some \<lparr>errCode = code, errMessage = msg\<rparr>))), s))"
proof -
  note st = StartRPC_sel [OF start]
  have same: "fold (gw_exec lb) evs s = s"
    by (rule run_no_token) (use st evs in auto)
  have "\<not> logs_in lb pwd (HttpReq tk (Some dat) :: 'a gw_event)" using evs req by auto
  with handle_no_token [OF st(1), of "decoded lb dat" lb tk] st(2) obtain code msg where
    "code \<in> {''1001'', ''1002''}" "handle_req lb tk (decoded lb dat) s =
      (Some (NewRsp (reqId (decoded lb dat)) RNil (Some \<lparr>errCode = code, errMessage = msg\<rparr>)), s)" by auto
  then show ?thesis by (auto simp: same http_rpc_def decoded_def)
qed

theorem no_password_no_effect_witness:
  "fold (gw_exec ref_libs) [HttpReq ref_tick (Some (pack [''1'', [], ''auth'', ''guess''])),
      WsOpen ref_tick ''f'' () (Some (pack [''2'', ''tok'', ''open'']))] ref_gw = ref_gw"
  by (rule conjunct1 [OF no_password_no_effect [OF ref_gw_started, where tk = ref_tick and dat = "pack [''1'', [], ''auth'', ''guess'']"]])
    (simp_all add: decoded_def del: pack.simps)

lemma call_tokens: "gwTokens (snd (call_service lb tk fn req s)) = gwTokens s \<and> gwPwd (snd (call_service lb tk fn req s)) = gwPwd s"
  by (cases fn) (auto simp: Group_Create_def Let_def
      split: list.splits prod.splits sum.splits option.splits rpc_fn.splits)

lemma handle_tokens:
  "gwPwd (snd (handle_req lb tk req s)) = gwPwd s \<and>
    (gwTokens (snd (handle_req lb tk req s)) = gwTokens s \<or>
     reqMethod req = ''auth'' \<and> (gwPwd s = [] \<or> reqParams req = [XStr (gwPwd s)]) \<and>
     gwTokens (snd (handle_req lb tk req s)) = (gwTokens s)(new_token lb (gwPwd s) tk \<mapsto> tkUnix tk))"
  using call_tokens [of lb tk _ req s]
  by (auto simp: handle_req_def fnReg_def fn_auth_def fn_sendmsg_def fn_myid_def fn_conns_def Let_def
      split: list.splits prod.splits sum.splits option.splits xval.splits)

lemma exec_tokens:
  "gwPwd (gw_exec lb ev s) = gwPwd s \<and>
    (gwTokens (gw_exec lb ev s) = gwTokens s \<or>
     (\<exists>tk dat. ev = HttpReq tk (Some dat) \<and> logs_in lb (gwPwd s) ev \<and>
       gwTokens (gw_exec lb ev s) = (gwTokens s)(new_token lb (gwPwd s) tk \<mapsto> tkUnix tk)))"
proof (cases ev)
  case (HttpReq tk body)
  show ?thesis
  proof (cases body)
    case None
    with HttpReq show ?thesis by (simp add: http_rpc_def)
  next
    case (Some dat)
    with HttpReq handle_tokens [of lb tk "decoded lb dat" s] show ?thesis
      by (auto simp: http_rpc_def decoded_def split: prod.splits option.splits)
  qed
next
  case (WsOpen tk fid conn inp)
  then show ?thesis
    by (auto simp: ws_open_def Let_def split: option.splits prod.splits)
next
  case (WsClose fid)
  then show ?thesis by (simp add: ws_close_def)
qed

definition issued :: "('d, 'w) libs \<Rightarrow> string \<Rightarrow> 'h gw_event list \<Rightarrow> string \<Rightarrow> bool" where
  "issued lb pwd evs t \<longleftrightarrow>
    (\<exists>tk dat. HttpReq tk (Some dat) \<in> set evs \<and> logs_in lb pwd (HttpReq tk (Some dat) :: 'h gw_event) \<and>
      t = new_token lb pwd tk)"

lemma tokens_issued:
  assumes "gwTokens s = Map.empty"
  shows "gwPwd (fold (gw_exec lb) evs s) = gwPwd s \<and>
    (\<forall>t. gwTokens (fold (gw_exec lb) evs s) t \<noteq> None \<longrightarrow> issued lb (gwPwd s) evs t)"
proof (induction evs rule: rev_induct)
  case Nil
  then show ?case using assms by simp
next
  case (snoc ev evs)
  let ?s = "fold (gw_exec lb) evs s"
  have more: "issued lb p evs t \<Longrightarrow> issued lb p (evs @ [ev]) t" for p t
    unfolding issued_def by auto
  from exec_tokens [of lb ev ?s] consider
      (same) "gwPwd (gw_exec lb ev ?s) = gwPwd s" "gwTokens (gw_exec lb ev ?s) = gwTokens ?s"
    | (new) tk dat where "gwPwd (gw_exec lb ev ?s) = gwPwd s" "ev = HttpReq tk (Some dat)" "logs_in lb (gwPwd s) ev"
        "gwTokens (gw_exec lb ev ?s) = (gwTokens ?s)(new_token lb (gwPwd s) tk \<mapsto> tkUnix tk)"
    using snoc.IH by auto
  then show ?case
  proof cases
    case same
    with snoc.IH more show ?thesis by simp
  next
    case new
    then have "issued lb (gwPwd s) (evs @ [ev]) (new_token lb (gwPwd s) tk)"
      unfolding issued_def by auto
    with new(1,4) snoc.IH more show ?thesis by simp
  qed
qed

text \<open>
  Property C11: every token was issued for the password. In any run of a gateway, a token it knows
  is the digest of the password and the time of an \<open>auth\<close> request of that run that passed: one with the
  password, unless the password is empty.
\<close>

theorem tokens_were_issued:
  assumes start: "StartRPC openFile pwd port c w = Some s"
    and tok: "gwTokens (fold (gw_exec lb) evs s) t \<noteq> None"
  shows "\<exists>tk dat. HttpReq tk (Some dat) \<in> set evs \<and> reqMethod (decoded lb dat) = ''auth'' \<and>
    (pwd = [] \<or> reqParams (decoded lb dat) = [XStr pwd]) \<and> t = new_token lb pwd tk"
proof -
  note st = StartRPC_sel [OF start]
  have "issued lb pwd evs t"
    using tokens_issued [of s lb evs] st(1,2) tok by auto
  then show ?thesis by (auto simp: issued_def)
qed

theorem tokens_were_issued_witness:
  "\<exists>tk dat. HttpReq tk (Some dat) \<in> set [HttpReq ref_tick (Some (pack [''1'', [], ''auth'', ''pw''])) :: unit gw_event] \<and>
    reqParams (decoded ref_libs dat) = [XStr ''pw''] \<and> new_token ref_libs ''pw'' ref_tick = new_token ref_libs ''pw'' tk"
proof -
  have "gwTokens (fold (gw_exec ref_libs) [HttpReq ref_tick (Some (pack [''1'', [], ''auth'', ''pw'']))] ref_gw)
      (new_token ref_libs ''pw'' ref_tick) \<noteq> None"
    by (simp add: http_rpc_def handle_req_def fnReg_def fn_auth_def Let_def del: pack.simps)
  from tokens_were_issued [OF ref_gw_started this] show ?thesis by fastforce
qed

section \<open>The methods\<close>

lemma split_two: "split_on c m = [a, b] \<longleftrightarrow> m = a @ c # b \<and> c \<notin> set a \<and> c \<notin> set b"
proof
  assume h: "split_on c m = [a, b]"
  then have "join_with [c] [a, b] = m" by (metis join_split)
  moreover have "c \<notin> set a" "c \<notin> set b" using h split_on_parts [of _ c m] by auto
  ultimately show "m = a @ c # b \<and> c \<notin> set a \<and> c \<notin> set b" by simp
qed (simp add: split_on_sep split_on_plain)

lemma getRpcFn_started:
  "getRpcFn [(''user'', UserService udb), (''group'', GroupService gdb)] m =
    (if m = ''user_put'' then Some (Fn_Put udb)
     else if m = ''user_get'' then Some (Fn_Get udb)
     else if m = ''user_del'' then Some (Fn_Del udb)
     else if m = ''user_query'' then Some (Fn_Query udb)
     else if m = ''group_create'' then Some (Fn_Create gdb)
     else None)"
proof (cases "\<exists>a b. split_on (CHR ''_'') m = [a, b]")
  case True
  then obtain a b where "split_on (CHR ''_'') m = [a, b]" by blast
  then have "split_on (CHR ''_'') m = [a, b]" "m = a @ CHR ''_'' # b" by (simp_all add: split_two)
  then show ?thesis
    by (auto simp: getRpcFn_def)
next
  case False
  have "\<exists>a b. split_on (CHR ''_'') k = [a, b]"
    if "k \<in> {''user_put'', ''user_get'', ''user_del'', ''user_query'', ''group_create''}" for k
    using that by auto
  with False show ?thesis
    by (auto simp: getRpcFn_def split: list.splits)
qed

text \<open>
  The methods of the gateway. With a valid token, a request is answered with
  \<open>method_not_support\<close> and changes nothing exactly when its method is none of the nine; the
  five with an underscore go to the function of that name on the database of its service.
\<close>

theorem method_table:
  assumes start: "StartRPC openFile pwd port c w = Some s0" and serv: "gwServices s = gwServices s0"
    and tok: "0 < token_time s (reqToken req)"
  shows "(reqMethod req \<notin> {''auth'', ''sendmsg'', ''myid'', ''conns'', ''user_put'', ''user_get'', ''user_del'',
        ''user_query'', ''group_create''} \<longrightarrow>
      handle_req lb tk req s = (Some (NewRsp (reqId req) RNil
        (Some \<lparr>errCode = ''1003'', errMessage = ''method_not_support''\<rparr>)), s)) \<and>
    (reqMethod req = ''user_get'' \<longrightarrow> (\<exists>db. handle_req lb tk req s = (User_Get (libL lb) (libUser lb) db req (gwUserdb s), s))) \<and>
    (reqMethod req = ''group_create'' \<longrightarrow> handle_req lb tk req s = Group_Create lb tk req s) \<and>
    (reqMethod req = ''myid'' \<longrightarrow> handle_req lb tk req s = (Some (NewRsp (reqId req) (RStr (csMyid (gwChat s))) None), s))"
proof -
  obtain udb gdb where "gwServices s = [(''user'', UserService udb), (''group'', GroupService gdb)]"
    using StartRPC_sel(5) [OF start] serv by auto
  then show ?thesis
    using tok by (auto simp: handle_req_def fnReg_def getRpcFn_started fn_myid_def GetMyid_def)
qed

theorem method_table_witness:
  "handle_req ref_libs ref_tick \<lparr>reqId = ''1'', reqToken = ''tok'', reqMethod = ''user_drop'', reqParams = []\<rparr> ref_gw_in =
    (Some (NewRsp ''1'' RNil (Some \<lparr>errCode = ''1003'', errMessage = ''method_not_support''\<rparr>)), ref_gw_in)"
  using method_table [OF ref_gw_started ref_gw_in_sel(4), of "\<lparr>reqId = ''1'', reqToken = ''tok'', reqMethod = ''user_drop'',
    reqParams = []\<rparr>" ref_libs ref_tick] by simp

section \<open>Users\<close>

text \<open>
  Property C32: a stored user is found under the first 53 bytes of its id, not under the id. After
  \<open>user_put\<close> of a user with an id, \<open>user_get\<close> of the peer id returns exactly that user. With a
  full JID, or any id that is not 53 bytes long, \<open>user_get\<close> of the id itself fails with error
  20002, when nothing else is stored there, and \<open>user_del\<close> of it reports success and
  leaves the user in place.
\<close>

theorem user_put_then_get:
  assumes env: "user_store L ok view U" and ok: "ok d"
    and read: "read_user U J p = (Some u, None)" and uid: "uId u \<noteq> []" and params: "reqParams req = p # ps"
  shows "\<exists>d'. User_Put L U J db req d = (Some (NewRsp (reqId req) (RStr ''success'') None), d') \<and>
    User_Get L U db (zero_Req\<lparr>reqParams := [XStr (Peerid (uId u))]\<rparr>) d' = Some (NewRsp [] (RUser u) None) \<and>
    (length (uId u) \<noteq> 53 \<and> db_contents view db d (uId u) = None \<longrightarrow>
      (\<exists>err. User_Get L U db (zero_Req\<lparr>reqParams := [XStr (uId u)]\<rparr>) d' =
        Some (NewRsp [] RNil (Some \<lparr>errCode = ''20002'', errMessage = err\<rparr>))) \<and>
      (\<exists>d''. User_Del L db (zero_Req\<lparr>reqParams := [XStr (uId u)]\<rparr>) d' =
          (Some (NewRsp [] (RStr ''success'') None), d'') \<and>
        User_Get L U db (zero_Req\<lparr>reqParams := [XStr (Peerid (uId u))]\<rparr>) d'' = Some (NewRsp [] (RUser u) None)))"
proof -
  from user_store.user_put_ok [OF env, OF ok, of u db] uid obtain d' where
    d': "user_put L U db u d = (None, d')" "ok d'"
    "db_contents view db d' = (db_contents view db d)(Peerid (uId u) \<mapsto> User_Bytes U u)" by auto
  have put: "User_Put L U J db req d = (Some (NewRsp (reqId req) (RStr ''success'') None), d')"
    by (simp add: User_Put_def params read uid d')
  have get: "user_get L U db (Peerid (uId u)) d' = (Some u, None)"
    by (rule user_store.user_get_at [OF env, OF d'(2)]) (simp add: d'(3))
  have full: "(\<exists>e. user_get L U db (uId u) d' = (None, Some e)) \<and>
      (\<exists>d''. user_del L db (uId u) d' = (None, d'') \<and> user_get L U db (Peerid (uId u)) d'' = (Some u, None))"
    if len: "length (uId u) \<noteq> 53" and none: "db_contents view db d (uId u) = None"
  proof
    have neq: "Peerid (uId u) \<noteq> uId u"
      using len uid length_Peerid [of "uId u"] by (metis length_0_conv)
    with none have "db_contents view db d' (uId u) = None" by (simp add: d'(3))
    then show "\<exists>e. user_get L U db (uId u) d' = (None, Some e)"
      by (rule user_store.user_get_absent [OF env, OF d'(2)])
    from user_store.user_del_ok [OF env, OF d'(2), of db "uId u"] obtain d'' where
      d'': "user_del L db (uId u) d' = (None, d'')" "ok d''"
      "db_contents view db d'' = (db_contents view db d')(uId u := None)" by auto
    have "user_get L U db (Peerid (uId u)) d'' = (Some u, None)"
      by (rule user_store.user_get_at [OF env, OF d''(2)]) (simp add: d''(3) d'(3) neq)
    with d''(1) show "\<exists>d''. user_del L db (uId u) d' = (None, d'') \<and> user_get L U db (Peerid (uId u)) d'' = (Some u, None)"
      by blast
  qed
  from put get full show ?thesis
    by (fastforce simp: User_Get_def User_Del_def zero_Req_def)
qed

definition demo_user :: User where "demo_user = zero_User\<lparr>uName := ''bob'', uId := bob_jid\<rparr>"

lemma demo_user_sel [simp]: "uId demo_user = bob_jid" "uId demo_user \<noteq> []" "uGid demo_user = []"
  using bob_facts(3) by (auto simp: demo_user_def zero_User_def simp flip: length_0_conv simp del: length_0_conv)

lemma demo_user_read: "read_user ref_user ref_json (XStr (pack (user_to demo_user))) = (Some demo_user, None)"
  by (simp add: read_user_def User_FromJson_def ref_user_def field_codec_def Let_def)

theorem user_put_then_get_witness:
  "\<exists>d' err. User_Put mem_leveldb ref_user ref_json (LDBDatabase ''user'')
      (zero_Req\<lparr>reqParams := [XStr (pack (user_to demo_user))]\<rparr>) [] = (Some (NewRsp [] (RStr ''success'') None), d') \<and>
    User_Get mem_leveldb ref_user (LDBDatabase ''user'') (zero_Req\<lparr>reqParams := [XStr bob_jid]\<rparr>) d' =
      Some (NewRsp [] RNil (Some \<lparr>errCode = ''20002'', errMessage = err\<rparr>))"
  using user_put_then_get [OF ref_user_store mem_ok_empty demo_user_read demo_user_sel(2),
      of "zero_Req\<lparr>reqParams := [XStr (pack (user_to demo_user))]\<rparr>" "[]" "LDBDatabase ''user''"]
  by (fastforce simp: zero_Req_def db_contents_def)

text \<open>
  Users with ids shorter than 53 bytes overwrite each other. Whatever the two ids,
  storing the second leaves nothing of the first: the database is what storing the second
  alone would leave.
\<close>

theorem short_user_ids_collide:
  assumes env: "user_store L ok view U" and ok: "ok d"
    and ids: "uId u \<noteq> []" "uId v \<noteq> []" "length (uId u) < 53" "length (uId v) < 53"
  shows "db_contents view db (snd (user_put L U db v (snd (user_put L U db u d)))) =
    db_contents view db (snd (user_put L U db v d))"
proof -
  from user_store.user_put_ok [OF env, OF ok, of u db] ids obtain d1 where
    d1: "user_put L U db u d = (None, d1)" "ok d1" "db_contents view db d1 = (db_contents view db d)([] \<mapsto> User_Bytes U u)"
    by (auto simp: Peerid_short)
  from user_store.user_put_ok [OF env, OF d1(2), of v db] user_store.user_put_ok [OF env, OF ok, of v db] ids d1 show ?thesis
    by (auto simp: Peerid_short)
qed

theorem short_user_ids_collide_witness:
  "map_of (snd (user_put mem_leveldb ref_user (LDBDatabase ''user'') (zero_User\<lparr>uId := ''b''\<rparr>)
      (snd (user_put mem_leveldb ref_user (LDBDatabase ''user'') (zero_User\<lparr>uId := ''a''\<rparr>) [])))) =
    map_of (snd (user_put mem_leveldb ref_user (LDBDatabase ''user'') (zero_User\<lparr>uId := ''b''\<rparr>) []))"
  using short_user_ids_collide [OF ref_user_store mem_ok_empty, of "zero_User\<lparr>uId := ''a''\<rparr>" "zero_User\<lparr>uId := ''b''\<rparr>"
      "LDBDatabase ''user''"]
  by (simp add: db_contents_def)

lemma users_loop_filter:
  "users_loop U it sl = sl @ List.map_filter (\<lambda>kv. case User_FromBytes U (snd kv) zero_User of
    (m, None) \<Rightarrow> Some m | (m, Some e) \<Rightarrow> None) it"
  by (induction U it sl rule: users_loop.induct)
    (auto simp: List.map_filter_def split: prod.splits option.splits)

text \<open>
  The method \<open>user_query\<close> lists every user that decodes, and nothing else, each as often as
  it is stored under a key.
\<close>

theorem user_query_complete:
  assumes env: "user_store L ok view U" and ok: "ok d"
  shows "\<exists>us. User_Query L U (LDBDatabase fn) req d = Some (NewRsp (reqId req) (RUsers us) None) \<and>
    (\<forall>u. u \<in> set us \<longleftrightarrow> (\<exists>k b. view d k = Some b \<and> User_FromBytes U b zero_User = (u, None)))"
proof -
  have laws: "leveldb_laws L ok view"
    using env by (simp add: user_store_def database_def)
  have iter: "(k, v) \<in> set (lvIter L d) \<longleftrightarrow> view d k = Some v" for k v
    using leveldb_laws.lv_iter [OF laws, OF ok] leveldb_laws.lv_iter_distinct [OF laws, OF ok]
    by (metis map_of_eq_Some_iff)
  let ?us = "List.map_filter (\<lambda>kv. case User_FromBytes U (snd kv) zero_User of
      (m, None) \<Rightarrow> Some m | (m, Some e) \<Rightarrow> None) (lvIter L d)"
  have "u \<in> set ?us \<longleftrightarrow> (\<exists>kv\<in>set (lvIter L d). User_FromBytes U (snd kv) zero_User = (u, None))" for u
    by (force simp: List.map_filter_def split: prod.splits option.splits)
  then have "\<forall>u. u \<in> set ?us \<longleftrightarrow> (\<exists>k b. view d k = Some b \<and> User_FromBytes U b zero_User = (u, None))"
    using iter by (metis (no_types, lifting) prod.collapse snd_conv)
  then show ?thesis
    by (intro exI [of _ ?us]) (simp add: User_Query_def user_query_def users_loop_filter)
qed

section \<open>Creating groups\<close>

lemma user_put_fn:
  assumes "StartRPC openFile pwd port c w = Some s0"
  shows "\<exists>udb. getRpcFn (gwServices s0) ''user_put'' = Some (Fn_Put udb) \<and>
    getRpcFn (gwServices s0) ''user_get'' = Some (Fn_Get udb)"
  using StartRPC_sel(5) [OF assms] by (auto simp: getRpcFn_started)





text \<open>
  Property C34: a created group is recorded. When the mailbox answers with a group, the gateway
  answers with it, and from then on \<open>user_get\<close> of the group id returns the user that was decoded
  from the group's id, name, comment and log, in the state the method left.
\<close>

theorem group_create_recorded:
  assumes env: "user_store (libL lb) ok view (libUser lb)" and ok: "ok (gwUserdb s)"
    and start: "StartRPC openFile pwd port c w = Some s0" and serv: "gwServices s = gwServices s0"
    and params: "reqParams req = p # ps" and grp: "read_group (libA lb) (libJson lb) p = Some grp"
    and made: "CreateGroup (libA lb) (libP2p lb) (tkKeyid tk) (gwChat s) grp (gwWorld s) = (Inr grsp, grp', w')"
    and g: "grGroup grsp = Some g" "gId g \<noteq> []"
    and json: "read_user (libUser lb) (libJson lb) (XMap [(''gid'', XStr (gId g)), (''name'', XStr (gName g)),
      (''comment'', XStr (gComment g)), (''lastlog'', XStr (gLastlog g))]) = (Some u, None)"
    and u: "uId u = []" "uGid u = gId g"
  shows "\<exists>s' fn. Group_Create lb tk req s = (Some (NewRsp (reqId req) (RGroup grsp) None), s') \<and> gwWorld s' = w' \<and>
    getRpcFn (gwServices s') ''user_get'' = Some fn \<and>
    call_service lb tk' fn (zero_Req\<lparr>reqParams := [XStr (gId g)]\<rparr>) s' = (Some (NewRsp [] (RUser u) None), s')"
proof -
  from user_put_fn [OF start] serv obtain udb where fns: "getRpcFn (gwServices s) ''user_put'' = Some (Fn_Put udb)"
    "getRpcFn (gwServices s) ''user_get'' = Some (Fn_Get udb)" by auto
  from user_store.user_put_ok [OF env, OF ok, of u udb] u g(2) obtain d' where
    d': "user_put (libL lb) (libUser lb) udb u (gwUserdb s) = (None, d')" "ok d'"
    "db_contents view udb d' = (db_contents view udb (gwUserdb s))(gId g \<mapsto> User_Bytes (libUser lb) u)" by auto
  have get: "user_get (libL lb) (libUser lb) udb (gId g) d' = (Some u, None)"
    by (rule user_store.user_get_at [OF env, OF d'(2)]) (simp add: d'(3))
  let ?s' = "s\<lparr>gwWorld := w', gwUserdb := d'\<rparr>"
  have "Group_Create lb tk req s = (Some (NewRsp (reqId req) (RGroup grsp) None), ?s')"
    using g(2) u by (simp add: Group_Create_def params grp made g(1) fns User_Put_def zero_Req_def json d'(1))
  moreover have "call_service lb tk' (Fn_Get udb) (zero_Req\<lparr>reqParams := [XStr (gId g)]\<rparr>) ?s' =
      (Some (NewRsp [] (RUser u) None), ?s')"
    by (simp add: User_Get_def zero_Req_def get)
  ultimately show ?thesis
    using fns(2) by (intro exI [of _ ?s'] exI [of _ "Fn_Get udb"]) simp
qed

definition recorded_user :: User where
  "recorded_user = zero_User\<lparr>uName := ''n'', uGid := ''g'', uLastlog := ''u''\<rparr>"

definition create_req :: Req where
  "create_req = zero_Req\<lparr>reqParams := [XStr (pack (group_to demo_group))]\<rparr>"

theorem group_create_recorded_witness:
  "\<exists>s' fn grsp. Group_Create ref_libs ref_tick create_req ref_gw_in = (Some (NewRsp [] (RGroup grsp) None), s') \<and>
    call_service ref_libs ref_tick fn (zero_Req\<lparr>reqParams := [XStr ''g'']\<rparr>) s' =
      (Some (NewRsp [] (RUser recorded_user) None), s')"
proof -
  let ?g = "demo_group\<lparr>gOwner := Some (owner_of ''me''), gLastlog := ''u''\<rparr>"
  obtain w' where made: "CreateGroup (libA ref_libs) (libP2p ref_libs) (tkKeyid ref_tick) (gwChat ref_gw_in)
      demo_group (gwWorld ref_gw_in) = (Inr \<lparr>grGroup = Some ?g, grErr = []\<rparr>, demo_group, w')"
    using ref_create by (auto simp: ref_tick_def)
  have store: "user_store (libL ref_libs) mem_ok map_of (libUser ref_libs)"
    unfolding ref_libs_sel by (rule ref_user_store)
  have params: "reqParams create_req = pack_param # []" if "pack_param = XStr (pack (group_to demo_group))" for pack_param
    using that by (simp add: create_req_def zero_Req_def)
  have grp: "read_group (libA ref_libs) (libJson ref_libs) (XStr (pack (group_to demo_group))) = Some demo_group"
    by (simp add: read_group_def groupBean_FromJson_def ref_codecs_def field_codec_def Let_def group_fields exp_group_def)
  have json: "read_user (libUser ref_libs) (libJson ref_libs) (XMap [(''gid'', XStr (gId ?g)), (''name'', XStr (gName ?g)),
      (''comment'', XStr (gComment ?g)), (''lastlog'', XStr (gLastlog ?g))]) = (Some recorded_user, None)"
    by (simp add: read_user_def User_FromMap_def User_FromJson_def ref_json_def ref_user_def field_codec_def Let_def
        str_at_def recorded_user_def zero_User_def demo_group_def zero_Group_def)
  have ok: "mem_ok (gwUserdb ref_gw_in)" by (simp add: mem_ok_empty)
  from group_create_recorded [OF store ok ref_gw_started ref_gw_in_sel(4) params [OF refl] grp made _ _ json, of ref_tick]
  show ?thesis
    by (fastforce simp: recorded_user_def zero_User_def create_req_def zero_Req_def)
qed

section \<open>Sending and receiving\<close>

lemma sendmsg_result:
  assumes tok: "0 < token_time s (reqToken req)" and meth: "reqMethod req = ''sendmsg''"
  shows "(reqParams req = XStr jid # Str2X (split_on (CHR '' '') text) \<longrightarrow>
      (case SendMsg (libA lb) (libP2p lb)
          (NewNormalMessage (tkUuid tk) (tkUnix tk) (csMyid (gwChat s)) jid text []) (gwWorld s) of
        (None, w) \<Rightarrow> handle_req lb tk req s = (Some (NewRsp (reqId req) (RStr ''success'') None), s\<lparr>gwWorld := w\<rparr>)
      | (Some err, w) \<Rightarrow> handle_req lb tk req s =
          (Some (NewRsp (reqId req) RNil (Some \<lparr>errCode = ''1003'', errMessage = err\<rparr>)), s\<lparr>gwWorld := w\<rparr>))) \<and>
    (reqParams req = [] \<longrightarrow> handle_req lb tk req s = (None, s))"
proof -
  have x: "X2Str (map XStr ss) = Inr ss" for ss
    by (induction ss) simp_all
  show ?thesis
    using tok meth
    by (auto simp: handle_req_def fnReg_def fn_sendmsg_def Str2X_def x join_split GetMyid_def Let_def
        split: prod.split option.split)
qed

text \<open>
  \<open>sendmsg\<close> sends what was typed. With a valid token, a recipient and the words of
  a text as parameters, the message that is sent has the text as its content, byte for byte, and
  the node's own JID as sender; the answer is success exactly when sending reported no
  error. Without any parameter the method panics.
\<close>

theorem sendmsg_sends_text:
  assumes tok: "0 < token_time s (reqToken req)" and meth: "reqMethod req = ''sendmsg''"
  shows "(reqParams req = XStr jid # Str2X (split_on (CHR '' '') text) \<longrightarrow>
      (case SendMsg (libA lb) (libP2p lb)
          (NewNormalMessage (tkUuid tk) (tkUnix tk) (csMyid (gwChat s)) jid text []) (gwWorld s) of
        (None, w) \<Rightarrow> handle_req lb tk req s = (Some (NewRsp (reqId req) (RStr ''success'') None), s\<lparr>gwWorld := w\<rparr>)
      | (Some err, w) \<Rightarrow> handle_req lb tk req s =
          (Some (NewRsp (reqId req) RNil (Some \<lparr>errCode = ''1003'', errMessage = err\<rparr>)), s\<lparr>gwWorld := w\<rparr>))) \<and>
    (reqParams req = [] \<longrightarrow> handle_req lb tk req s = (None, s))"
  by (rule sendmsg_result [OF tok meth])

theorem sendmsg_sends_text_witness:
  "handle_req ref_libs ref_tick \<lparr>reqId = ''1'', reqToken = ''tok'', reqMethod = ''sendmsg'', reqParams = []\<rparr> ref_gw_in =
    (None, ref_gw_in)"
  using sendmsg_sends_text [of ref_gw_in "\<lparr>reqId = ''1'', reqToken = ''tok'', reqMethod = ''sendmsg'', reqParams = []\<rparr>"
    "[]" "[]" ref_libs ref_tick] by simp

text \<open>
  Opening a session hands over the mailbox. With a known token and a mailbox that can be
  reached, the session is told so and is then sent every message the mailbox holds for
  this node, in the order of the query, it is registered for the messages to come, and the mailbox
  is empty afterwards.
\<close>

lemma session_drains:
  assumes net: "mailbox_client L ok view (libA lb) srt fn us box dbs (libP2p lb) me" and ok: "ok (dbs (gwWorld s))"
    and jid: "53 \<le> length (csMyid (gwChat s))" "Mailid (csMyid (gwChat s)) = box"
    and tok: "gwTokens s (reqToken (decoded lb dat)) \<noteq> None"
    and keyed: "\<And>i m. mbox_abs (libA lb) (view (dbs (gwWorld s))) (Peerid (csMyid (gwChat s))) i = Some m \<Longrightarrow>
      eId (mEnvelope m) = i"
    and ms: "ms = Messages (doQueryMsg L (libA lb) srt (LDBDatabase fn) (csMyid (gwChat s)) (dbs (gwWorld s)))"
    and fits: "length (encoded (cJID (libA lb)) (csMyid (gwChat s))) \<le> 128"
      "length (encoded (cClean (libA lb)) \<lparr>cJid = csMyid (gwChat s), cIds = map (\<lambda>m. eId (mEnvelope m)) ms\<rparr>) \<le> 2 * 1024 * 1024"
  shows "\<exists>s'. ws_open lb tk fid conn (Some dat) s =
      (map (Message_Json (libA lb)) (NewSysMessage (tkUuid tk) (tkUnix tk) []
          [\<lparr>aKey = ''method'', aVal = reqMethod (decoded lb dat)\<rparr>, \<lparr>aKey = ''result'', aVal = ''success''\<rparr>] # ms), Some fid, s') \<and>
    gwTokens s' = gwTokens s \<and> map_of (csHandleMsgFn (gwChat s')) fid = Some conn \<and>
    Messages (doQueryMsg L (libA lb) srt (LDBDatabase fn) (csMyid (gwChat s)) (dbs (gwWorld s'))) = []"
proof -
  let ?c = "gwChat s" and ?w = "gwWorld s"
  obtain w1 e w2 where w: "cs_QueryMsg (libA lb) (libP2p lb) ?c ?w =
      ((Some (doQueryMsg L (libA lb) srt (LDBDatabase fn) (csMyid ?c) (dbs ?w)), None), w1)"
    "cs_CleanMsg (libA lb) (libP2p lb) ?c (map (\<lambda>m. eId (mEnvelope m)) ms) w1 = (e, w2)"
    "Messages (doQueryMsg L (libA lb) srt (LDBDatabase fn) (csMyid ?c) (dbs w2)) = []"
    using query_then_clean [OF net, OF ok jid keyed ms fits] by blast
  then show ?thesis
    using tok ms
    by (simp add: ws_open_def decoded_def [symmetric] Let_def AppendHandleMsg_def update_conv')
qed

section \<open>The hash of a member list\<close>

lemma sorted_ids_unique:
  assumes "mset (map meId xs) = mset (map meId ys)"
    and "sorted_wrt (\<lambda>a b. \<not> me_less b a) xs" and "sorted_wrt (\<lambda>a b. \<not> me_less b a) ys"
  shows "map meId xs = map meId ys"
  using assms
proof (induction xs arbitrary: ys)
  case Nil
  then show ?case by simp
next
  case (Cons x xs)
  then obtain y ys' where ys: "ys = y # ys'" by (cases ys) auto
  have "meId x \<in> set (map meId ys)" "meId y \<in> set (map meId (x # xs))"
    using mset_eq_setD [OF Cons.prems(1)] ys by auto
  with Cons.prems(2,3) ys have "meId x = meId y"
    by (auto simp: me_less_def) (metis bytes_less_linear bytes_less_irrefl)+
  with Cons ys show ?case by simp
qed

text \<open>
  The hash of a member list depends on the ids only. Two lists with the same ids, in any
  order and with any names, have the same hash, although the sort is not stable.
\<close>

theorem members_hash_order:
  assumes srt: "sort_contract me_less srt" and same: "mset (map meId xs) = mset (map meId ys)"
  shows "fst (ms_Hash sha1 srt xs) = fst (ms_Hash sha1 srt ys)"
proof -
  have "mset (map meId (srt zs)) = mset (map meId zs)" for zs
    using sort_contract.sort_perm [OF srt, of zs] by simp
  then have "map meId (srt xs) = map meId (srt ys)"
    using sorted_ids_unique [of "srt xs" "srt ys"] sort_contract.sort_ordered [OF srt] same by simp
  then show ?thesis by (simp add: ms_Hash_def Let_def)
qed

interpretation ref_members_sort: sort_contract me_less "sort_key meId"
proof unfold_locales
  fix xs :: "Member list"
  have "bytes_less a b \<longleftrightarrow> a < b" for a b :: string
    by (induction a b rule: bytes_less.induct) (auto simp: less_char_def)
  then show "sorted_wrt (\<lambda>x y. \<not> me_less y x) (sort_key meId xs)"
    using sorted_sort_key [of meId xs] by (simp add: sorted_map me_less_def not_less)
qed simp

theorem members_hash_order_witness:
  "fst (ms_Hash rev (sort_key meId) [\<lparr>meId = ''b'', meName = []\<rparr>, \<lparr>meId = ''a'', meName = ''x''\<rparr>]) =
    fst (ms_Hash rev (sort_key meId) [\<lparr>meId = ''a'', meName = ''y''\<rparr>, \<lparr>meId = ''b'', meName = []\<rparr>])"
  by (rule members_hash_order [OF ref_members_sort.sort_contract_axioms]) simp

end
