(* ===== verification/AppProps.thy ===== *)
theory AppProps
  imports App RpcProps
begin

text \<open>
  The program as a whole: what a node looks like when it has started, what a line typed at the
  console ends up as, how a session of the console runs and ends, and who can log in with it.
\<close>

section \<open>Starting\<close>

lemma plain_db_names: "plain_name ''mailbox''" "plain_name ''user''" "plain_name ''group''"
  by (simp_all add: plain_name_def)

text \<open>
  A node starts in the state the other properties assume. Its JID is its peer id
  followed by the mailbox of the flags, the gateway knows no token and has both services, the
  log handler is the only registered one, the loop is waiting with an empty channel, and the three
  databases are in three different directories.
\<close>

theorem node_starts_clean:
  assumes boot: "achat newService P openFile uuid lg f = Some (r, d, gw)"
  shows "\<exists>cfg. achat_config f = Some cfg \<and> csMyid (sSvc r) = NewJID (pMyid P (newService cfg)) (flMailbox f) \<and>
    gwChat gw = sSvc r \<and> gwTokens gw = Map.empty \<and> gwPwd gw = flPwd f \<and>
    csHandleMsgFn (sSvc r) = [(uuid, lg)] \<and> sLoop r = Idle \<and> csRecvMsgCh (sSvc r) = [] \<and> \<not> csStop (sSvc r) \<and>
    (\<exists>udb gdb. gwServices gw = [(''user'', UserService udb), (''group'', GroupService gdb)] \<and>
      distinct (map db_Path [mbDb (csMbox (sSvc r)), udb, gdb]))"
proof -
  from boot obtain cfg where cfg: "achat_config f = Some cfg"
    by (auto simp: achat_def split: option.splits)
  let ?w = "newService cfg"
  from boot cfg obtain c cd where c: "NewChatService openFile (NewJID (pMyid P ?w) (flMailbox f)) (flHomedir f) = Some (c, cd)"
    and gw: "StartRPC openFile (flPwd f) (flRpcport f) (snd (AppendHandleMsg uuid lg c)) ?w = Some gw"
    and r: "r = cs_Start (snd (AppendHandleMsg uuid lg c))"
    by (auto simp: achat_def Let_def split: option.splits)
  from c have sel: "csMyid c = NewJID (pMyid P ?w) (flMailbox f)" "csHandleMsgFn c = []" "csRecvMsgCh c = []" "\<not> csStop c"
    "csHomedir c = flHomedir f" "mbDb (csMbox c) = LDBDatabase (path_Join [flHomedir f, ''mailbox''])"
    by (auto simp: NewChatService_def newMailbox_def NewLDBDatabase_def split: option.splits sum.splits)
  from gw sel have serv: "gwServices gw = [(''user'', UserService (LDBDatabase (path_Join [flHomedir f, ''user'']))),
      (''group'', GroupService (LDBDatabase (path_Join [flHomedir f, ''group''])))]"
    by (auto simp: StartRPC_def NewUserService_def NewGroupService_def NewLDBDatabase_def GetHomedir_def serviceReg_def
        AppendHandleMsg_def split: option.splits sum.splits)
  have dist: "distinct (map db_Path [mbDb (csMbox c), LDBDatabase (path_Join [flHomedir f, ''user'']),
      LDBDatabase (path_Join [flHomedir f, ''group''])])"
    by (simp add: sel(6) path_Join_inj plain_db_names)
  show ?thesis
    using StartRPC_sel(1-3) [OF gw] sel serv dist
    by (intro exI [of _ cfg]) (simp add: cfg r cs_Start_def AppendHandleMsg_def)
qed

theorem node_starts_clean_witness:
  "\<exists>r d gw. achat (\<lambda>cfg. [] :: mem) (ref_p2p (peer_of CHR ''b'')) (\<lambda>fn opts. Inr ([] :: mem)) ''log'' () default_flags =
      Some (r, d, gw) \<and> gwTokens gw = Map.empty \<and> csMyid (sSvc r) = peer_of CHR ''b''"
proof -
  obtain r d gw where boot: "achat (\<lambda>cfg. [] :: mem) (ref_p2p (peer_of CHR ''b'')) (\<lambda>fn opts. Inr ([] :: mem)) ''log'' () default_flags =
      Some (r, d, gw)"
    by (simp add: achat_def achat_config_def default_flags_def Let_def NewChatService_def newMailbox_def NewLDBDatabase_def
        StartRPC_def NewUserService_def NewGroupService_def)
  from node_starts_clean [OF boot] boot show ?thesis
    by (auto simp: default_flags_def NewJID_def ref_p2p_def)
qed

section \<open>From the console to the message\<close>

text \<open>A line that a session sends as text: its first word is none of the console's own.\<close>

definition plain_line :: "string \<Rightarrow> bool" where
  "plain_line cmd \<longleftrightarrow> cmd \<noteq> [] \<and> hd (split_on (CHR '' '') (trim_char (CHR '' '') cmd)) \<notin>
    {''opensession'', ''help'', ''exit'', ''myid'', ''conns'', ''group_create'', ''user_query''}"

definition text_req :: "string \<Rightarrow> string \<Rightarrow> string \<Rightarrow> string \<Rightarrow> Req" where
  "text_req uuid token t cmd = \<lparr>reqId = uuid, reqToken = token, reqMethod = ''sendmsg'',
     reqParams = XStr t # Str2X (split_on (CHR '' '') (trim_char (CHR '' '') cmd))\<rparr>"

lemma run_plain_line:
  "plain_line cmd \<Longrightarrow> run_line J uuid token t cmd = Spawn (split_on (CHR '' '') (trim_char (CHR '' '') cmd))"
  by (simp add: run_line_def Let_def plain_line_def)

lemma send_plain_line:
  assumes "t \<noteq> []" and "jsMap J (join_with '' '' (t # split_on (CHR '' '') (trim_char (CHR '' '') cmd))) = Inl e"
  shows "send_req J uuid token t (split_on (CHR '' '') (trim_char (CHR '' '') cmd)) = text_req uuid token t cmd"
proof -
  have "XStr t # Str2X (split_on (CHR '' '') (trim_char (CHR '' '') cmd)) =
      map XStr (t # split_on (CHR '' '') (trim_char (CHR '' '') cmd))"
    by (simp add: Str2X_def)
  then show ?thesis
    using assms by (simp add: send_req_def NewReq_def adapt_def text_req_def del: list.map)
qed

text \<open>
  What is typed in a session is sent as it was typed. In a session with \<open>t\<close>, a line that is
  no command starts a goroutine; when that makes its request while the session is still open, the request,
  decoded by the gateway, sends \<open>t\<close> a message whose content
  is the line without the spaces at its ends; spaces inside are kept, however many. The words
  together with \<open>t\<close> must not be a JSON object, and the request must survive its encoding.
\<close>

lemma typed_text_sent:
  assumes t: "t \<noteq> []" and line: "plain_line cmd" and tok: "0 < token_time s token"
    and nojson: "jsMap (libJson lb) (join_with '' '' (t # split_on (CHR '' '') (trim_char (CHR '' '') cmd))) = Inl e"
    and coded: "Req_FromBytes (libJson lb) (Req_WriteTo (libJson lb) (text_req uuid token t cmd)) zero_Req =
      text_req uuid token t cmd"
    and sent: "SendMsg (libA lb) (libP2p lb) (NewNormalMessage (tkUuid tk) (tkUnix tk) (csMyid (gwChat s)) t
      (trim_char (CHR '' '') cmd) []) (gwWorld s) = (None, w)"
  shows "\<exists>ws. run_line (libJson lb) uuid token t cmd = Spawn ws \<and>
    http_rpc lb tk (Some (Req_WriteTo (libJson lb) (send_req (libJson lb) uuid token t ws))) s =
      (Some (Rsp_WriteTo (libJson lb) (NewRsp uuid (RStr ''success'') None)), s\<lparr>gwWorld := w\<rparr>)"
proof -
  have req: "reqParams (text_req uuid token t cmd) = XStr t # Str2X (split_on (CHR '' '') (trim_char (CHR '' '') cmd))"
    "reqToken (text_req uuid token t cmd) = token" "reqMethod (text_req uuid token t cmd) = ''sendmsg''"
    "reqId (text_req uuid token t cmd) = uuid"
    by (simp_all add: text_req_def)
  have "handle_req lb tk (text_req uuid token t cmd) s =
      (Some (NewRsp uuid (RStr ''success'') None), s\<lparr>gwWorld := w\<rparr>)"
    using sendmsg_result [of s "text_req uuid token t cmd" t "trim_char (CHR '' '') cmd" lb tk] req tok sent by simp
  then show ?thesis
    using run_plain_line [OF line, of "libJson lb" uuid token t] send_plain_line [OF t nojson, of uuid token] coded
    by (simp add: http_rpc_def)
qed

lemma ref_req_coded:
  "Req_FromBytes ref_json (Req_WriteTo ref_json (text_req uuid token t cmd)) zero_Req = text_req uuid token t cmd"
proof -
  have "all_strings (reqParams (text_req uuid token t cmd)) =
      Some (t # split_on (CHR '' '') (trim_char (CHR '' '') cmd))"
    by (simp add: text_req_def Str2X_def)
  then show ?thesis
    by (simp add: Req_FromBytes_def Req_WriteTo_def Req_Bytes_def ref_json_def) (simp add: text_req_def Str2X_def)
qed

section \<open>Sessions of the console\<close>

text \<open>
  From a session with an id of at least six bytes, any number of plain lines start their goroutines one by one; then
  \<open>exit\<close> leaves the session and the next \<open>exit\<close> ends the loop, whatever input is left.
\<close>

theorem session_then_exit:
  assumes t: "6 \<le> length t" and lines: "\<forall>l\<in>set ls. plain_line l"
  shows "console_loop J token us t (map Some ls @ Some ''exit'' # Some ''exit'' # rest) =
    (map (\<lambda>l. Spawn (split_on (CHR '' '') (trim_char (CHR '' '') l))) ls @ [Session [], Bye], Ended)"
  using lines
proof (induction ls arbitrary: us)
  case Nil
  then show ?case using t by (auto simp: prompt_label_def run_line_def trim_char_def)
next
  case (Cons l ls)
  have "prompt_label t \<noteq> None" using t by (simp add: prompt_label_def)
  with Cons show ?case by (simp add: run_plain_line)
qed

lemma run_opensession:
  assumes i: "i \<noteq> []" "CHR '' '' \<notin> set i"
  shows "run_line J uuid token t (''opensession '' @ i) = Session i"
proof -
  have "dropWhile (\<lambda>x. x = CHR '' '') (rev i @ zs) = rev i @ zs" for zs
    using i by (cases "rev i") (auto simp: rev_eq_Cons_iff)
  then have trim: "trim_char (CHR '' '') (''opensession '' @ i) = ''opensession'' @ CHR '' '' # i"
    by (simp add: trim_char_def)
  have "split_on (CHR '' '') (''opensession'' @ CHR '' '' # i) = [''opensession'', i]"
    using i(2) by (subst split_on_sep) (simp_all add: split_on_plain)
  with trim show ?thesis by (simp add: run_line_def Let_def)
qed

text \<open>
  A short id kills the console. After \<open>opensession\<close> with an id of one to five
  bytes the next prompt panics, whatever would be typed; \<open>opensession\<close> without an id panics at once.
\<close>

theorem short_session_panics:
  assumes i: "i \<noteq> []" "length i < 6" "CHR '' '' \<notin> set i"
  shows "console_loop J token us [] (Some (''opensession '' @ i) # inps) = ([Session i], Panicked) \<and>
    console_loop J token us [] (Some ''opensession'' # inps) = ([Crash], Panicked)"
proof -
  note line = run_opensession [OF i(1,3), of J "us 0" token "[]"]
  have label: "prompt_label i = None" using i by (simp add: prompt_label_def)
  have "console_loop J token us' i inps = ([], Panicked)" for us'
    using label by (cases inps) simp_all
  with line show ?thesis
    by (simp add: prompt_label_def) (simp add: run_line_def trim_char_def)
qed

theorem short_session_panics_witness:
  "console_loop ref_json ''tok'' (\<lambda>n. ''u'') [] [Some ''opensession bob'', Some ''hello''] = ([Session ''bob''], Panicked)"
  using short_session_panics [of "''bob''" ref_json "''tok''" "\<lambda>n. ''u''" "[Some ''hello'']"] by simp

section \<open>Logging in\<close>

text \<open>The local transport: a request to the gateway's address is handled by it.\<close>

definition gw_post ::
    "('d, 'w) libs \<Rightarrow> tick \<Rightarrow> int \<Rightarrow> string \<Rightarrow> bytes \<Rightarrow> ('h, 'd, 'w) gateway \<Rightarrow>
     (err + bytes) \<times> ('h, 'd, 'w) gateway" where
  "gw_post lb tk port url body s =
    (if url = rpcurl port RPC
     then (case http_rpc lb tk (Some body) s of
             (Some out, s') \<Rightarrow> (Inr out, s')
           | (None, s') \<Rightarrow> (Inl ''EOF'', s'))
     else (Inl ''connection refused'', s))"

lemma login_ok:
  assumes "gwPwd s = pwd" and "jsMap (libJson lb) pwd = Inl e"
    and coded: "Req_FromBytes (libJson lb) (Req_WriteTo (libJson lb) (NewReq (libJson lb) uuid token ''auth'' [XStr pwd])) zero_Req =
        NewReq (libJson lb) uuid token ''auth'' [XStr pwd]"
    and "jsRsp (libJson lb) (Rsp_WriteTo (libJson lb) (NewRsp uuid (RStr tkn) None)) zero_Rsp =
        (None, NewRsp uuid (RVal (XStr tkn)) None)"
    and "tkn = new_token lb pwd tk" "tkn \<noteq> []"
  shows "auth (libJson lb) (gw_post lb tk port) port uuid token pwd s =
    (Some (Inr tkn), s\<lparr>gwTokens := (gwTokens s)(tkn \<mapsto> tkUnix tk)\<rparr>)"
proof -
  have "NewReq (libJson lb) uuid token ''auth'' [XStr pwd] =
      \<lparr>reqId = uuid, reqToken = token, reqMethod = ''auth'', reqParams = [XStr pwd]\<rparr>"
    using assms(2) by (simp add: NewReq_def adapt_def)
  note coded' = this coded [unfolded this]
  show ?thesis
    using assms(1,4-6)
    by (simp add: auth_def callrpc_def gw_post_def http_rpc_def coded' handle_req_def fnReg_def fn_auth_def Let_def
        Rsp_FromBytes_def NewRsp_def zero_Rsp_def)
qed

text \<open>
  Property C35: the console logs in with the password, unless the password is a JSON object. With the
  right password the console gets the token the gateway issued and the gateway knows it from
  then on; but when the password decodes as a JSON object, \<open>NewReq\<close> sends the object in its place
  and the login fails with error 1002 although the password is right.
\<close>

theorem console_login:
  assumes pwd: "gwPwd s = pwd" "pwd \<noteq> []"
    and coded: "Req_FromBytes (libJson lb) (Req_WriteTo (libJson lb) (NewReq (libJson lb) uuid token ''auth'' [XStr pwd])) zero_Req =
        NewReq (libJson lb) uuid token ''auth'' [XStr pwd]"
    and answer: "jsRsp (libJson lb) (Rsp_WriteTo (libJson lb) (NewRsp uuid (RStr tkn) None)) zero_Rsp =
        (None, NewRsp uuid (RVal (XStr tkn)) None)"
      "jsRsp (libJson lb) (Rsp_WriteTo (libJson lb) (NewRsp uuid RNil (Some \<lparr>errCode = ''1002'', errMessage = ''auth_fail''\<rparr>)))
        zero_Rsp = (None, NewRsp uuid RNil (Some \<lparr>errCode = ''1002'', errMessage = ''auth_fail''\<rparr>))"
    and tkn: "tkn = new_token lb pwd tk" "tkn \<noteq> []"
  shows "case jsMap (libJson lb) pwd of
      Inl e \<Rightarrow> auth (libJson lb) (gw_post lb tk port) port uuid token pwd s =
        (Some (Inr tkn), s\<lparr>gwTokens := (gwTokens s)(tkn \<mapsto> tkUnix tk)\<rparr>)
    | Inr m \<Rightarrow> auth (libJson lb) (gw_post lb tk port) port uuid token pwd s = (Some (Inl ''1002 : auth_fail''), s)"
proof (cases "jsMap (libJson lb) pwd")
  case (Inl e)
  then show ?thesis
    using login_ok [OF pwd(1) Inl coded answer(1) tkn] by simp
next
  case (Inr m)
  then have "NewReq (libJson lb) uuid token ''auth'' [XStr pwd] =
      \<lparr>reqId = uuid, reqToken = token, reqMethod = ''auth'', reqParams = [XMap m]\<rparr>"
    by (simp add: NewReq_def adapt_def)
  note coded' = this coded [unfolded this]
  show ?thesis
    using Inr pwd answer(2)
    by (simp add: auth_def callrpc_def gw_post_def http_rpc_def coded' handle_req_def fnReg_def fn_auth_def Let_def
        Rsp_FromBytes_def NewRsp_def zero_Rsp_def)
qed

theorem console_login_witness:
  "auth ref_json (gw_post ref_libs ref_tick 9990) 9990 ''u'' [] ''pw'' ref_gw =
    (Some (Inr (new_token ref_libs ''pw'' ref_tick)), ref_gw\<lparr>gwTokens := [new_token ref_libs ''pw'' ref_tick \<mapsto> 7]\<rparr>)"
proof -
  have ne: "new_token ref_libs ''pw'' ref_tick \<noteq> []"
  proof
    assume "new_token ref_libs ''pw'' ref_tick = []"
    then have "length (new_token ref_libs ''pw'' ref_tick) = 0" by simp
    then show False by (simp add: new_token_def length_hex_encode ref_libs_def)
  qed
  show ?thesis
    using console_login [of ref_gw "''pw''" ref_libs "''u''" "[]" "new_token ref_libs ''pw'' ref_tick" ref_tick 9990] ne
    by (simp add: ref_json_def NewReq_def adapt_def Req_FromBytes_def Req_WriteTo_def Req_Bytes_def
        Rsp_WriteTo_def Rsp_Bytes_def NewRsp_def zero_Rsp_def ref_tick_def del: pack.simps)
qed

end
