(* ===== verification/ConsoleProps.thy ===== *)
theory ConsoleProps
  imports Console AppProps
begin

text \<open>
  The running console: what becomes of the lines typed in it, in every order in which its goroutines can run, and
  how it attaches to a gateway.
\<close>

section \<open>Runs\<close>

lemma con_run_trans:
  assumes "con_run J post rpcport s es s'" and "con_run J post rpcport s' es' s''"
  shows "con_run J post rpcport s (es @ es') s''"
  using assms(2,1)
proof (induction rule: con_run.induct)
  case (con_nil s)
  then show ?case by simp
next
  case (con_snoc s es1 s1 e s2)
  then show ?case
    using con_run.con_snoc [of J post rpcport _ "es @ es1" s1 e s2] by simp
qed

inductive_simps con_run_Nil: "con_run J post rpcport s [] s'"

lemma con_run_one: "con_step J post rpcport s e s' \<Longrightarrow> con_run J post rpcport s [e] s'"
  using con_snoc [OF con_nil, of J post rpcport s e s'] by simp

lemma con_run_cons:
  "con_step J post rpcport s e s' \<Longrightarrow> con_run J post rpcport s' es s'' \<Longrightarrow> con_run J post rpcport s (e # es) s''"
  using con_run_trans [OF con_run_one, of J post rpcport s e s' es s''] by simp

lemma con_then:
  "con_step J post rpcport s e s1 \<Longrightarrow> \<exists>s'. con_run J post rpcport s1 es s' \<and> P s' \<Longrightarrow>
    \<exists>s'. con_run J post rpcport s (e # es) s' \<and> P s'"
  using con_run_cons by blast

lemma con_end: "P s \<Longrightarrow> \<exists>s'. con_run J post rpcport s [] s' \<and> P s'"
  using con_nil by blast

text \<open>A target is opened by a line of the run; a console starts without one.\<close>

definition opened :: "json_lib \<Rightarrow> string \<Rightarrow> con_event list \<Rightarrow> string \<Rightarrow> bool" where
  "opened J token es t \<longleftrightarrow> t = [] \<or> (\<exists>cmd u t0. Line cmd u \<in> set es \<and> run_line J u token t0 cmd = Session t)"

definition made_of :: "json_lib \<Rightarrow> string \<Rightarrow> con_event list \<Rightarrow> string list \<Rightarrow> Req \<Rightarrow> bool" where
  "made_of J token es ws req \<longleftrightarrow> (\<exists>u t. opened J token es t \<and> req = send_req J u token t ws)"

lemma opened_mono: "opened J token es t \<Longrightarrow> opened J token (es @ [e]) t"
  by (auto simp: opened_def)

lemma made_of_mono: "made_of J token es ws req \<Longrightarrow> made_of J token (es @ [e]) ws req"
  unfolding made_of_def using opened_mono by blast

lemma exec_command_sel [simp]:
  "coToken (exec_command J post rpcport c s) = coToken s"
  "coReady (exec_command J post rpcport c s) = coReady s"
  "coSent (exec_command J post rpcport c s) = coSent s"
  "coGivenUp (exec_command J post rpcport c s) = coGivenUp s"
  "coWriter (exec_command J post rpcport c s) = coWriter s"
  by (auto simp: exec_command_def Let_def split: command.split prod.split)

lemma exec_command_lines:
  "coTyped (exec_command J post rpcport c s) = coTyped s @ (case c of Spawn ws \<Rightarrow> [ws] | _ \<Rightarrow> [])"
  "coSpawned (exec_command J post rpcport c s) = coSpawned s @ (case c of Spawn ws \<Rightarrow> [ws] | _ \<Rightarrow> [])"
  "coTarget (exec_command J post rpcport c s) = (case c of Session t \<Rightarrow> t | _ \<Rightarrow> coTarget s)"
  by (auto simp: exec_command_def Let_def split: command.split prod.split)

lemma remove1_parts: "x \<in> set xs \<Longrightarrow> \<exists>as bs. xs = as @ x # bs \<and> remove1 x xs = as @ bs"
  by (metis split_list_first remove1_append remove1.simps(2))

text \<open>What holds after every run \<open>es\<close>.\<close>

definition con_inv :: "json_lib \<Rightarrow> string \<Rightarrow> con_event list \<Rightarrow> 'n console \<Rightarrow> bool" where
  "con_inv J token es s \<longleftrightarrow>
    coToken s = token \<and> opened J token es (coTarget s) \<and>
    mset (coTyped s) = mset (map fst (coSent s)) + mset (map fst (coReady s)) + mset (coSpawned s) + mset (coGivenUp s) \<and>
    (\<forall>ws req. (ws, req) \<in> set (coReady s) \<longrightarrow> made_of J token es ws req) \<and>
    (\<forall>ws req r. (ws, req, r) \<in> set (coSent s) \<longrightarrow> made_of J token es ws req) \<and>
    (coExited s \<longrightarrow> coClosed s) \<and> (\<not> coClosed s \<longrightarrow> coWriter s \<and> coGivenUp s = [])"

lemma con_inv_step:
  assumes inv: "con_inv J token es s" and step: "con_step J post rpcport s e s'"
  shows "con_inv J token (es @ [e]) s'"
proof -
  have mono: "opened J token (es @ [e]) (coTarget s)" "\<And>ws req. made_of J token es ws req \<Longrightarrow> made_of J token (es @ [e]) ws req"
    using inv by (auto simp: con_inv_def opened_mono made_of_mono)
  show ?thesis
    using step
  proof (cases rule: con_step.cases)
    case (read_line cmd uuid)
    let ?c = "run_line J uuid (coToken s) (coTarget s) cmd"
    have "opened J token (es @ [e]) (coTarget s')"
    proof (cases "\<exists>t. ?c = Session t")
      case True
      then obtain t where "?c = Session t" by blast
      with read_line inv show ?thesis
        by (simp add: exec_command_lines opened_def con_inv_def) blast
    next
      case False
      then have "coTarget s' = coTarget s"
        using read_line by (cases ?c) (simp_all add: exec_command_lines)
      with mono(1) show ?thesis by simp
    qed
    moreover have "coExited s' \<longrightarrow> coClosed s'" "\<not> coClosed s' \<longrightarrow> \<not> coClosed s"
      using read_line by (auto simp: exec_command_def Let_def split: command.splits prod.splits)
    ultimately show ?thesis
      using inv mono(2) read_line
      by (auto simp: con_inv_def exec_command_lines split: command.split)
  next
    case (form_request ws uuid)
    have "made_of J token (es @ [e]) ws (send_req J uuid (coToken s) (coTarget s) ws)"
      using mono(1) inv by (auto simp: made_of_def con_inv_def)
    moreover obtain as bs where "coSpawned s = as @ ws # bs" "remove1 ws (coSpawned s) = as @ bs"
      using remove1_parts [OF form_request(4)] by blast
    ultimately show ?thesis
      using inv mono form_request by (auto simp: con_inv_def)
  next
    case (write_request ws req r n)
    obtain as bs where "coReady s = as @ (ws, req) # bs" "remove1 (ws, req) (coReady s) = as @ bs"
      using remove1_parts [OF write_request(5)] by blast
    then show ?thesis
      using inv mono write_request by (auto simp: con_inv_def)
  next
    case (give_request_up ws req)
    obtain as bs where "coReady s = as @ (ws, req) # bs" "remove1 (ws, req) (coReady s) = as @ bs"
      using remove1_parts [OF give_request_up(5)] by blast
    then show ?thesis
      using inv mono give_request_up by (auto simp: con_inv_def)
  qed (use inv mono in \<open>auto simp: con_inv_def\<close>)
qed

lemma con_inv_run: "con_run J post rpcport (rwLoop token n) es s \<Longrightarrow> con_inv J token es s"
proof (induction "rwLoop token n" es s rule: con_run.induct)
  case con_nil
  show ?case by (simp add: con_inv_def rwLoop_def opened_def)
next
  case (con_snoc es s e s')
  then show ?case by (blast intro: con_inv_step)
qed

text \<open>
  Property C16: no line is sent twice, and none gets lost while the console lives. In every run, the lines for
  which a goroutine was started are, as a multiset, those that were sent, those on their way and those given up,
  and none is given up before the console closes. Whatever was sent is the request \<open>send_req\<close> makes of its words for a
  target that a line of the run opened, or for none.
\<close>

theorem lines_accounted_for:
  assumes "con_run J post rpcport (rwLoop token n) es s"
  shows "mset (coTyped s) = mset (map fst (coSent s)) + mset (map fst (coReady s)) + mset (coSpawned s) + mset (coGivenUp s) \<and>
    (\<not> coClosed s \<longrightarrow> coGivenUp s = []) \<and>
    (\<forall>(ws, req, r)\<in>set (coSent s). \<exists>u t. req = send_req J u token t ws \<and>
      (t = [] \<or> (\<exists>cmd u' t'. Line cmd u' \<in> set es \<and> run_line J u' token t' cmd = Session t)))"
proof -
  have inv: "con_inv J token es s" by (rule con_inv_run [OF assms])
  have "\<exists>u t. req = send_req J u token t ws \<and>
      (t = [] \<or> (\<exists>cmd u' t'. Line cmd u' \<in> set es \<and> run_line J u' token t' cmd = Session t))"
    if "(ws, req, r) \<in> set (coSent s)" for ws req r
    using inv that unfolding con_inv_def made_of_def opened_def by blast
  with inv show ?thesis by (auto simp: con_inv_def)
qed

definition no_post :: "string \<Rightarrow> bytes \<Rightarrow> unit \<Rightarrow> (err + bytes) \<times> unit" where
  "no_post url body n = (Inl ''connection refused'', n)"

lemma console_demo_run:
  "\<exists>s. con_run ref_json no_post 9990 (rwLoop ''tok'' ()) [Line ''opensession bobbob'' ''u'', Line ''hi'' ''u'', Form [''hi''] ''u''] s \<and>
    (coTyped s = [[''hi'']] \<and> coSpawned s = [] \<and> coReady s = [([''hi''], send_req ref_json ''u'' ''tok'' ''bobbob'' [''hi''])] \<and>
     \<not> coClosed s \<and> coTarget s = ''bobbob'')"
proof -
  have open_bob: "run_line ref_json ''u'' ''tok'' [] ''opensession bobbob'' = Session ''bobbob''"
    using run_opensession [of "''bobbob''" ref_json "''u''" "''tok''" "[]"] by simp
  have hi: "run_line ref_json ''u'' ''tok'' ''bobbob'' ''hi'' = Spawn [''hi'']"
    by (simp add: run_line_def trim_char_def)
  show ?thesis
    by (intro con_then [OF read_line] con_then [OF form_request] con_end)
      (simp_all add: rwLoop_def prompt_label_def open_bob hi exec_command_def)
qed

theorem lines_accounted_for_witness:
  "\<exists>s. con_run ref_json no_post 9990 (rwLoop ''tok'' ()) [Line ''opensession bobbob'' ''u'', Line ''hi'' ''u'', Form [''hi''] ''u''] s \<and>
    mset (coTyped s) = mset (map fst (coReady s)) + mset (map fst (coSent s))"
  using console_demo_run lines_accounted_for [of ref_json no_post 9990 "''tok''" "()"] by fastforce

section \<open>The goroutines finish\<close>

definition goroutine :: "con_event \<Rightarrow> bool" where
  "goroutine e \<longleftrightarrow> (case e of Form ws u \<Rightarrow> True | Write ws req \<Rightarrow> True | _ \<Rightarrow> False)"

definition work :: "'n console \<Rightarrow> nat" where
  "work s = 2 * length (coSpawned s) + length (coReady s)"

text \<open>A request that \<open>s\<close> already waits with, or that is made in the session \<open>s\<close> is in.\<close>

definition due :: "json_lib \<Rightarrow> 'n console \<Rightarrow> string list \<Rightarrow> Req \<Rightarrow> bool" where
  "due J s ws req \<longleftrightarrow> (ws, req) \<in> set (coReady s) \<or>
    (ws \<in> set (coSpawned s) \<and> (\<exists>u. req = send_req J u (coToken s) (coTarget s) ws))"

lemma goroutine_step:
  assumes "con_step J post rpcport s e s'" and "goroutine e"
  shows "coClosed s' = coClosed s \<and> coWriter s' = coWriter s \<and> coExited s' = coExited s \<and> coTarget s' = coTarget s \<and>
    coTyped s' = coTyped s \<and> Suc (work s') = work s \<and>
    (\<exists>new. coSent s' = coSent s @ new \<and> (\<forall>ws req r. (ws, req, r) \<in> set new \<longrightarrow> due J s ws req)) \<and>
    (\<forall>ws req. due J s' ws req \<longrightarrow> due J s ws req)"
  using assms
proof (cases rule: con_step.cases)
  case (form_request ws' uuid)
  obtain as bs where "coSpawned s = as @ ws' # bs" "remove1 ws' (coSpawned s) = as @ bs"
    using remove1_parts [OF form_request(4)] by blast
  then show ?thesis
    using form_request by (auto simp: due_def work_def)
next
  case (write_request ws' req' r n)
  obtain as bs where "coReady s = as @ (ws', req') # bs" "remove1 (ws', req') (coReady s) = as @ bs"
    using remove1_parts [OF write_request(5)] by blast
  then show ?thesis
    using write_request by (auto simp: due_def work_def)
qed (auto simp: goroutine_def)

lemma goroutine_run:
  assumes "con_run J post rpcport s es s'" and "\<forall>e\<in>set es. goroutine e"
  shows "coClosed s' = coClosed s \<and> coWriter s' = coWriter s \<and> coExited s' = coExited s \<and> coTarget s' = coTarget s \<and>
    coTyped s' = coTyped s \<and> length es + work s' = work s \<and>
    (\<exists>new. coSent s' = coSent s @ new \<and> (\<forall>ws req r. (ws, req, r) \<in> set new \<longrightarrow> due J s ws req)) \<and>
    (\<forall>ws req. due J s' ws req \<longrightarrow> due J s ws req)"
  using assms
proof (induction rule: con_run.induct)
  case (con_nil s)
  then show ?case by simp
next
  case (con_snoc s es s1 e s2)
  from con_snoc.prems have e: "goroutine e" "\<forall>e\<in>set es. goroutine e" by simp_all
  note IH = con_snoc.IH [OF e(2)] and step = goroutine_step [OF con_snoc.hyps(2) e(1)]
  from IH step obtain new1 new2 where
    new: "coSent s1 = coSent s @ new1" "\<forall>ws req r. (ws, req, r) \<in> set new1 \<longrightarrow> due J s ws req"
    "coSent s2 = coSent s1 @ new2" "\<forall>ws req r. (ws, req, r) \<in> set new2 \<longrightarrow> due J s1 ws req"
    by blast
  have due: "\<forall>ws req. due J s2 ws req \<longrightarrow> due J s ws req" "\<forall>ws req. due J s1 ws req \<longrightarrow> due J s ws req"
    using IH step by blast+
  have "\<exists>new. coSent s2 = coSent s @ new \<and> (\<forall>ws req r. (ws, req, r) \<in> set new \<longrightarrow> due J s ws req)"
    using new due(2) by (intro exI [of _ "new1 @ new2"]) (unfold set_append, simp, blast)
  then show ?case
    using IH step due(1) by simp
qed

lemma goroutines_progress:
  assumes "\<not> coExited s" and "coWriter s" and "work s \<noteq> 0"
  shows "\<exists>e s'. goroutine e \<and> con_step J post rpcport s e s'"
proof (cases "coReady s")
  case Nil
  with assms(3) obtain ws where "ws \<in> set (coSpawned s)"
    by (cases "coSpawned s") (auto simp: work_def)
  from form_request [OF assms(1) this, where uuid = "[]"] show ?thesis
    by (intro exI [of _ "Form ws []"] exI conjI) (simp_all add: goroutine_def)
next
  case (Cons p ps)
  obtain ws req where p: "(ws, req) \<in> set (coReady s)"
    using Cons by (cases p) auto
  obtain r n where "callrpc J post rpcport req (coNet s) = (r, n)"
    by (cases "callrpc J post rpcport req (coNet s)")
  from write_request [OF assms(1,2) p this] show ?thesis
    by (intro exI [of _ "Write ws req"]) (auto simp: goroutine_def)
qed

lemma goroutines_finish:
  assumes "\<not> coExited s" and "coWriter s"
  shows "\<exists>es s'. con_run J post rpcport s es s' \<and> (\<forall>e\<in>set es. goroutine e) \<and> work s' = 0"
  using assms
proof (induction "work s" arbitrary: s)
  case 0
  then show ?case using con_nil [of J post rpcport s] by fastforce
next
  case (Suc k)
  with goroutines_progress [of s J post rpcport] obtain e s1 where
    step: "goroutine e" "con_step J post rpcport s e s1" by auto
  with Suc.hyps(2) Suc.prems goroutine_step [OF step(2,1)]
  have "k = work s1" "\<not> coExited s1" "coWriter s1" by simp_all
  from Suc.hyps(1) [OF this] obtain es s' where
    "con_run J post rpcport s1 es s'" "\<forall>e\<in>set es. goroutine e" "work s' = 0" by blast
  with step con_run_cons [OF step(2), of es s'] show ?case
    by (intro exI [of _ "e # es"]) auto
qed

text \<open>
  Property C17: while the console is open, everything typed gets sent, however the goroutines are
  scheduled. After any run that left \<open>Stop\<close> open and any steps of the goroutines after it, they can go on until every
  line typed has been sent; each line takes two of their steps and each waiting request one, so
  no schedule is longer than that. What they send was waiting before or
  is made in the session the console is in.
\<close>

theorem typed_lines_get_sent:
  assumes run: "con_run J post rpcport (rwLoop token n) es s" and live: "\<not> coClosed s"
    and more: "con_run J post rpcport s gs s'" "\<forall>e\<in>set gs. goroutine e"
  shows "\<exists>hs s''. con_run J post rpcport s' hs s'' \<and> (\<forall>e\<in>set hs. goroutine e) \<and>
    length gs + length hs = 2 * length (coSpawned s) + length (coReady s) \<and>
    mset (map fst (coSent s'')) = mset (coTyped s) \<and>
    (\<exists>new. coSent s'' = coSent s @ new \<and> (\<forall>(ws, req, r)\<in>set new. (ws, req) \<in> set (coReady s) \<or>
      (ws \<in> set (coSpawned s) \<and> (\<exists>u. req = send_req J u token (coTarget s) ws))))"
proof -
  have inv: "con_inv J token es s" by (rule con_inv_run [OF run])
  have "\<not> coExited s'" "coWriter s'"
    using inv live goroutine_run [OF more] by (auto simp: con_inv_def)
  from goroutines_finish [OF this] obtain hs s'' where
    hs: "con_run J post rpcport s' hs s''" "\<forall>e\<in>set hs. goroutine e" "work s'' = 0" by blast
  have "\<forall>e\<in>set (gs @ hs). goroutine e" using more(2) hs(2) by auto
  note all = goroutine_run [OF con_run_trans [OF more(1) hs(1)] this]
  have "con_inv J token (es @ gs @ hs) s''"
    by (rule con_inv_run [OF con_run_trans [OF run con_run_trans [OF more(1) hs(1)]]])
  then have "mset (map fst (coSent s'')) = mset (coTyped s)"
    using all hs(3) live by (simp add: con_inv_def work_def)
  moreover have "length gs + length hs = 2 * length (coSpawned s) + length (coReady s)"
    using all hs(3) by (simp add: work_def)
  moreover have "coToken s = token" using inv by (simp add: con_inv_def)
  ultimately show ?thesis
    using hs all by (intro exI [of _ hs] exI [of _ s'']) (fastforce simp: due_def)
qed

theorem typed_lines_get_sent_witness:
  "\<exists>s s'. con_run ref_json no_post 9990 (rwLoop ''tok'' ()) [Line ''opensession bobbob'' ''u'', Line ''hi'' ''u'', Form [''hi''] ''u''] s \<and>
    con_run ref_json no_post 9990 s [Write [''hi''] (send_req ref_json ''u'' ''tok'' ''bobbob'' [''hi''])] s' \<and>
    mset (map fst (coSent s')) = {#[''hi'']#}"
proof -
  obtain s where s: "con_run ref_json no_post 9990 (rwLoop ''tok'' ())
      [Line ''opensession bobbob'' ''u'', Line ''hi'' ''u'', Form [''hi''] ''u''] s"
    "coTyped s = [[''hi'']]" "coSpawned s = []" "\<not> coClosed s"
    "coReady s = [([''hi''], send_req ref_json ''u'' ''tok'' ''bobbob'' [''hi''])]"
    using console_demo_run by blast
  have inv: "con_inv ref_json ''tok'' [Line ''opensession bobbob'' ''u'', Line ''hi'' ''u'', Form [''hi''] ''u''] s"
    by (rule con_inv_run [OF s(1)])
  obtain s' where s': "con_run ref_json no_post 9990 s [Write [''hi''] (send_req ref_json ''u'' ''tok'' ''bobbob'' [''hi''])] s'"
    by (rule that, rule con_run_one, rule write_request [OF _ _ _ refl [THEN trans [OF prod.collapse [symmetric]]]])
      (use s inv in \<open>auto simp: con_inv_def\<close>)
  from typed_lines_get_sent [OF s(1,4) s'] obtain hs s'' where
    "con_run ref_json no_post 9990 s' hs s''" "hs = []" "mset (map fst (coSent s'')) = {#[''hi'']#}"
    using s by (auto simp: goroutine_def)
  with s(1) s' show ?thesis
    by (intro exI [of _ s] exI [of _ s']) (simp add: con_run_Nil)
qed

section \<open>Races\<close>

abbreviation line_words :: "string \<Rightarrow> string list" where
  "line_words cmd \<equiv> split_on (CHR '' '') (trim_char (CHR '' '') cmd)"

lemma plain_line_step:
  assumes "\<not> coExited s" "\<not> coClosed s" "6 \<le> length (coTarget s)" "plain_line cmd"
  shows "con_step J post rpcport s (Line cmd u)
    (s\<lparr>coSpawned := coSpawned s @ [line_words cmd], coTyped := coTyped s @ [line_words cmd]\<rparr>)"
proof -
  have "prompt_label (coTarget s) \<noteq> None" using assms(3) by (auto simp: prompt_label_def)
  from read_line [OF assms(1,2) this, of J post rpcport cmd u] show ?thesis
    by (simp add: run_plain_line [OF assms(4)] exec_command_def)
qed

lemma session_line_step:
  assumes "\<not> coExited s" "\<not> coClosed s" "6 \<le> length (coTarget s)" "run_line J u (coToken s) (coTarget s) cmd = Session t"
  shows "con_step J post rpcport s (Line cmd u) (s\<lparr>coTarget := t\<rparr>)"
proof -
  have "prompt_label (coTarget s) \<noteq> None" using assms(3) by (auto simp: prompt_label_def)
  from read_line [OF assms(1,2) this, of J post rpcport cmd u] show ?thesis
    by (simp add: assms(4) exec_command_def)
qed

lemma exit_lines:
  "t \<noteq> [] \<Longrightarrow> run_line J u token t ''exit'' = Session []" "run_line J u token [] ''exit'' = Bye"
  by (simp_all add: run_line_def Let_def trim_char_def)

lemma exit_step:
  assumes "\<not> coExited s" "\<not> coClosed s" "coTarget s = []"
  shows "con_step J post rpcport s (Line ''exit'' u) (s\<lparr>coClosed := True\<rparr>)"
proof -
  have "prompt_label (coTarget s) \<noteq> None" using assms(3) by (simp add: prompt_label_def)
  from read_line [OF assms(1,2) this, of J post rpcport "''exit''" u] show ?thesis
    by (simp add: assms(3) exit_lines(2) exec_command_def)
qed

text \<open>
  Property C31: a line typed in one session can end up in another, two lines can change places, and a line can be lost.
  The goroutine of a line reads the target when it runs: if another session is
  opened first, the line is sent to its peer. Two lines typed one after the other may be sent in the other order. And a line
  typed before leaving the console may never be sent.
\<close>

theorem typed_line_races:
  assumes s: "\<not> coExited s" "\<not> coClosed s" "coWriter s" "6 \<le> length (coTarget s)" "coSpawned s = []" "coReady s = []"
    and lines: "plain_line cmd" "plain_line cmd'" "line_words cmd \<noteq> line_words cmd'" and t: "t \<noteq> []" "CHR '' '' \<notin> set t"
  shows "(\<exists>s'. con_run J post rpcport s
        [Line cmd u, Line (''opensession '' @ t) u, Form (line_words cmd) u, Write (line_words cmd) (send_req J u (coToken s) t (line_words cmd))] s' \<and>
      (\<exists>r. coSent s' = coSent s @ [(line_words cmd, send_req J u (coToken s) t (line_words cmd), r)])) \<and>
    (\<exists>s'. con_run J post rpcport s [Line cmd u, Line cmd' u', Form (line_words cmd') u', Form (line_words cmd) u,
        Write (line_words cmd') (send_req J u' (coToken s) (coTarget s) (line_words cmd')),
        Write (line_words cmd) (send_req J u (coToken s) (coTarget s) (line_words cmd))] s' \<and>
      map fst (coSent s') = map fst (coSent s) @ [line_words cmd', line_words cmd]) \<and>
    (\<exists>s'. con_run J post rpcport s [Line cmd u, Line ''exit'' u, Line ''exit'' u, ProcessEnds] s' \<and>
      coExited s' \<and> coTyped s' = coTyped s @ [line_words cmd] \<and> coSent s' = coSent s)"
proof (intro conjI)
  let ?ws = "line_words cmd" and ?ws' = "line_words cmd'"
  let ?req = "\<lambda>t. send_req J u (coToken s) t ?ws" and ?req' = "send_req J u' (coToken s) (coTarget s) ?ws'"
  note line = plain_line_step [OF s(1,2,4) lines(1), of J post rpcport u]
  obtain r n where w: "callrpc J post rpcport (?req t) (coNet s) = (r, n)"
    by (cases "callrpc J post rpcport (?req t) (coNet s)")
  show "\<exists>s'. con_run J post rpcport s [Line cmd u, Line (''opensession '' @ t) u, Form ?ws u, Write ?ws (?req t)] s' \<and>
      (\<exists>r. coSent s' = coSent s @ [(?ws, ?req t, r)])"
    by (rule con_then [OF line], rule con_then [OF session_line_step [OF _ _ _ run_opensession [OF t]]],
        use s in simp, use s in simp, use s in simp, rule con_then [OF form_request], use s in simp, simp,
        rule con_then [OF write_request [where r = r and n = n]], use s in simp, use s in simp,
        use s in simp, use w in simp, rule con_end, use s in simp)
  obtain r1 n1 where w1: "callrpc J post rpcport ?req' (coNet s) = (r1, n1)"
    by (cases "callrpc J post rpcport ?req' (coNet s)")
  obtain r2 n2 where w2: "callrpc J post rpcport (?req (coTarget s)) n1 = (r2, n2)"
    by (cases "callrpc J post rpcport (?req (coTarget s)) n1")
  show "\<exists>s'. con_run J post rpcport s [Line cmd u, Line cmd' u', Form ?ws' u', Form ?ws u, Write ?ws' ?req', Write ?ws (?req (coTarget s))] s' \<and>
      map fst (coSent s') = map fst (coSent s) @ [?ws', ?ws]"
    by (rule con_then [OF line], rule con_then [OF plain_line_step [OF _ _ _ lines(2)]],
        use s in simp, use s in simp, use s in simp, rule con_then [OF form_request], use s in simp, simp,
        rule con_then [OF form_request], use s in simp, use lines(3) in simp,
        rule con_then [OF write_request [where r = r1 and n = n1]], use s in simp, use s in simp,
        use s in simp, use w1 in simp,
        rule con_then [OF write_request [where r = r2 and n = n2]], use s in simp, use s in simp,
        use s lines(3) in simp, use w2 in simp, rule con_end, use s lines(3) in simp)
  have "coTarget s \<noteq> []" using s(4) by auto
  then show "\<exists>s'. con_run J post rpcport s [Line cmd u, Line ''exit'' u, Line ''exit'' u, ProcessEnds] s' \<and>
      coExited s' \<and> coTyped s' = coTyped s @ [?ws] \<and> coSent s' = coSent s"
    by (intro con_then [OF line] con_then [OF session_line_step [OF _ _ _ exit_lines(1)]] con_then [OF exit_step]
        con_then [OF process_ends] con_end) (use s in simp_all)
qed

theorem typed_line_races_witness:
  "\<exists>s' r. con_run ref_json no_post 9990 ((rwLoop ''tok'' ())\<lparr>coTarget := ''bobbob''\<rparr>)
      [Line ''hi'' ''u'', Line ''opensession alice1'' ''u'', Form [''hi''] ''u'',
       Write [''hi''] (send_req ref_json ''u'' ''tok'' ''alice1'' [''hi''])] s' \<and>
    coSent s' = [([''hi''], send_req ref_json ''u'' ''tok'' ''alice1'' [''hi''], r)]"
proof -
  have w: "line_words ''hi'' = [''hi'']" "line_words ''yo'' = [''yo'']"
    by (simp_all add: trim_char_def)
  show ?thesis
    using typed_line_races [of "(rwLoop ''tok'' ())\<lparr>coTarget := ''bobbob''\<rparr>" "''hi''" "''yo''" "''alice1''"
      ref_json no_post 9990 "''u''" "''u''"]
    by (auto simp: rwLoop_def plain_line_def w simp del: send_req_def)
qed

section \<open>Attaching\<close>

text \<open>The local transport for the WebSocket: the gateway's handler takes the frame.\<close>

definition gw_dial ::
    "('d, 'w) libs \<Rightarrow> tick \<Rightarrow> string \<Rightarrow> 'h \<Rightarrow> int \<Rightarrow> string \<Rightarrow> bytes \<Rightarrow> ('h, 'd, 'w) gateway \<Rightarrow> ('h, 'd, 'w) gateway option" where
  "gw_dial lb tk fid conn port url frame s =
    (if url = rpcurl port CHAT then Some (snd (snd (ws_open lb tk fid conn (Some frame) s))) else None)"

definition open_req :: "('d, 'w) libs \<Rightarrow> string \<Rightarrow> string \<Rightarrow> Req" where
  "open_req lb uuid tkn = NewReq (libJson lb) uuid tkn ''open'' []"

lemma open_req_sel: "reqToken (open_req lb uuid tkn) = tkn" "reqMethod (open_req lb uuid tkn) = ''open''"
  by (auto simp: open_req_def NewReq_def adapt_def split: option.splits sum.splits)

text \<open>The greeting of a session.\<close>

definition hello :: "tick \<Rightarrow> Message" where
  "hello tk = NewSysMessage (tkUuid tk) (tkUnix tk) []
    [\<lparr>aKey = ''method'', aVal = ''open''\<rparr>, \<lparr>aKey = ''result'', aVal = ''success''\<rparr>]"

text \<open>
  Attaching a console takes over the mailbox. With the right password, not being a JSON object, the
  console gets the token the gateway issued and starts its loops; its read loop then prints
  the greeting and every message the mailbox held for the node, in the order of the query and as it was stored, the
  session is registered for the messages to come, and the mailbox is empty.
\<close>

lemma attach_result:
  assumes net: "mailbox_client L ok view (libA lb) srt fn uu box dbs (libP2p lb) me" and ok: "ok (dbs (gwWorld s))"
    and jid: "53 \<le> length (csMyid (gwChat s))" "Mailid (csMyid (gwChat s)) = box"
    and keyed: "\<And>i m. mbox_abs (libA lb) (view (dbs (gwWorld s))) (Peerid (csMyid (gwChat s))) i = Some m \<Longrightarrow>
      eId (mEnvelope m) = i"
    and ms: "ms = Messages (doQueryMsg L (libA lb) srt (LDBDatabase fn) (csMyid (gwChat s)) (dbs (gwWorld s)))"
    and fits: "length (encoded (cJID (libA lb)) (csMyid (gwChat s))) \<le> 128"
      "length (encoded (cClean (libA lb)) \<lparr>cJid = csMyid (gwChat s), cIds = map (\<lambda>m. eId (mEnvelope m)) ms\<rparr>) \<le> 2 * 1024 * 1024"
    and pwd: "gwPwd s = pwd" "jsMap (libJson lb) pwd = Inl e"
    and coded: "Req_FromBytes (libJson lb) (Req_WriteTo (libJson lb) (NewReq (libJson lb) (us 0) token ''auth'' [XStr pwd])) zero_Req =
        NewReq (libJson lb) (us 0) token ''auth'' [XStr pwd]"
      "Req_FromBytes (libJson lb) (Req_WriteTo (libJson lb) (open_req lb (us 1) tkn)) zero_Req = open_req lb (us 1) tkn"
      "jsRsp (libJson lb) (Rsp_WriteTo (libJson lb) (NewRsp (us 0) (RStr tkn) None)) zero_Rsp = (None, NewRsp (us 0) (RVal (XStr tkn)) None)"
    and tkn: "tkn = new_token lb pwd tk" "tkn \<noteq> []"
    and json: "\<forall>m\<in>set (hello tk' # ms). Message_FromJson (libA lb) (Message_Json (libA lb) m) zero_Message = (m, None)"
  shows "\<exists>frames s'. ws_open lb tk' fid conn (Some (Req_WriteTo (libJson lb) (open_req lb (us 1) tkn)))
        (s\<lparr>gwTokens := (gwTokens s)(tkn \<mapsto> tkUnix tk)\<rparr>) = (frames, Some fid, s') \<and>
    AttachCmd (libJson lb) (gw_post lb tk port) (gw_dial lb tk' fid conn port) port us token pwd s =
      (Some (Inr (rwLoop tkn s')), s') \<and>
    read_loop (libA lb) (map Some frames) = map (\<lambda>m. (m, None)) (hello tk' # ms) \<and>
    gwTokens s' tkn = Some (tkUnix tk) \<and> map_of (csHandleMsgFn (gwChat s')) fid = Some conn \<and>
    Messages (doQueryMsg L (libA lb) srt (LDBDatabase fn) (csMyid (gwChat s)) (dbs (gwWorld s'))) = []"
proof -
  let ?s = "s\<lparr>gwTokens := (gwTokens s)(tkn \<mapsto> tkUnix tk)\<rparr>"
  let ?dat = "Req_WriteTo (libJson lb) (open_req lb (us 1) tkn)"
  have dec: "decoded lb ?dat = open_req lb (us 1) tkn" using coded(2) by (simp add: decoded_def)
  have tok: "gwTokens ?s (reqToken (decoded lb ?dat)) \<noteq> None"
    unfolding dec open_req_sel by simp
  have meth: "reqMethod (decoded lb ?dat) = ''open''" unfolding dec open_req_sel by simp
  have sel: "gwWorld ?s = gwWorld s" "gwChat ?s = gwChat s" by simp_all
  have read: "read_loop (libA lb) (map Some (map (Message_Json (libA lb)) xs)) = map (\<lambda>m. (m, None)) xs"
    if "\<forall>m\<in>set xs. Message_FromJson (libA lb) (Message_Json (libA lb) m) zero_Message = (m, None)" for xs
    using that by (induction xs) simp_all
  have login: "auth (libJson lb) (gw_post lb tk port) port (us 0) token pwd s = (Some (Inr tkn), ?s)"
    by (rule login_ok [OF pwd coded(1,3) tkn])
  obtain s' where s': "ws_open lb tk' fid conn (Some ?dat) ?s = (map (Message_Json (libA lb)) (hello tk' # ms), Some fid, s')"
    "gwTokens s' = gwTokens ?s" "map_of (csHandleMsgFn (gwChat s')) fid = Some conn"
    "Messages (doQueryMsg L (libA lb) srt (LDBDatabase fn) (csMyid (gwChat ?s)) (dbs (gwWorld s'))) = []"
    using session_drains [OF net, of ?s ?dat ms tk' fid conn, unfolded sel, OF ok jid tok keyed ms fits,
        unfolded meth, folded hello_def]
    unfolding sel by blast
  have "AttachCmd (libJson lb) (gw_post lb tk port) (gw_dial lb tk' fid conn port) port us token pwd s =
      (Some (Inr (rwLoop tkn s')), s')"
    using login s'(1) by (simp add: AttachCmd_def gw_dial_def open_req_def)
  then show ?thesis
    using s' read [OF json]
    by (intro exI [of _ "map (Message_Json (libA lb)) (hello tk' # ms)"] exI [of _ s'] conjI) simp_all
qed

end
