(* ===== verification/Node.thy ===== *)
theory Node
  imports GroupAdmin
begin

text \<open>
  A mailbox node as a whole: all handlers of \<open>mailbox_Start\<close> run on one database, which holds
  the messages of every peer, the groups and the member lists. A run serves a list of requests,
  any bytes from any caller. Mail refines the abstract mailbox whatever the group
  requests of the run are, groups evolve as if there were no mail, and every entry of the database is
  well-formed and stored under the key its own value determines.
\<close>

section \<open>Serving requests\<close>

text \<open>\<open>nrUs\<close>: the UUIDs the handler draws.\<close>

record node_req =
  nrPid :: string
  nrCaller :: string
  nrBytes :: bytes
  nrUs :: "nat \<Rightarrow> string"

text \<open>\<open>None\<close>: no handler is registered for the protocol.\<close>

definition serve ::
    "'d leveldb \<Rightarrow> codecs \<Rightarrow> (MessageList \<Rightarrow> MessageList) \<Rightarrow> mailbox \<Rightarrow> node_req \<Rightarrow> 'd \<Rightarrow>
     (bytes \<times> err option \<times> 'd) outcome option" where
  "serve L A srt mb r d =
    map_option (\<lambda>h. h (nrCaller r) (nrBytes r) d) (map_of (mailbox_Start L A srt None (nrUs r) mb) (nrPid r))"

text \<open>The database after a request; \<open>None\<close> when the handler panicked, which ends the run.\<close>

definition node_step ::
    "'d leveldb \<Rightarrow> codecs \<Rightarrow> (MessageList \<Rightarrow> MessageList) \<Rightarrow> mailbox \<Rightarrow> node_req \<Rightarrow> 'd \<Rightarrow> 'd option" where
  "node_step L A srt mb r d =
    (case serve L A srt mb r d of
       Some (Returns (out, e, d')) \<Rightarrow> Some d'
     | Some Panics \<Rightarrow> None
     | Some Hangs \<Rightarrow> Some d
     | None \<Rightarrow> Some d)"

fun node_run ::
    "'d leveldb \<Rightarrow> codecs \<Rightarrow> (MessageList \<Rightarrow> MessageList) \<Rightarrow> mailbox \<Rightarrow> node_req list \<Rightarrow> 'd \<Rightarrow> 'd option" where
  "node_run L A srt mb [] d = Some d"
| "node_run L A srt mb (r # rs) d = Option.bind (node_step L A srt mb r d) (node_run L A srt mb rs)"

definition node_of :: "JID \<Rightarrow> string \<Rightarrow> mailbox" where
  "node_of me fn = \<lparr>mbMyid = me, mbStop = False, mbDb = LDBDatabase fn\<rparr>"

lemma node_of_sel [simp]: "mbDb (node_of me fn) = LDBDatabase fn" "mbMyid (node_of me fn) = me"
  by (simp_all add: node_of_def)

text \<open>The five protocols and their handlers.\<close>

lemma serve_pids:
  "serve L A srt mb r d =
    (if nrPid r = PID_MAILBOX_QUERY then Some (Returns (queryService L A srt (mbDb mb) None (nrBytes r) d))
     else if nrPid r = PID_MAILBOX then Some (Returns (msgService L A (mbDb mb) (nrBytes r) d))
     else if nrPid r = PID_MAILBOX_CLEAN then Some (Returns (cleanService L A (mbDb mb) (nrBytes r) d))
     else if nrPid r = PID_MAILBOX_GROUP_MEMBER then
       Some (groupMemberService L A (newGroupDB (mbDb mb)) (nrUs r) (nrBytes r) d)
     else if nrPid r = PID_MAILBOX_GROUP_UPDATE then
       Some (groupUpdateService L A (newGroupDB (mbDb mb)) (nrUs r 0) (nrCaller r) (nrBytes r) d)
     else None)"
  by (simp add: serve_def mailbox_Start_def groupService_def Let_def)

lemma pid_neq:
  "PID_MAILBOX_QUERY \<noteq> PID_MAILBOX"
  "PID_MAILBOX_QUERY \<noteq> PID_MAILBOX_CLEAN"
  "PID_MAILBOX \<noteq> PID_MAILBOX_CLEAN"
  "PID_MAILBOX_GROUP_MEMBER \<noteq> PID_MAILBOX_QUERY"
  "PID_MAILBOX_GROUP_MEMBER \<noteq> PID_MAILBOX"
  "PID_MAILBOX_GROUP_MEMBER \<noteq> PID_MAILBOX_CLEAN"
  "PID_MAILBOX_GROUP_UPDATE \<noteq> PID_MAILBOX_QUERY"
  "PID_MAILBOX_GROUP_UPDATE \<noteq> PID_MAILBOX"
  "PID_MAILBOX_GROUP_UPDATE \<noteq> PID_MAILBOX_CLEAN"
  "PID_MAILBOX_GROUP_UPDATE \<noteq> PID_MAILBOX_GROUP_MEMBER"
  by (simp_all add: PID_defs)

declare pid_neq [simp] pid_neq [symmetric, simp]

section \<open>What a request means for the mail\<close>

text \<open>The operation of the abstract mailbox a request asks for, if its bytes decode to one.\<close>

definition stored_msg :: "codecs \<Rightarrow> bytes \<Rightarrow> Message option" where
  "stored_msg A rw = (case Message_FromReader A rw zero_Message of
     (m, None) \<Rightarrow> if eType (mEnvelope m) = NormalMsg \<or> eType (mEnvelope m) = GroupMsg then Some m else None
   | (m, Some e) \<Rightarrow> None)"

definition cleared_ids :: "codecs \<Rightarrow> bytes \<Rightarrow> CleanMsg option" where
  "cleared_ids A rw = (case aUnmarshalReader (cClean A) rw zero_CleanMsg (2 * 1024 * 1024) of
     (None, c) \<Rightarrow> Some c | (Some e, c) \<Rightarrow> None)"

definition mail_op :: "codecs \<Rightarrow> node_req \<Rightarrow> mbox_op option" where
  "mail_op A r =
    (if nrPid r = PID_MAILBOX then map_option Put (stored_msg A (nrBytes r))
     else if nrPid r = PID_MAILBOX_CLEAN then map_option Clean (cleared_ids A (nrBytes r))
     else None)"

definition is_group_req :: "node_req \<Rightarrow> bool" where
  "is_group_req r \<longleftrightarrow> nrPid r = PID_MAILBOX_GROUP_MEMBER \<or> nrPid r = PID_MAILBOX_GROUP_UPDATE"

definition spec_serve :: "codecs \<Rightarrow> node_req \<Rightarrow> abs_mailbox \<Rightarrow> abs_mailbox" where
  "spec_serve A r a = (case mail_op A r of None \<Rightarrow> a | Some x \<Rightarrow> spec_exec x a)"

text \<open>Every JID a mail request names has full length, and is not taken for a group.\<close>

fun op_jid :: "mbox_op \<Rightarrow> JID" where
  "op_jid (Put m) = eTo (mEnvelope m)"
| "op_jid (Clean c) = cJid c"

definition full_request :: "codecs \<Rightarrow> node_req \<Rightarrow> bool" where
  "full_request A r \<longleftrightarrow> (case mail_op A r of None \<Rightarrow> True | Some x \<Rightarrow> full_op x)"

definition peer_request :: "codecs \<Rightarrow> node_req \<Rightarrow> bool" where
  "peer_request A r \<longleftrightarrow>
    (case mail_op A r of None \<Rightarrow> True | Some x \<Rightarrow> full_op x \<and> \<not> prefix ''GROUP'' (op_jid x))"

definition peer_id :: "string \<Rightarrow> bool" where
  "peer_id p \<longleftrightarrow> length p = 53 \<and> \<not> prefix ''GROUP'' p"

lemma peer_id_key: "peer_id p \<Longrightarrow> \<not> prefix ''GROUP'' (p @ i)"
  using prefix_length_prefix [of "''GROUP''" "p @ i" p] by (auto simp: peer_id_def)

lemma spec_exec_local: "a p = b p \<Longrightarrow> spec_exec x a p = spec_exec x b p"
  by (cases x) (auto simp: spec_put_def spec_clean_def Let_def)

definition mail_rel :: "codecs \<Rightarrow> (bytes \<rightharpoonup> bytes) \<Rightarrow> abs_mailbox \<Rightarrow> bool" where
  "mail_rel A c a \<longleftrightarrow> (\<forall>p. peer_id p \<longrightarrow> mbox_abs A c p = a p)"

context mailbox_store
begin

lemma exec_abs:
  "ok d \<Longrightarrow> full_op x \<Longrightarrow> length p = 53 \<Longrightarrow>
    mbox_abs A (view (mbox_exec L A (LDBDatabase fn) x d)) p = spec_exec x (mbox_abs A (view d)) p"
  by (cases x) (simp_all add: put_result abs_put clean_result abs_clean)

text \<open>A mail request always returns, and does to the database what its operation does.\<close>

lemma mail_step:
  assumes ok: "ok d" and mail: "\<not> is_group_req r"
  shows "node_step L A srt (node_of me fn) r d =
    Some (case mail_op A r of None \<Rightarrow> d | Some x \<Rightarrow> mbox_exec L A (LDBDatabase fn) x d)"
proof -
  have msg: "\<exists>out e. msgService L A (LDBDatabase fn) rw d =
    (out, e, case stored_msg A rw of None \<Rightarrow> d | Some m \<Rightarrow> snd (putMsg L A (LDBDatabase fn) m d))" for rw
    by (auto simp: msgService_def stored_msg_def verifyMsg_def split: prod.splits option.splits)
  have clean: "\<exists>out e. cleanService L A (LDBDatabase fn) rw d =
    (out, e, case cleared_ids A rw of None \<Rightarrow> d | Some c \<Rightarrow> doCleanMsg L (LDBDatabase fn) c d)" for rw
    by (auto simp: cleanService_def cleared_ids_def split: prod.splits option.splits)
  have query: "\<exists>out e. queryService L A srt (LDBDatabase fn) None rw d = (out, e, d)" for rw
    by (auto simp: queryService_def split: prod.splits option.splits)
  from msg [of "nrBytes r"] clean [of "nrBytes r"] query [of "nrBytes r"] mail show ?thesis
    by (auto simp: node_step_def serve_pids is_group_req_def mail_op_def split: option.splits)
qed

lemma members: "member_store L ok view A"
  by (simp add: member_store_def database_def leveldb_laws_axioms amino_laws_axioms)

end

section \<open>What a group request writes\<close>

context member_store
begin

lemma only_group_table:
  "g = newGroupDB (LDBDatabase fn) \<Longrightarrow> only_under ok view (group_area g gid) d d' \<Longrightarrow> only_under ok view ''GROUP'' d d'"
  by (rule only_under_weaken) (auto simp: group_area_def)

lemma handle_members_only:
  assumes g: "g = newGroupDB (LDBDatabase fn)"
  shows "ok d \<Longrightarrow> handle_members L A g us ms d = Some d' \<Longrightarrow> only_under ok view ''GROUP'' d d'"
proof (induction ms arbitrary: us d)
  case Nil
  then show ?case by (simp add: only_refl)
next
  case (Cons m ms)
  from Cons.prems(2) obtain r e d1 where m: "m = Some r" and
    h: "handleMember L A g (us 0) r d = Some (e, d1)" and
    t: "handle_members L A g (\<lambda>n. us (Suc n)) ms d1 = Some d'"
    by (cases m) (auto split: option.splits)
  have 1: "only_under ok view ''GROUP'' d d1"
    by (rule only_group_table [OF g handle_only [OF Cons.prems(1) h]])
  then have "ok d1" by (simp add: only_under_def)
  from only_trans [OF 1 Cons.IH [OF this t]] show ?case .
qed

lemma member_service_only:
  assumes "g = newGroupDB (LDBDatabase fn)" and "ok d"
    and "groupMemberService L A g us rw d = Returns (out, e, d')"
  shows "only_under ok view ''GROUP'' d d'"
  using assms(3) handle_members_only [OF assms(1,2)] only_refl [OF assms(2)]
  by (auto simp: groupMemberService_def Let_def split: prod.splits option.splits sum.splits if_splits)

lemma saveGroup_only:
  assumes g: "g = newGroupDB (LDBDatabase fn)" and ok: "ok d"
    and run: "saveGroup L A g uuid grp d = Some (e, d')"
  shows "only_under ok view ''GROUP'' d d'"
proof -
  obtain e1 d1 where p: "db_Put L (groupTab g) (gId grp) (encoded (cGroup A) grp) d = (e1, d1)" by fastforce
  with ok have 1: "only_under ok view ''GROUP'' d d1"
    using lv_put_ok [OF ok] lv_put_view [OF ok]
    by (auto simp: only_under_def g db_Put_prefix prefix_def) (metis snd_conv lv_put_ok lv_put_view fun_upd_other)+
  then have ok1: "ok d1" by (simp add: only_under_def)
  have 2: "handleMember L A g uuid gm d1 = Some (e2, d2) \<Longrightarrow> only_under ok view ''GROUP'' d d2" for gm e2 d2
    by (rule only_trans [OF 1 only_group_table [OF g handle_only [OF ok1]]])
  from run p 1 show ?thesis
    by (auto simp: saveGroup_def bind_eq_Some_conv split: option.splits sum.splits dest: 2)
qed

lemma update_service_only:
  assumes "g = newGroupDB (LDBDatabase fn)" and "ok d"
    and "groupUpdateService L A g uuid caller rw d = Returns (out, e, d')"
  shows "only_under ok view ''GROUP'' d d'"
  using assms(3) saveGroup_only [OF assms(1,2)] only_refl [OF assms(2)]
  by (auto simp: groupUpdateService_def Let_def split: prod.splits option.splits sum.splits if_splits)

end

context mailbox_store
begin

lemma group_step:
  assumes ok: "ok d" and grp: "is_group_req r" and run: "node_step L A srt (node_of me fn) r d = Some d'"
  shows "only_under ok view ''GROUP'' d d'"
proof -
  note m = member_store.member_service_only [OF members refl ok]
    and u = member_store.update_service_only [OF members refl ok]
  have "only_under ok view ''GROUP'' d d" using ok by (simp add: only_under_def)
  with grp run show ?thesis
    by (auto simp: node_step_def serve_pids is_group_req_def split: outcome.splits dest: m u)
qed

text \<open>One request: the contents stay usable, and mail refines the abstract mailbox.\<close>

lemma step_refines:
  assumes ok: "ok d" and run: "node_step L A srt (node_of me fn) r d = Some d'"
    and full: "full_request A r" and rel: "mail_rel A (view d) a"
  shows "ok d' \<and> mail_rel A (view d') (spec_serve A r a)"
proof (cases "is_group_req r")
  case True
  from group_step [OF ok True run] have only: "only_under ok view ''GROUP'' d d'" .
  then have "view d' (p @ i) = view d (p @ i)" if "peer_id p" for p i
    using peer_id_key [OF that] by (simp add: only_under_def)
  moreover have "mail_op A r = None" using True by (auto simp: is_group_req_def mail_op_def)
  ultimately show ?thesis
    using only rel by (simp add: only_under_def mail_rel_def spec_serve_def mbox_abs_def fun_eq_iff)
next
  case False
  show ?thesis
  proof (cases "mail_op A r")
    case None
    with mail_step [OF ok False] run ok rel show ?thesis by (simp add: spec_serve_def)
  next
    case (Some x)
    with mail_step [OF ok False, of me] run full have d': "d' = mbox_exec L A (LDBDatabase fn) x d" "full_op x"
      by (auto simp: full_request_def)
    have "mbox_abs A (view d') p = spec_exec x a p" if p: "peer_id p" for p
    proof -
      have "mbox_abs A (view d') p = spec_exec x (mbox_abs A (view d)) p"
        using exec_abs [OF ok d'(2)] p by (simp add: d'(1) peer_id_def)
      also have "\<dots> = spec_exec x a p" by (rule spec_exec_local) (use rel p in \<open>simp add: mail_rel_def\<close>)
      finally show ?thesis .
    qed
    with exec_ok [OF ok] show ?thesis by (simp add: d'(1) mail_rel_def spec_serve_def Some)
  qed
qed

lemma node_run_refines:
  "ok d \<Longrightarrow> node_run L A srt (node_of me fn) rs d = Some d' \<Longrightarrow> \<forall>r\<in>set rs. full_request A r \<Longrightarrow>
    mail_rel A (view d) a \<Longrightarrow> ok d' \<and> mail_rel A (view d') (fold (spec_serve A) rs a)"
proof (induction rs arbitrary: d a)
  case Nil
  then show ?case by simp
next
  case (Cons r rs)
  then obtain d1 where 1: "node_step L A srt (node_of me fn) r d = Some d1"
    "node_run L A srt (node_of me fn) rs d1 = Some d'" by (auto simp: bind_eq_Some_conv)
  have "ok d1 \<and> mail_rel A (view d1) (spec_serve A r a)"
    by (rule step_refines [OF Cons.prems(1) 1(1) _ Cons.prems(4)]) (use Cons.prems(3) in simp)
  with Cons.IH [of d1 "spec_serve A r a"] 1(2) Cons.prems(3) show ?case by simp
qed

end

section \<open>Well-formed entries\<close>

text \<open>
  An entry of the member table is an item or a log entry stored under its own id, or the copy
  under one of the two last keys. An entry of the database is a message stored under
  its recipient and its own id, a group with an owner stored under its own id, or an entry of the
  member table. \<open>J\<close> is what is known of the recipients.
\<close>

definition member_entry :: "codecs \<Rightarrow> bytes \<Rightarrow> bytes \<Rightarrow> bool" where
  "member_entry A k v \<longleftrightarrow>
    (\<exists>gid x. v = encoded (cMemberItem A) x \<and> (k = memberK gid (miId x) \<or> k = memberLastK gid)) \<or>
    (\<exists>gid x. v = encoded (cMemberLog A) x \<and> (k = memberLogK gid (mlId x) \<or> k = memberLastlogK gid))"

definition mail_entry :: "codecs \<Rightarrow> (JID \<Rightarrow> bool) \<Rightarrow> bytes \<Rightarrow> bytes \<Rightarrow> bool" where
  "mail_entry A J k v \<longleftrightarrow>
    (\<exists>m. k = Peerid (eTo (mEnvelope m)) @ eId (mEnvelope m) \<and> v = Message_Bytes A m \<and>
      eType (mEnvelope m) \<in> {NormalMsg, GroupMsg} \<and> J (eTo (mEnvelope m)))"

definition group_entry :: "codecs \<Rightarrow> bytes \<Rightarrow> bytes \<Rightarrow> bool" where
  "group_entry A k v \<longleftrightarrow>
    (\<exists>grp. k = gId grp \<and> gId grp \<noteq> [] \<and> gOwner grp \<noteq> None \<and> v = encoded (cGroup A) grp)"

definition entry_ok :: "codecs \<Rightarrow> (JID \<Rightarrow> bool) \<Rightarrow> bytes \<Rightarrow> bytes \<Rightarrow> bool" where
  "entry_ok A J k v \<longleftrightarrow> mail_entry A J k v \<or>
    (\<exists>k'. k = ''GROUP'' @ k' \<and> group_entry A k' v) \<or>
    (\<exists>k'. k = ''GROUP_MEMBER'' @ k' \<and> member_entry A k' v)"

lemma member_entryI:
  "k = memberK gid (miId x) \<Longrightarrow> member_entry A k (encoded (cMemberItem A) x)"
  "member_entry A (memberLastK gid) (encoded (cMemberItem A) x)"
  "k = memberLogK gid (mlId y) \<Longrightarrow> member_entry A k (encoded (cMemberLog A) y)"
  "member_entry A (memberLastlogK gid) (encoded (cMemberLog A) y)"
  by (auto simp: member_entry_def)

definition entries_ok ::
    "('d \<Rightarrow> bool) \<Rightarrow> ('d \<Rightarrow> bytes \<rightharpoonup> bytes) \<Rightarrow> codecs \<Rightarrow> (JID \<Rightarrow> bool) \<Rightarrow> 'd \<Rightarrow> bool" where
  "entries_ok ok view A J d \<longleftrightarrow> ok d \<and> (\<forall>k v. view d k = Some v \<longrightarrow> entry_ok A J k v)"

context member_store
begin

lemma entries_put:
  assumes "g = newGroupDB (LDBDatabase fn)" and "entries_ok ok view A J d" and "member_entry A k v"
  shows "entries_ok ok view A J (snd (db_Put L (memberTab g) k v d))"
  using assms by (auto simp: entries_ok_def entry_ok_def db_Put_prefix lv_put_ok lv_put_view)

lemma entries_del:
  "entries_ok ok view A J d \<Longrightarrow> entries_ok ok view A J (snd (db_Delete L (memberTab g) k d))"
  by (auto simp: entries_ok_def db_Delete_prefix lv_delete_ok lv_delete_view)

lemma append_log_entries:
  assumes g: "g = newGroupDB (LDBDatabase fn)" and d: "entries_ok ok view A J d"
    and run: "append_log L A g uuid gm d = Some (b, d')"
  shows "entries_ok ok view A J d' \<and> (\<exists>x. b = encoded (cMemberLog A) x)"
proof (cases "db_Get L (memberTab g) (memberLastlogK (gmGid gm)) d")
  case (Inl e)
  with run d show ?thesis
    by (auto simp: append_log_def Let_def zero_MemberLog_def intro!: entries_put [OF g] entries_del member_entryI)
next
  case (Inr b)
  with run d show ?thesis
    by (auto simp: append_log_def Let_def zero_MemberLog_def intro!: entries_put [OF g] entries_del member_entryI)
qed

lemma add_member_entries:
  assumes g: "g = newGroupDB (LDBDatabase fn)" and d: "entries_ok ok view A J d"
    and run: "add_member L A g gm d = Some d'"
  shows "entries_ok ok view A J d'"
proof (cases "db_Get L (memberTab g) (memberLastK (gmGid gm)) d")
  case (Inl e)
  with run d show ?thesis
    by (auto simp: add_member_def Let_def zero_MemberItem_def intro!: entries_put [OF g] entries_del member_entryI)
next
  case (Inr b)
  with run d show ?thesis
    by (auto simp: add_member_def Let_def zero_MemberItem_def intro!: entries_put [OF g] entries_del member_entryI)
qed

lemma sub_member_entries:
  assumes g: "g = newGroupDB (LDBDatabase fn)" and d: "entries_ok ok view A J d"
    and run: "sub_member L A g gm d = Some (e, d')"
  shows "entries_ok ok view A J d'"
  using run d
  by (auto simp: sub_member_def Let_def bind_eq_Some_conv split: sum.splits
      intro!: entries_put [OF g] entries_del member_entryI)

lemma handle_entries:
  assumes g: "g = newGroupDB (LDBDatabase fn)" and d: "entries_ok ok view A J d"
    and run: "handleMember L A g uuid gm d = Some (e, d')"
  shows "entries_ok ok view A J d'"
proof -
  from run obtain b d1 where log: "append_log L A g uuid gm d = Some (b, d1)"
    by (auto simp: handleMember_def bind_eq_Some_conv)
  from append_log_entries [OF g d log] obtain x where d1: "entries_ok ok view A J d1"
    and b: "b = encoded (cMemberLog A) x" by blast
  have last: "entries_ok ok view A J d3"
    if "db_Put L (memberTab g) (memberLastlogK (gmGid gm)) b d2 = (e3, d3)" "entries_ok ok view A J d2" for d2 e3 d3
    using entries_put [OF g that(2), of "memberLastlogK (gmGid gm)" b] that(1) by (simp add: b member_entryI)
  from run log d1 show ?thesis
    by (auto simp: handleMember_def bind_eq_Some_conv split: if_splits option.splits
        dest: last add_member_entries [OF g d1] sub_member_entries [OF g d1])
qed

lemma handle_members_entries:
  assumes g: "g = newGroupDB (LDBDatabase fn)"
  shows "entries_ok ok view A J d \<Longrightarrow> handle_members L A g us ms d = Some d' \<Longrightarrow> entries_ok ok view A J d'"
proof (induction ms arbitrary: us d)
  case Nil
  then show ?case by simp
next
  case (Cons m ms)
  then show ?case
    by (cases m) (auto split: option.splits dest: handle_entries [OF g])
qed

lemma member_service_entries:
  assumes "g = newGroupDB (LDBDatabase fn)" and "entries_ok ok view A J d"
    and "groupMemberService L A g us rw d = Returns (out, e, d')"
  shows "entries_ok ok view A J d'"
  using assms(3) handle_members_entries [OF assms(1,2)] assms(2)
  by (auto simp: groupMemberService_def Let_def split: prod.splits option.splits sum.splits if_splits)

lemma saveGroup_entries:
  assumes g: "g = newGroupDB (LDBDatabase fn)" and d: "entries_ok ok view A J d" and gid: "gId grp \<noteq> []"
    and run: "saveGroup L A g uuid grp d = Some (e, d')"
  shows "entries_ok ok view A J d'"
proof -
  obtain e1 d1 where p: "db_Put L (groupTab g) (gId grp) (encoded (cGroup A) grp) d = (e1, d1)" by fastforce
  from run have "gOwner grp \<noteq> None" by (auto simp: saveGroup_def split: option.splits)
  with gid have "group_entry A (gId grp) (encoded (cGroup A) grp)" by (auto simp: group_entry_def)
  then have "entries_ok ok view A J (snd (db_Put L (groupTab g) (gId grp) (encoded (cGroup A) grp) d))"
    using d by (auto simp: g entries_ok_def entry_ok_def db_Put_prefix lv_put_ok lv_put_view)
  then have "entries_ok ok view A J d1" by (simp add: p)
  with run p show ?thesis
    by (auto simp: saveGroup_def bind_eq_Some_conv split: option.splits sum.splits dest: handle_entries [OF g])
qed

lemma update_service_entries:
  assumes "g = newGroupDB (LDBDatabase fn)" and "entries_ok ok view A J d"
    and "groupUpdateService L A g uuid caller rw d = Returns (out, e, d')"
  shows "entries_ok ok view A J d'"
  using assms(2,3)
  by (auto simp: groupUpdateService_def Let_def split: prod.splits option.splits sum.splits if_splits
      dest!: saveGroup_entries [OF assms(1,2), rotated])

end

definition recipients :: "codecs \<Rightarrow> (JID \<Rightarrow> bool) \<Rightarrow> node_req \<Rightarrow> bool" where
  "recipients A J r \<longleftrightarrow> (\<forall>m. mail_op A r = Some (Put m) \<longrightarrow> J (eTo (mEnvelope m)))"

context mailbox_store
begin

lemma exec_entries:
  assumes d: "entries_ok ok view A J d" and J: "\<And>m. x = Put m \<Longrightarrow> J (eTo (mEnvelope m))"
    and ty: "\<And>m. x = Put m \<Longrightarrow> eType (mEnvelope m) \<in> {NormalMsg, GroupMsg}"
  shows "entries_ok ok view A J (mbox_exec L A (LDBDatabase fn) x d)"
proof (cases x)
  case (Put m)
  then have "mail_entry A J (Peerid (eTo (mEnvelope m)) @ eId (mEnvelope m)) (Message_Bytes A m)"
    using J ty unfolding mail_entry_def by blast
  with d Put show ?thesis by (auto simp: entries_ok_def put_result entry_ok_def)
next
  case (Clean c)
  with d show ?thesis by (auto simp: entries_ok_def clean_result)
qed

lemma step_entries:
  assumes d: "entries_ok ok view A J d" and J: "recipients A J r"
    and run: "node_step L A srt (node_of me fn) r d = Some d'"
  shows "entries_ok ok view A J d'"
proof (cases "is_group_req r")
  case True
  with run d show ?thesis
    by (auto simp: node_step_def serve_pids is_group_req_def split: outcome.splits
        dest: member_store.member_service_entries [OF members refl d]
          member_store.update_service_entries [OF members refl d])
next
  case False
  have ty: "eType (mEnvelope m) \<in> {NormalMsg, GroupMsg}" if "mail_op A r = Some (Put m)" for m
    using that by (auto simp: mail_op_def stored_msg_def split: if_splits prod.splits option.splits)
  have "ok d" using d by (simp add: entries_ok_def)
  from mail_step [OF this False, of me] run d J ty show ?thesis
    by (auto simp: recipients_def split: option.splits intro!: exec_entries)
qed

lemma run_entries:
  "entries_ok ok view A J d \<Longrightarrow> \<forall>r\<in>set rs. recipients A J r \<Longrightarrow> node_run L A srt (node_of me fn) rs d = Some d' \<Longrightarrow>
    entries_ok ok view A J d'"
  by (induction rs arbitrary: d) (auto simp: bind_eq_Some_conv dest: step_entries)

text \<open>When all recipients have full length, the messages of a peer are stored under their own ids.\<close>

lemma entries_keyed:
  assumes d: "entries_ok ok view A (\<lambda>j. 53 \<le> length j) d" and p: "peer_id p"
    and m: "mbox_abs A (view d) p i = Some m"
  shows "eId (mEnvelope m) = i \<and> Peerid (eTo (mEnvelope m)) = p"
proof -
  from m obtain v where v: "view d (p @ i) = Some v" "decode_msg A v = Some m"
    by (auto simp: mbox_abs_def Option.bind_eq_Some_conv)
  with d have "entry_ok A (\<lambda>j. 53 \<le> length j) (p @ i) v" by (simp add: entries_ok_def)
  moreover have "p @ i \<noteq> ''GROUP'' @ k" "p @ i \<noteq> ''GROUP_MEMBER'' @ k" for k
    using peer_id_key [OF p, of i] by (auto simp: prefix_def)
  ultimately obtain m' where m': "p @ i = Peerid (eTo (mEnvelope m')) @ eId (mEnvelope m')"
    "v = Message_Bytes A m'" "53 \<le> length (eTo (mEnvelope m'))" by (auto simp: entry_ok_def mail_entry_def)
  with v have "m' = m" by simp
  with m' p show ?thesis by (simp add: peer_id_def append_eq_same_length length_Peerid)
qed

end

end
