(* ===== verification/NodeProps.thy ===== *)
theory NodeProps
  imports Node
begin

text \<open>
  What holds of every run of a mailbox node: mail refines the abstract mailbox beside any group
  traffic, groups evolve as if there were no mail, all entries stay well-formed, and the requests
  that stop the node are exactly those with a nil member.
\<close>

section \<open>The group handlers read nothing but the group tables\<close>

text \<open>Two databases that agree on everything the group store can read.\<close>

definition group_agree :: "('d \<Rightarrow> bool) \<Rightarrow> ('d \<Rightarrow> bytes \<rightharpoonup> bytes) \<Rightarrow> 'd \<Rightarrow> 'd \<Rightarrow> bool" where
  "group_agree ok view d1 d2 \<longleftrightarrow> ok d1 \<and> ok d2 \<and> (\<forall>k. view d1 (''GROUP'' @ k) = view d2 (''GROUP'' @ k))"

text \<open>Results that differ in the text of an error at most.\<close>

abbreviation same_sum :: "err + 'a \<Rightarrow> err + 'a \<Rightarrow> bool" where
  "same_sum \<equiv> rel_sum (\<lambda>_ _. True) (=)"

abbreviation same_err :: "err option \<Rightarrow> err option \<Rightarrow> bool" where
  "same_err \<equiv> rel_option (\<lambda>_ _. True)"

lemma query_members_cong_Some:
  assumes same: "\<And>i. same_sum (f i) (h i)" and r: "query_members f acc i = Some ms"
  shows "query_members h acc i = Some ms"
proof -
  have "f = f \<longrightarrow> query_members h acc i = Some ms"
  proof (rule query_members.raw_induct [where P = "\<lambda>f' acc i y. f' = f \<longrightarrow> query_members h acc i = Some y", OF _ r])
    fix qm f' gml mid y
    assume IH: "\<And>f' gml mid y. qm f' gml mid = Some y \<Longrightarrow> f' = f \<longrightarrow> query_members h gml mid = Some y"
      and eq: "(case f' mid of Inl err \<Rightarrow> Some gml | Inr (m, nid) \<Rightarrow> qm f' (gml @ [m]) nid) = Some y"
    show "f' = f \<longrightarrow> query_members h gml mid = Some y"
    proof
      assume f: "f' = f"
      show "query_members h gml mid = Some y"
        using same [of mid] eq IH [of f] f
        by (subst query_members.simps) (auto simp: rel_sum.simps split: prod.splits)
    qed
  qed
  then show ?thesis by simp
qed

lemma query_members_cong:
  assumes same: "\<And>i. same_sum (f i) (h i)"
  shows "query_members f acc i = query_members h acc i"
proof -
  have flip: "same_sum (h i) (f i)" for i
    using same [of i] by (auto simp: rel_sum.simps)
  show ?thesis
    using query_members_cong_Some [where f = f and h = h and acc = acc and i = i, OF same]
      query_members_cong_Some [where f = h and h = f and acc = acc and i = i, OF flip]
    by (cases "query_members f acc i"; cases "query_members h acc i") auto
qed

context member_store
begin

lemma agree_get:
  assumes g: "g = newGroupDB (LDBDatabase fn)" and ag: "group_agree ok view d1 d2"
  shows "same_sum (db_Get L (memberTab g) k d1) (db_Get L (memberTab g) k d2)"
    and "same_sum (db_Get L (groupTab g) k d1) (db_Get L (groupTab g) k d2)"
proof -
  have *: "same_sum (lvGet L (''GROUP'' @ k) d1) (lvGet L (''GROUP'' @ k) d2)" for k
  proof (cases "view d1 (''GROUP'' @ k)")
    case None
    with ag obtain e1 e2 where "lvGet L (''GROUP'' @ k) d1 = Inl e1" "lvGet L (''GROUP'' @ k) d2 = Inl e2"
      using lv_get_None unfolding group_agree_def by metis
    then show ?thesis by simp
  next
    case (Some v)
    with ag have "lvGet L (''GROUP'' @ k) d1 = Inr v" "lvGet L (''GROUP'' @ k) d2 = Inr v"
      using lv_get_Some unfolding group_agree_def by metis+
    then show ?thesis by (simp only: rel_sum_simps)
  qed
  from * [of "''_MEMBER'' @ k"] * [of k] show
    "same_sum (db_Get L (memberTab g) k d1) (db_Get L (memberTab g) k d2)"
    "same_sum (db_Get L (groupTab g) k d1) (db_Get L (groupTab g) k d2)"
    by (simp_all add: g db_Get_prefix)
qed

lemma agree_put:
  assumes g: "g = newGroupDB (LDBDatabase fn)" and ag: "group_agree ok view d1 d2"
  shows "group_agree ok view (snd (db_Put L (memberTab g) k v d1)) (snd (db_Put L (memberTab g) k v d2))"
    and "group_agree ok view (snd (db_Put L (groupTab g) k v d1)) (snd (db_Put L (groupTab g) k v d2))"
    and "group_agree ok view (snd (db_Delete L (memberTab g) k d1)) (snd (db_Delete L (memberTab g) k d2))"
  using ag by (simp_all add: g group_agree_def db_Put_prefix db_Delete_prefix lv_put_ok lv_put_view
      lv_delete_ok lv_delete_view)

lemma agree_put_err:
  assumes g: "g = newGroupDB (LDBDatabase fn)" and ag: "group_agree ok view d1 d2"
  shows "rel_prod (=) (group_agree ok view) (db_Put L (memberTab g) k v d1) (db_Put L (memberTab g) k v d2)"
    and "rel_prod (=) (group_agree ok view) (db_Put L (groupTab g) k v d1) (db_Put L (groupTab g) k v d2)"
  using agree_put(1,2) [OF g ag, of k v] ag
  by (auto simp: rel_prod_sel group_agree_def g db_Put_prefix lv_put)

lemma agree_getMember:
  assumes g: "g = newGroupDB (LDBDatabase fn)" and ag: "group_agree ok view d1 d2"
  shows "same_sum (getMember L A g gid i d1) (getMember L A g gid i d2)"
  using agree_get(1) [OF g ag, of "memberK gid i"]
  by (auto simp: getMember_def rel_sum.simps split: prod.splits option.splits)

lemma agree_queryMember:
  assumes g: "g = newGroupDB (LDBDatabase fn)" and ag: "group_agree ok view d1 d2"
  shows "queryMember L A g gid act i d1 = queryMember L A g gid act i d2"
proof -
  have "same_sum (query_fn L A g gid act d1 i) (query_fn L A g gid act d2 i)" for i
    using agree_getMember [OF g ag, of gid i] by (auto simp: query_fn_def rel_sum.simps)
  then show ?thesis unfolding queryMember_def by (rule query_members_cong)
qed

lemma agree_append_log:
  assumes g: "g = newGroupDB (LDBDatabase fn)" and ag: "group_agree ok view d1 d2"
  shows "rel_option (rel_prod (=) (group_agree ok view)) (append_log L A g uuid gm d1) (append_log L A g uuid gm d2)"
  using agree_get(1) [OF g ag, of "memberLastlogK (gmGid gm)"] ag
  by (cases "db_Get L (memberTab g) (memberLastlogK (gmGid gm)) d1";
      cases "db_Get L (memberTab g) (memberLastlogK (gmGid gm)) d2")
    (auto simp: append_log_def Let_def intro!: agree_put [OF g])

lemma agree_add_member:
  assumes g: "g = newGroupDB (LDBDatabase fn)" and ag: "group_agree ok view d1 d2"
  shows "rel_option (group_agree ok view) (add_member L A g gm d1) (add_member L A g gm d2)"
  using agree_get(1) [OF g ag, of "memberLastK (gmGid gm)"] ag
  by (cases "db_Get L (memberTab g) (memberLastK (gmGid gm)) d1";
      cases "db_Get L (memberTab g) (memberLastK (gmGid gm)) d2")
    (auto simp: add_member_def Let_def intro!: agree_put [OF g])

lemma agree_sub_member:
  assumes g: "g = newGroupDB (LDBDatabase fn)" and ag: "group_agree ok view d1 d2"
  shows "rel_option (rel_prod same_err (group_agree ok view)) (sub_member L A g gm d1) (sub_member L A g gm d2)"
proof -
  note get = agree_getMember [OF g ag, of "gmGid gm"]
  show ?thesis
  proof (cases "getMember L A g (gmGid gm) (gmId gm) d1")
    case (Inl e)
    with get [of "gmId gm"] ag show ?thesis
      by (auto simp: sub_member_def Let_def rel_sum.simps)
  next
    case (Inr itm)
    with get [of "gmId gm"] have itm: "getMember L A g (gmGid gm) (gmId gm) d2 = Inr itm"
      by (auto simp: rel_sum.simps)
    show ?thesis
    proof (cases "getMember L A g (gmGid gm) (miPrve itm) d1")
      case (Inl e)
      with Inr itm get [of "miPrve itm"] ag show ?thesis
        by (auto simp: sub_member_def Let_def rel_sum.simps)
    next
      case (Inr p)
      with get [of "miPrve itm"] have p: "getMember L A g (gmGid gm) (miPrve itm) d2 = Inr p"
        by (auto simp: rel_sum.simps)
      from get [of "miNext itm"] ag show ?thesis
        using \<open>getMember L A g (gmGid gm) (gmId gm) d1 = Inr itm\<close> itm Inr p
        by (cases "getMember L A g (gmGid gm) (miNext itm) d1"; cases "getMember L A g (gmGid gm) (miNext itm) d2")
          (auto simp: sub_member_def Let_def intro!: agree_put [OF g])
    qed
  qed
qed

lemma agree_handle:
  assumes g: "g = newGroupDB (LDBDatabase fn)" and ag: "group_agree ok view d1 d2"
  shows "rel_option (rel_prod same_err (group_agree ok view))
    (handleMember L A g uuid gm d1) (handleMember L A g uuid gm d2)"
proof -
  from ag have "ok d1" "ok d2" by (auto simp: group_agree_def)
  from append_log_full [OF this(1), of uuid gm] append_log_full [OF this(2), of uuid gm]
    agree_append_log [OF g ag, of uuid gm]
  obtain b e1 e2 where log: "append_log L A g uuid gm d1 = Some (b, e1)" "append_log L A g uuid gm d2 = Some (b, e2)"
    "group_agree ok view e1 e2" by auto
  note put = agree_put_err(1) [OF g, of _ _ "memberLastlogK (gmGid gm)" b]
  have weak: "rel_prod same_err (group_agree ok view) x y" if "rel_prod (=) (group_agree ok view) x y" for x y
    using that by (auto simp: rel_prod_sel option.rel_refl)
  show ?thesis
  proof (cases "gmAction gm = ADD")
    case True
    from agree_add_member [OF g log(3), of gm] add_member_total [of gm e1] show ?thesis
      by (cases "add_member L A g gm e2") (auto simp: handleMember_def log True intro!: weak put)
  next
    case False
    from agree_sub_member [OF g log(3), of gm] sub_member_total [of gm e1] log(3) show ?thesis
      by (cases "sub_member L A g gm e2")
        (auto simp: handleMember_def log False option_rel_Some1 intro!: weak put split: option.splits)
  qed
qed

lemma agree_handle_members:
  assumes g: "g = newGroupDB (LDBDatabase fn)"
  shows "group_agree ok view d1 d2 \<Longrightarrow>
    rel_option (group_agree ok view) (handle_members L A g us ms d1) (handle_members L A g us ms d2)"
proof (induction ms arbitrary: us d1 d2)
  case Nil
  then show ?case by simp
next
  case (Cons m ms)
  show ?case
  proof (cases m)
    case None
    then show ?thesis by simp
  next
    case (Some r)
    from agree_handle [OF g Cons.prems, of "us 0" r] show ?thesis
      by (cases "handleMember L A g (us 0) r d1"; cases "handleMember L A g (us 0) r d2")
        (auto simp: Some intro: Cons.IH)
  qed
qed

lemma agree_setLastlog:
  assumes g: "g = newGroupDB (LDBDatabase fn)" and ag: "group_agree ok view d1 d2"
  shows "setLastlog L A g grp d1 = setLastlog L A g grp d2"
  using agree_get(1) [OF g ag, of "memberLastlogK (gId grp)"]
  by (auto simp: setLastlog_def rel_sum.simps)

lemma agree_getGroup:
  assumes g: "g = newGroupDB (LDBDatabase fn)" and ag: "group_agree ok view d1 d2"
  shows "same_sum (getGroup L A g gid d1) (getGroup L A g gid d2)"
  using agree_get(2) [OF g ag, of gid] agree_setLastlog [OF g ag]
  by (auto simp: getGroup_def rel_sum.simps split: prod.splits option.splits)

lemma agree_getGroup_Inr:
  "g = newGroupDB (LDBDatabase fn) \<Longrightarrow> group_agree ok view d1 d2 \<Longrightarrow>
    getGroup L A g gid d1 = Inr grp \<longleftrightarrow> getGroup L A g gid d2 = Inr grp"
  using agree_getGroup [of fn d1 d2 gid] by (auto simp: rel_sum.simps)

lemma agree_saveGroup:
  assumes g: "g = newGroupDB (LDBDatabase fn)" and ag: "group_agree ok view d1 d2"
  shows "rel_option (rel_prod (=) (group_agree ok view)) (saveGroup L A g uuid grp d1) (saveGroup L A g uuid grp d2)"
proof (cases "gOwner grp")
  case None
  then show ?thesis by (simp add: saveGroup_def)
next
  case (Some own)
  obtain e e1 e2 where put: "db_Put L (groupTab g) (gId grp) (encoded (cGroup A) grp) d1 = (e, e1)"
    "db_Put L (groupTab g) (gId grp) (encoded (cGroup A) grp) d2 = (e, e2)" "group_agree ok view e1 e2"
    using agree_put_err(2) [OF g ag, of "gId grp" "encoded (cGroup A) grp"]
    by (cases "db_Put L (groupTab g) (gId grp) (encoded (cGroup A) grp) d1";
        cases "db_Put L (groupTab g) (gId grp) (encoded (cGroup A) grp) d2") auto
  let ?gm = "\<lparr>gmId = gmId own, gmName = gmName own, gmGid = gId grp, gmAction = ADD\<rparr>"
  from agree_get(1) [OF g put(3), of "memberLastK (gId grp)"] agree_handle [OF g put(3), of uuid ?gm] put show ?thesis
    by (cases e; cases "db_Get L (memberTab g) (memberLastK (gId grp)) e1";
        cases "db_Get L (memberTab g) (memberLastK (gId grp)) e2";
        cases "handleMember L A g uuid ?gm e1"; cases "handleMember L A g uuid ?gm e2")
      (auto simp: saveGroup_def Some)
qed

abbreviation agree_out :: "(bytes \<times> err option \<times> 'd) outcome \<Rightarrow> (bytes \<times> err option \<times> 'd) outcome \<Rightarrow> bool" where
  "agree_out \<equiv> rel_outcome (rel_prod (\<lambda>_ _. True) (rel_prod same_err (group_agree ok view)))"

lemma agree_member_service:
  assumes g: "g = newGroupDB (LDBDatabase fn)" and ag: "group_agree ok view d1 d2"
  shows "agree_out (groupMemberService L A g us rw d1) (groupMemberService L A g us rw d2)"
proof -
  obtain err req where dec: "aUnmarshalReader (cMemberReq A) rw zero_MemberReq 4096 = (err, req)" by fastforce
  show ?thesis
    using agree_getGroup [OF g ag, of "rqGid req"] agree_handle_members [OF g ag, of us "rqMembers req"]
      agree_queryMember [OF g ag, of "rqGid req" "rqAction req" "rqId req"] ag
    by (auto simp: groupMemberService_def Let_def dec rel_sum.simps rel_option_iff zero_MemberRsp_def
        split: option.splits sum.splits)
qed

lemma agree_update_service:
  assumes g: "g = newGroupDB (LDBDatabase fn)" and ag: "group_agree ok view d1 d2"
  shows "agree_out (groupUpdateService L A g uuid caller rw d1) (groupUpdateService L A g uuid caller rw d2)"
proof -
  obtain req err where dec: "Group_FromReader A rw zero_Group = (req, err)" by fastforce
  let ?req = "req\<lparr>gOwner := Some (zero_GroupMember\<lparr>gmId := caller\<rparr>)\<rparr>"
  show ?thesis
  proof (cases "saveGroup L A g uuid ?req d1")
    case None
    with agree_saveGroup [OF g ag, of uuid ?req] ag show ?thesis
      by (cases err) (auto simp: groupUpdateService_def Let_def dec)
  next
    case (Some r)
    with agree_saveGroup [OF g ag, of uuid ?req] obtain e e1 e2 where
      save: "saveGroup L A g uuid ?req d1 = Some (e, e1)" "saveGroup L A g uuid ?req d2 = Some (e, e2)"
      "group_agree ok view e1 e2" by (cases r) (auto simp: option_rel_Some1)
    from agree_getGroup [OF g save(3), of "gId req"] ag save show ?thesis
      by (cases err; cases e; cases "getGroup L A g (gId req) e1"; cases "getGroup L A g (gId req) e2")
        (auto simp: groupUpdateService_def Let_def dec)
  qed
qed

end

section \<open>Requests and runs\<close>

lemma prefix_full:
  assumes "53 \<le> length j"
  shows "prefix ''GROUP'' (Peerid j) \<longleftrightarrow> prefix ''GROUP'' j"
proof -
  have "prefix (Peerid j) j" using assms by (simp add: Peerid_def take_is_prefix)
  moreover have "length ''GROUP'' \<le> length (Peerid j)" using assms by (simp add: length_Peerid)
  ultimately show ?thesis using prefix_length_prefix [of "''GROUP''" j "Peerid j"] prefix_order.trans by blast
qed

lemma full_peer_id: "53 \<le> length j \<Longrightarrow> \<not> prefix ''GROUP'' j \<Longrightarrow> peer_id (Peerid j)"
  by (simp add: peer_id_def prefix_full length_Peerid)

context mailbox_store
begin

lemma group_step_agree:
  assumes ag: "group_agree ok view d1 d2" and r: "is_group_req r"
    and run: "node_step L A srt (node_of me fn) r d1 = Some d1'"
  shows "\<exists>d2'. node_step L A srt (node_of me fn) r d2 = Some d2' \<and> group_agree ok view d1' d2'"
proof -
  note m = member_store.agree_member_service [OF members refl ag, where us = "nrUs r" and rw = "nrBytes r" and fn = fn]
    and u = member_store.agree_update_service [OF members refl ag,
      where uuid = "nrUs r 0" and caller = "nrCaller r" and rw = "nrBytes r" and fn = fn]
  from r run m u ag show ?thesis
    by (cases "groupMemberService L A (newGroupDB (LDBDatabase fn)) (nrUs r) (nrBytes r) d1";
        cases "groupMemberService L A (newGroupDB (LDBDatabase fn)) (nrUs r) (nrBytes r) d2";
        cases "groupUpdateService L A (newGroupDB (LDBDatabase fn)) (nrUs r 0) (nrCaller r) (nrBytes r) d1";
        cases "groupUpdateService L A (newGroupDB (LDBDatabase fn)) (nrUs r 0) (nrCaller r) (nrBytes r) d2")
      (auto simp: node_step_def serve_pids is_group_req_def)
qed

lemma exec_keeps_groups:
  assumes ok: "ok d" and x: "full_op x" "\<not> prefix ''GROUP'' (op_jid x)"
  shows "view (mbox_exec L A (LDBDatabase fn) x d) (''GROUP'' @ k) = view d (''GROUP'' @ k)"
proof -
  have "peer_id (Peerid (op_jid x))" using x by (intro full_peer_id) (cases x; simp)+
  from peer_id_key [OF this] have "''GROUP'' @ k \<noteq> Peerid (op_jid x) @ i" for i
    by (metis prefixI)
  with ok show ?thesis by (cases x) (auto simp: put_result clean_result)
qed

lemma mail_step_agree:
  assumes ag: "group_agree ok view d1 d2" and r: "\<not> is_group_req r" "peer_request A r"
    and run: "node_step L A srt (node_of me fn) r d1 = Some d1'"
  shows "group_agree ok view d1' d2"
  using ag mail_step [OF _ r(1), of d1 me] run r(2) exec_keeps_groups [of d1] exec_ok [of d1]
  by (auto simp: group_agree_def peer_request_def split: option.splits)

lemma run_agree:
  "group_agree ok view d1 d2 \<Longrightarrow> \<forall>r\<in>set rs. peer_request A r \<Longrightarrow>
    node_run L A srt (node_of me fn) rs d1 = Some d1' \<Longrightarrow>
    \<exists>d2'. node_run L A srt (node_of me fn) (filter is_group_req rs) d2 = Some d2' \<and> group_agree ok view d1' d2'"
proof (induction rs arbitrary: d1 d2)
  case Nil
  then show ?case by simp
next
  case (Cons r rs)
  from Cons.prems(3) obtain e1 where e1: "node_step L A srt (node_of me fn) r d1 = Some e1"
    "node_run L A srt (node_of me fn) rs e1 = Some d1'" by (auto simp: bind_eq_Some_conv)
  show ?case
  proof (cases "is_group_req r")
    case True
    from group_step_agree [OF Cons.prems(1) True e1(1)] Cons.IH [OF _ _ e1(2)] Cons.prems(2) True
    show ?thesis by fastforce
  next
    case False
    have "group_agree ok view e1 d2"
      by (rule mail_step_agree [OF Cons.prems(1) False _ e1(1)]) (use Cons.prems(2) in simp)
    with Cons.IH [OF _ _ e1(2)] Cons.prems(2) False show ?thesis by simp
  qed
qed

lemma mail_never_stops:
  "ok d \<Longrightarrow> \<forall>r\<in>set rs. \<not> is_group_req r \<Longrightarrow> \<exists>d'. node_run L A srt (node_of me fn) rs d = Some d'"
proof (induction rs arbitrary: d)
  case Nil
  then show ?case by simp
next
  case (Cons r rs)
  from mail_step [OF Cons.prems(1), of r me] Cons.prems(2) have
    step: "node_step L A srt (node_of me fn) r d =
      Some (case mail_op A r of None \<Rightarrow> d | Some x \<Rightarrow> mbox_exec L A (LDBDatabase fn) x d)" by simp
  have "ok (case mail_op A r of None \<Rightarrow> d | Some x \<Rightarrow> mbox_exec L A (LDBDatabase fn) x d)"
    using Cons.prems(1) exec_ok by (auto split: option.split)
  with Cons step show ?case by simp
qed

lemma run_keyed:
  assumes start: "ok d0" "view d0 = Map.empty" and run: "node_run L A srt (node_of me fn) rs d0 = Some d"
    and full: "\<forall>r\<in>set rs. full_request A r" and p: "peer_id p" and m: "mbox_abs A (view d) p i = Some m"
  shows "eId (mEnvelope m) = i \<and> Peerid (eTo (mEnvelope m)) = p"
proof -
  have "entries_ok ok view A (\<lambda>j. 53 \<le> length j) d0" using start by (simp add: entries_ok_def)
  moreover have "\<forall>r\<in>set rs. recipients A (\<lambda>j. 53 \<le> length j) r"
    using full by (auto simp: recipients_def full_request_def split: option.splits)
  ultimately show ?thesis by (rule entries_keyed [OF run_entries [OF _ _ run] p m])
qed

lemma spec_filter: "fold (spec_serve A) (filter (\<lambda>r. \<not> is_group_req r) rs) a = fold (spec_serve A) rs a"
  by (induction rs arbitrary: a) (auto simp: spec_serve_def mail_op_def is_group_req_def)

end

section \<open>Properties of a node\<close>

text \<open>
  Property C2: the mail of a node refines the abstract mailbox, whatever else the node serves. After any
  list of requests, any bytes from any callers, group requests included, that the
  node survived and in which stored messages and clears name JIDs of full length, a query for a peer is
  answered with exactly the messages that the decodable puts and clears of the list leave in the abstract
  mailbox, in ascending order of their time stamps, and changes nothing.
\<close>

theorem node_mail_refinement:
  assumes env: "mailbox_store L ok view A srt" and ok: "ok d" and rel: "mail_rel A (view d) a"
    and run: "node_run L A srt (node_of me fn) rs d = Some d'" and full: "\<forall>r\<in>set rs. full_request A r"
    and jid: "53 \<le> length jid" "\<not> prefix ''GROUP'' jid"
    and q: "nrPid q = PID_MAILBOX_QUERY" "aUnmarshalReader (cJID A) (nrBytes q) [] 128 = (None, jid)"
  shows "\<exists>b. serve L A srt (node_of me fn) q d' = Some (Returns (Bag_Bytes A b, None, d')) \<and>
    mset (Messages b) = spec_list (fold (spec_serve A) rs a) (Peerid jid) \<and>
    sorted_wrt (\<lambda>x y. eCt (mEnvelope x) \<le> eCt (mEnvelope y)) (Messages b)"
proof (intro exI conjI)
  let ?b = "doQueryMsg L A srt (LDBDatabase fn) jid d'"
  from mailbox_store.node_run_refines [OF env ok run full rel]
  have end': "ok d'" "mail_rel A (view d') (fold (spec_serve A) rs a)" by simp_all
  show "serve L A srt (node_of me fn) q d' = Some (Returns (Bag_Bytes A ?b, None, d'))"
    using q by (simp add: serve_pids queryService_def)
  have "mbox_abs A (view d') (Peerid jid) = fold (spec_serve A) rs a (Peerid jid)"
    using end'(2) full_peer_id [OF jid] by (simp add: mail_rel_def)
  then show "mset (Messages ?b) = spec_list (fold (spec_serve A) rs a) (Peerid jid)"
    by (simp add: mailbox_store.query_mset [OF env end'(1)] spec_list_def spec_ids_def)
  show "sorted_wrt (\<lambda>x y. eCt (mEnvelope x) \<le> eCt (mEnvelope y)) (Messages ?b)"
    by (rule mailbox_store.query_sorted [OF env])
qed

text \<open>A run for the witnesses: a peer leaves a message for another, and a third creates a group.\<close>

definition put_req :: "Message \<Rightarrow> node_req" where
  "put_req m = \<lparr>nrPid = PID_MAILBOX, nrCaller = ''alice'', nrBytes = Message_Bytes ref_codecs m, nrUs = (\<lambda>n. [])\<rparr>"

definition group_req :: node_req where
  "group_req = \<lparr>nrPid = PID_MAILBOX_GROUP_UPDATE, nrCaller = ''ann'',
    nrBytes = encoded (cGroup ref_codecs) demo_group, nrUs = (\<lambda>n. ''u1'')\<rparr>"

definition query_req :: "JID \<Rightarrow> node_req" where
  "query_req jid = \<lparr>nrPid = PID_MAILBOX_QUERY, nrCaller = ''bob'', nrBytes = encoded (cJID ref_codecs) jid, nrUs = (\<lambda>n. [])\<rparr>"

abbreviation demo_msg :: Message where
  "demo_msg \<equiv> msg_to_peer ''m1'' (peer_of CHR ''a'') 7"

abbreviation ref_run :: "node_req list \<Rightarrow> mem \<Rightarrow> mem option" where
  "ref_run \<equiv> node_run mem_leveldb ref_codecs (sort_key (\<lambda>m. eCt (mEnvelope m))) (node_of ref_box ''mb'')"

lemma put_req_op: "mail_op ref_codecs (put_req demo_msg) = Some (Put demo_msg)"
  using refc.Message_read [OF ref_msg_size] by (simp add: mail_op_def put_req_def stored_msg_def)

lemma group_req_op [simp]: "mail_op A group_req = None" "is_group_req group_req"
  by (simp_all add: mail_op_def group_req_def is_group_req_def)

lemma not_GROUP_peer: "\<not> prefix ''GROUP'' (peer_of CHR ''a'')"
  by (simp add: peer_of_def prefix_def numeral_eq_Suc)

lemma demo_requests: "full_request ref_codecs (put_req demo_msg)" "full_request A group_req"
  "peer_request ref_codecs (put_req demo_msg)" "peer_request A group_req"
  by (simp_all add: full_request_def peer_request_def put_req_op not_GROUP_peer)

lemma node_demo_run: "\<exists>d'. ref_run [put_req demo_msg, group_req] [] = Some d'"
proof -
  let ?d = "snd (putMsg mem_leveldb ref_codecs (LDBDatabase ''mb'') demo_msg [])"
  have "\<not> is_group_req (put_req demo_msg)" by (simp add: is_group_req_def put_req_def)
  from ref_mbox.mail_step [OF mem_ok_empty this] have 1: "node_step mem_leveldb ref_codecs
      (sort_key (\<lambda>m. eCt (mEnvelope m))) (node_of ref_box ''mb'') (put_req demo_msg) [] = Some ?d"
    by (simp add: put_req_op)
  from update_total [OF ref_member_store ref_mbox.put_result(2) [OF mem_ok_empty]] obtain out e d' where
    "groupUpdateService mem_leveldb ref_codecs (newGroupDB (LDBDatabase ''mb'')) ''u1'' ''ann''
      (encoded (cGroup ref_codecs) demo_group) ?d = Returns (out, e, d')" by blast
  then have "node_step mem_leveldb ref_codecs (sort_key (\<lambda>m. eCt (mEnvelope m))) (node_of ref_box ''mb'')
      group_req ?d = Some d'"
    by (simp add: node_step_def serve_pids group_req_def)
  with 1 show ?thesis by simp
qed

lemma demo_spec: "spec_list (fold (spec_serve ref_codecs) [put_req demo_msg, group_req] (\<lambda>p i. None))
    (peer_of CHR ''a'') = {#demo_msg#}"
proof -
  have "spec_ids (spec_put demo_msg (\<lambda>p i. None)) (peer_of CHR ''a'') = {''m1''}"
    by (auto simp: spec_ids_def spec_put_def Let_def)
  then show ?thesis
    by (simp add: spec_list_def spec_serve_def put_req_op) (simp add: spec_put_def Let_def)
qed

lemma query_req_read: "aUnmarshalReader (cJID ref_codecs) (nrBytes (query_req (peer_of c))) [] 128 = (None, peer_of c)"
  using refc.jidc.reader_encoded [OF _ ref_jid_size] by (simp add: query_req_def)

lemma mail_rel_empty: "mail_rel A (map_of []) (\<lambda>p i. None)"
  by (simp add: mail_rel_def mbox_abs_def fun_eq_iff)

theorem node_mail_refinement_witness:
  "\<exists>d' b. ref_run [put_req demo_msg, group_req] [] = Some d' \<and>
    serve mem_leveldb ref_codecs (sort_key (\<lambda>m. eCt (mEnvelope m))) (node_of ref_box ''mb'')
      (query_req (peer_of CHR ''a'')) d' = Some (Returns (Bag_Bytes ref_codecs b, None, d')) \<and>
    mset (Messages b) = {#demo_msg#}"
proof -
  from node_demo_run obtain d' where d': "ref_run [put_req demo_msg, group_req] [] = Some d'" by blast
  have full: "\<forall>r\<in>set [put_req demo_msg, group_req]. full_request ref_codecs r" by (simp add: demo_requests)
  have pid: "nrPid (query_req (peer_of CHR ''a'')) = PID_MAILBOX_QUERY" by (simp add: query_req_def)
  have len: "53 \<le> length (peer_of CHR ''a'')" by simp
  from node_mail_refinement [OF ref_mailbox_store mem_ok_empty mail_rel_empty d' full len not_GROUP_peer pid query_req_read]
    demo_spec d' show ?thesis by auto
qed

text \<open>
  Property C13: groups and mail share a database and do not interfere. In a run whose puts and clears name
  full-length JIDs that do not start with the prefix of the group table, the groups and member lists
  evolve as in the run of the group requests alone: every group is read the same and every member query
  has the same answer, or is endless in both. The mail requests alone never stop the node, and leave every
  such peer the same messages.
\<close>

theorem groups_and_mail_separate:
  assumes env: "mailbox_store L ok view A srt" and ok: "ok d"
    and run: "node_run L A srt (node_of me fn) rs d = Some d'" and peers: "\<forall>r\<in>set rs. peer_request A r"
    and g: "g = newGroupDB (LDBDatabase fn)"
  shows "(\<exists>dg. node_run L A srt (node_of me fn) (filter is_group_req rs) d = Some dg \<and>
      (\<forall>gid grp. getGroup L A g gid d' = Inr grp \<longleftrightarrow> getGroup L A g gid dg = Inr grp) \<and>
      (\<forall>gid act i. queryMember L A g gid act i d' = queryMember L A g gid act i dg)) \<and>
    (\<exists>dm. node_run L A srt (node_of me fn) (filter (\<lambda>r. \<not> is_group_req r) rs) d = Some dm \<and>
      (\<forall>jid. 53 \<le> length jid \<and> \<not> prefix ''GROUP'' jid \<longrightarrow>
        mset (Messages (doQueryMsg L A srt (LDBDatabase fn) jid d')) =
        mset (Messages (doQueryMsg L A srt (LDBDatabase fn) jid dm))))"
proof
  have mem: "member_store L ok view A" by (rule mailbox_store.members [OF env])
  have "group_agree ok view d d" using ok by (simp add: group_agree_def)
  from mailbox_store.run_agree [OF env this peers run] obtain dg where
    dg: "node_run L A srt (node_of me fn) (filter is_group_req rs) d = Some dg" "group_agree ok view d' dg" by blast
  with member_store.agree_getGroup_Inr [OF mem g] member_store.agree_queryMember [OF mem g]
  show "\<exists>dg. node_run L A srt (node_of me fn) (filter is_group_req rs) d = Some dg \<and>
      (\<forall>gid grp. getGroup L A g gid d' = Inr grp \<longleftrightarrow> getGroup L A g gid dg = Inr grp) \<and>
      (\<forall>gid act i. queryMember L A g gid act i d' = queryMember L A g gid act i dg)" by blast
  obtain dm where dm: "node_run L A srt (node_of me fn) (filter (\<lambda>r. \<not> is_group_req r) rs) d = Some dm"
    using mailbox_store.mail_never_stops [OF env ok] by fastforce
  have full: "\<forall>r\<in>set rs. full_request A r" "\<forall>r\<in>set (filter (\<lambda>r. \<not> is_group_req r) rs). full_request A r"
    using peers by (auto simp: full_request_def peer_request_def split: option.splits)
  have rel: "mail_rel A (view d) (mbox_abs A (view d))" by (simp add: mail_rel_def)
  note r1 = mailbox_store.node_run_refines [OF env ok run full(1) rel]
    and r2 = mailbox_store.node_run_refines [OF env ok dm full(2) rel]
  have "mbox_abs A (view d') (Peerid jid) = mbox_abs A (view dm) (Peerid jid)"
    if "53 \<le> length jid" "\<not> prefix ''GROUP'' jid" for jid
    using r1 r2 full_peer_id [OF that] by (simp add: mail_rel_def mailbox_store.spec_filter [OF env])
  with r1 r2 have "mset (Messages (doQueryMsg L A srt (LDBDatabase fn) jid d')) =
      mset (Messages (doQueryMsg L A srt (LDBDatabase fn) jid dm))"
    if "53 \<le> length jid" "\<not> prefix ''GROUP'' jid" for jid
    using that by (simp add: mailbox_store.query_mset [OF env] spec_list_def spec_ids_def)
  with dm show "\<exists>dm. node_run L A srt (node_of me fn) (filter (\<lambda>r. \<not> is_group_req r) rs) d = Some dm \<and>
      (\<forall>jid. 53 \<le> length jid \<and> \<not> prefix ''GROUP'' jid \<longrightarrow>
        mset (Messages (doQueryMsg L A srt (LDBDatabase fn) jid d')) =
        mset (Messages (doQueryMsg L A srt (LDBDatabase fn) jid dm)))" by blast
qed

theorem groups_and_mail_separate_witness:
  "\<exists>d' dg. ref_run [put_req demo_msg, group_req] [] = Some d' \<and> ref_run [group_req] [] = Some dg \<and>
    queryMember mem_leveldb ref_codecs (newGroupDB (LDBDatabase ''mb'')) ''g'' FROM ''ann'' d' =
    queryMember mem_leveldb ref_codecs (newGroupDB (LDBDatabase ''mb'')) ''g'' FROM ''ann'' dg"
proof -
  from node_demo_run obtain d' where d': "ref_run [put_req demo_msg, group_req] [] = Some d'" by blast
  have peers: "\<forall>r\<in>set [put_req demo_msg, group_req]. peer_request ref_codecs r" by (simp add: demo_requests)
  have "filter is_group_req [put_req demo_msg, group_req] = [group_req]"
    by simp (simp add: is_group_req_def put_req_def)
  with groups_and_mail_separate [OF ref_mailbox_store mem_ok_empty d' peers refl] d' show ?thesis by metis
qed

text \<open>
  Property C14: the type of the database. Whatever bytes and callers a node has served since its database was
  empty, every entry is a normal or group message under its recipient's peer id and its own id, a group
  with an owner under its own non-empty id, or an entry of the member table, which is an item or a log entry
  under its own id or a copy of one under a last key; each is the encoding of such a value. When all stored messages named full-length
  recipients, whatever is found under a peer id was sent to that peer, under its own id.
\<close>

theorem node_entries_typed:
  assumes env: "mailbox_store L ok view A srt" and ok: "ok d" and empty: "view d = Map.empty"
    and run: "node_run L A srt (node_of me fn) rs d = Some d'"
  shows "(\<forall>k v. view d' k = Some v \<longrightarrow> entry_ok A (\<lambda>j. True) k v) \<and>
    ((\<forall>r\<in>set rs. full_request A r) \<longrightarrow>
      (\<forall>p i m. peer_id p \<and> mbox_abs A (view d') p i = Some m \<longrightarrow>
        eId (mEnvelope m) = i \<and> Peerid (eTo (mEnvelope m)) = p))"
proof
  have start: "entries_ok ok view A J d" for J
    using ok by (simp add: entries_ok_def empty)
  have "\<forall>r\<in>set rs. recipients A (\<lambda>j. True) r" by (simp add: recipients_def)
  from mailbox_store.run_entries [OF env start this run]
  show "\<forall>k v. view d' k = Some v \<longrightarrow> entry_ok A (\<lambda>j. True) k v" by (simp add: entries_ok_def)
  show "(\<forall>r\<in>set rs. full_request A r) \<longrightarrow>
      (\<forall>p i m. peer_id p \<and> mbox_abs A (view d') p i = Some m \<longrightarrow>
        eId (mEnvelope m) = i \<and> Peerid (eTo (mEnvelope m)) = p)"
    using mailbox_store.run_keyed [OF env ok empty run] by blast
qed

theorem node_entries_typed_witness:
  "\<exists>d'. ref_run [put_req demo_msg, group_req] [] = Some d' \<and>
    (\<forall>k v. map_of d' k = Some v \<longrightarrow> entry_ok ref_codecs (\<lambda>j. True) k v) \<and>
    (\<forall>p i m. peer_id p \<and> mbox_abs ref_codecs (map_of d') p i = Some m \<longrightarrow> Peerid (eTo (mEnvelope m)) = p)"
proof -
  from node_demo_run obtain d' where d': "ref_run [put_req demo_msg, group_req] [] = Some d'" by blast
  from node_entries_typed [OF ref_mailbox_store mem_ok_empty _ d'] d' demo_requests show ?thesis by simp
qed

lemma handle_members_None:
  assumes env: "member_store L ok view A"
  shows "ok d \<Longrightarrow> handle_members L A g us ms d = None \<longleftrightarrow> None \<in> set ms"
proof (induction ms arbitrary: us d)
  case Nil
  then show ?case by simp
next
  case (Cons m ms)
  show ?case
  proof (cases m)
    case None
    then show ?thesis by simp
  next
    case (Some r)
    from member_store.handle_total [OF env, OF Cons.prems, of g "us 0" r] obtain e d1 where
      h: "handleMember L A g (us 0) r d = Some (e, d1)" by blast
    have "ok d1" using member_store.handle_only [OF env, OF Cons.prems h] by (simp add: only_under_def)
    with Cons.IH h Some show ?thesis by simp
  qed
qed

text \<open>
  Property C18: which requests stop a node. On a healthy database a handler panics exactly on a member
  request for an existing group that asks to add or remove members and whose list has a nil entry, and it
  hangs exactly on a member query whose walk is endless; every other request, whatever its
  bytes and its caller, is answered.
\<close>

theorem node_stops_on:
  assumes env: "mailbox_store L ok view A srt" and ok: "ok d" and g: "g = newGroupDB (LDBDatabase fn)"
    and dec: "aUnmarshalReader (cMemberReq A) (nrBytes r) zero_MemberReq 4096 = (err, req)"
  shows "(serve L A srt (node_of me fn) r d = Some Panics \<longleftrightarrow>
      nrPid r = PID_MAILBOX_GROUP_MEMBER \<and> err = None \<and> (\<exists>grp. getGroup L A g (rqGid req) d = Inr grp) \<and>
      rqAction req \<in> {ADD, SUB} \<and> None \<in> set (rqMembers req)) \<and>
    (serve L A srt (node_of me fn) r d = Some Hangs \<longleftrightarrow>
      nrPid r = PID_MAILBOX_GROUP_MEMBER \<and> err = None \<and> (\<exists>grp. getGroup L A g (rqGid req) d = Inr grp) \<and>
      rqAction req \<in> {FROM, TO} \<and> queryMember L A g (rqGid req) (rqAction req) (rqId req) d = None)"
proof -
  have mem: "member_store L ok view A" by (rule mailbox_store.members [OF env])
  from update_total [OF mem, OF ok, of "LDBDatabase fn" "nrUs r 0" "nrCaller r" "nrBytes r"] obtain out e d' where
    upd: "groupUpdateService L A g (nrUs r 0) (nrCaller r) (nrBytes r) d = Returns (out, e, d')" unfolding g by blast
  have neq: "ADD \<noteq> FROM" "ADD \<noteq> TO" "SUB \<noteq> FROM" "SUB \<noteq> TO"
    by (simp_all add: ADD_def SUB_def FROM_def TO_def)
  have member: "(groupMemberService L A g (nrUs r) (nrBytes r) d = Panics \<longleftrightarrow>
      err = None \<and> (\<exists>grp. getGroup L A g (rqGid req) d = Inr grp) \<and>
      rqAction req \<in> {ADD, SUB} \<and> None \<in> set (rqMembers req)) \<and>
    (groupMemberService L A g (nrUs r) (nrBytes r) d = Hangs \<longleftrightarrow>
      err = None \<and> (\<exists>grp. getGroup L A g (rqGid req) d = Inr grp) \<and>
      rqAction req \<in> {FROM, TO} \<and> queryMember L A g (rqGid req) (rqAction req) (rqId req) d = None)"
    using handle_members_None [OF mem, OF ok, of g "nrUs r" "rqMembers req"] neq
    by (auto simp: groupMemberService_def Let_def dec zero_MemberRsp_def
        split: option.splits sum.splits)
  from member upd show ?thesis by (simp add: serve_pids g)
qed

definition member_req :: node_req where
  "member_req = \<lparr>nrPid = PID_MAILBOX_GROUP_MEMBER, nrCaller = ''eve'',
    nrBytes = encoded (cMemberReq ref_codecs) demo_req, nrUs = (\<lambda>n. ''u'')\<rparr>"

theorem node_stops_on_witness:
  "serve mem_leveldb ref_codecs (sort_key (\<lambda>m. eCt (mEnvelope m))) (node_of ref_box ''mb'') member_req [] \<noteq> Some Panics \<and>
    serve mem_leveldb ref_codecs (sort_key (\<lambda>m. eCt (mEnvelope m))) (node_of ref_box ''mb'') member_req [] \<noteq> Some Hangs"
proof -
  have "aUnmarshalReader (cMemberReq ref_codecs) (nrBytes member_req) zero_MemberReq 4096 =
      (None, demo_req\<lparr>rqMembers := [Some (change ''b'' [])]\<rparr>)"
    by (simp add: member_req_def demo_req_read)
  from node_stops_on [OF ref_mailbox_store mem_ok_empty refl this, of ref_box] show ?thesis
    by (simp add: ADD_def FROM_def TO_def)
qed

text \<open>
  Property C28: anybody can delete a group. A clear request, from any caller, whose JID is shorter than a peer
  id and whose ids are keys of the group table removes these groups from the node's database: the handler answers
  without an error, and the groups are not found any more.
\<close>

theorem clear_deletes_group:
  assumes env: "mailbox_store L ok view A srt" and ok: "ok d" and pid: "nrPid r = PID_MAILBOX_CLEAN"
    and c: "aUnmarshalReader (cClean A) (nrBytes r) zero_CleanMsg (2 * 1024 * 1024) = (None, c)"
    and short: "length (cJid c) < 53" and gid: "''GROUP'' @ gid \<in> set (cIds c)"
  shows "\<exists>d' e. serve L A srt (node_of me fn) r d = Some (Returns ([], None, d')) \<and>
    getGroup L A (newGroupDB (LDBDatabase fn)) gid d' = Inl e"
proof -
  let ?d' = "doCleanMsg L (LDBDatabase fn) c d"
  note clean = mailbox_store.clean_result [OF env ok, of fn c]
  have "view ?d' (''GROUP'' @ gid) = None" using short gid by (auto simp: clean(2) Peerid_short)
  then have "db_contents view (table (LDBDatabase fn) ''GROUP'') ?d' gid = None"
    by (simp add: db_contents_table)
  from group_get_none [OF mailbox_store.members [OF env], OF clean(1) this]
  have "\<exists>e. getGroup L A (newGroupDB (LDBDatabase fn)) gid ?d' = Inl e" by (auto simp: getGroup_def)
  moreover have "serve L A srt (node_of me fn) r d = Some (Returns ([], None, ?d'))"
    by (simp add: serve_pids pid cleanService_def c [simplified])
  ultimately show ?thesis by blast
qed

definition wipe_req :: node_req where
  "wipe_req = \<lparr>nrPid = PID_MAILBOX_CLEAN, nrCaller = ''eve'',
    nrBytes = encoded (cClean ref_codecs) \<lparr>cJid = [], cIds = [''GROUPg'']\<rparr>, nrUs = (\<lambda>n. [])\<rparr>"

lemma wipe_req_read: "aUnmarshalReader (cClean ref_codecs) (nrBytes wipe_req) zero_CleanMsg (2 * 1024 * 1024) =
    (None, \<lparr>cJid = [], cIds = [''GROUPg'']\<rparr>)"
  using refc.cleanc.reader_encoded [of "\<lparr>cJid = [], cIds = [''GROUPg'']\<rparr>" "2 * 1024 * 1024"]
  by (simp add: wipe_req_def clean_size)

lemma group_stored: "\<exists>d grp. mem_ok d \<and>
    getGroup mem_leveldb ref_codecs (newGroupDB (LDBDatabase ''mb'')) ''g'' d = Inr grp"
proof -
  have "holds_members ref_codecs (db_contents map_of (table (LDBDatabase ''mb'') ''GROUP_MEMBER'') [])
      (gId (demo_group\<lparr>gOwner := Some (owner_of ''ann'')\<rparr>)) []"
    using empty_group_holds [of mem_group_tab] by (simp add: mem_group_tab_def)
  from saveGroup_new [OF ref_member_store mem_ok_empty _ _ _ this, of "''ann''" "''u1''"] show ?thesis by auto
qed

theorem clear_deletes_group_witness:
  "\<exists>d grp d' e. getGroup mem_leveldb ref_codecs (newGroupDB (LDBDatabase ''mb'')) ''g'' d = Inr grp \<and>
    serve mem_leveldb ref_codecs (sort_key (\<lambda>m. eCt (mEnvelope m))) (node_of ref_box ''mb'') wipe_req d =
      Some (Returns ([], None, d')) \<and>
    getGroup mem_leveldb ref_codecs (newGroupDB (LDBDatabase ''mb'')) ''g'' d' = Inl e"
proof -
  from group_stored obtain d grp where d: "mem_ok d"
    "getGroup mem_leveldb ref_codecs (newGroupDB (LDBDatabase ''mb'')) ''g'' d = Inr grp" by blast
  from clear_deletes_group [OF ref_mailbox_store d(1) _ wipe_req_read, of "''g''"] d(2) show ?thesis
    by (fastforce simp: wipe_req_def)
qed

section \<open>Delivery through a node that serves anything else\<close>

text \<open>
  Offline messages are delivered end to end. The mailbox node has served any requests whose stored messages
  and clears name full-length JIDs since its database was empty. A node sends a normal message to a
  peer it cannot reach; when the peer comes online and asks its mailbox, the message is in the
  answer; clearing the ids of the answer, as the gateway does, leaves the mailbox empty. The
  bounds are the limits of the handlers.
\<close>

theorem offline_end_to_end:
  assumes alice: "mailbox_client L ok view A srt fn us box dbs Pa alice"
    and bob: "mailbox_client L ok view A srt fn us box dbs Pb bob"
    and start: "ok d0" "view d0 = Map.empty" and run: "node_run L A srt (node_of box fn) rs d0 = Some (dbs w)"
    and full: "\<forall>r\<in>set rs. full_request A r" and ty: "eType (mEnvelope m) = NormalMsg"
    and to: "eTo (mEnvelope m) = csMyid c" and mid: "eId (mEnvelope m) \<noteq> []"
    and jid: "53 \<le> length (csMyid c)" "\<not> prefix ''GROUP'' (csMyid c)" "Mailid (csMyid c) = box"
    and off: "pRequest Pa (Peerid (csMyid c)) PID_NORMAL (Message_Bytes A m) request_timeout w = (Inl e, w1)"
      "dbs w1 = dbs w"
    and fits: "length (Message_Bytes A m) \<le> MAX_PKG" "length (encoded (cJID A) (csMyid c)) \<le> 128"
      "length (encoded (cClean A) \<lparr>cJid = csMyid c, cIds = map (\<lambda>m. eId (mEnvelope m)) (Messages
        (doQueryMsg L A srt (LDBDatabase fn) (csMyid c) (snd (putMsg L A (LDBDatabase fn) m (dbs w)))))\<rparr>) \<le> 2 * 1024 * 1024"
  shows "\<exists>w2 b w3 w4 b' w5. SendMsg A Pa m w = (None, w2) \<and>
    cs_QueryMsg A Pb c w2 = ((Some b, None), w3) \<and> m \<in> set (Messages b) \<and>
    cs_CleanMsg A Pb c (map (\<lambda>m. eId (mEnvelope m)) (Messages b)) w3 = (None, w4) \<and>
    cs_QueryMsg A Pb c w4 = ((Some b', None), w5) \<and> Messages b' = []"
proof -
  have env: "mailbox_store L ok view A srt" using alice by (simp add: mailbox_client_def)
  have ok: "ok (dbs w)"
    using mailbox_store.node_run_refines [OF env start(1) run full, of "mbox_abs A (view d0)"]
    by (simp add: mail_rel_def)
  have keyed: "eId (mEnvelope m') = i" if "mbox_abs A (view (dbs w)) (Peerid (csMyid c)) i = Some m'" for i m'
    using mailbox_store.run_keyed [OF env start run full full_peer_id [OF jid(1,2)] that] by simp
  show ?thesis
    by (rule send_query_clear [OF alice bob ok ty to mid jid(1,3) off keyed fits])
qed

lemma group_run: "\<exists>d. ref_run [group_req] [] = Some d"
proof -
  from update_total [OF ref_member_store mem_ok_empty] obtain out e d where
    "groupUpdateService mem_leveldb ref_codecs (newGroupDB (LDBDatabase ''mb'')) ''u1'' ''ann''
      (encoded (cGroup ref_codecs) demo_group) [] = Returns (out, e, d)" by blast
  then have "node_step mem_leveldb ref_codecs (sort_key (\<lambda>m. eCt (mEnvelope m))) (node_of ref_box ''mb'')
      group_req [] = Some d"
    by (simp add: node_step_def serve_pids group_req_def)
  then show ?thesis by simp
qed

lemma not_GROUP_bob: "\<not> prefix ''GROUP'' bob_jid"
  by (simp add: bob_jid_def NewJID_def peer_of_def prefix_def numeral_eq_Suc)

lemma bob_query_run:
  assumes run: "ref_run [group_req] [] = Some d"
  shows "mem_ok d \<and> Messages (doQueryMsg mem_leveldb ref_codecs (sort_key (\<lambda>m. eCt (mEnvelope m))) (LDBDatabase ''mb'') bob_jid
    (snd (putMsg mem_leveldb ref_codecs (LDBDatabase ''mb'') msg_to_bob d))) = [msg_to_bob]"
proof -
  let ?d = "snd (putMsg mem_leveldb ref_codecs (LDBDatabase ''mb'') msg_to_bob d)" and ?b = "peer_of CHR ''b''"
  have "\<forall>r\<in>set [group_req]. full_request ref_codecs r" by (simp add: demo_requests)
  from ref_mbox.node_run_refines [OF mem_ok_empty run this mail_rel_empty] full_peer_id [OF _ not_GROUP_bob]
  have d: "mem_ok d" "mbox_abs ref_codecs (map_of d) ?b = (\<lambda>i. None)"
    by (simp_all add: mail_rel_def spec_serve_def)
  have "mbox_abs ref_codecs (map_of ?d) ?b = [''m1'' \<mapsto> msg_to_bob]"
    using ref_mbox.abs_put [of ?b msg_to_bob d] d
    by (simp add: ref_mbox.put_result [OF d(1)] spec_put_def Let_def fun_eq_iff)
  then have "spec_ids (mbox_abs ref_codecs (map_of ?d)) ?b = {''m1''}"
    "spec_list (mbox_abs ref_codecs (map_of ?d)) ?b = {#msg_to_bob#}"
    by (auto simp: spec_ids_def spec_list_def)
  then have "mset (Messages (doQueryMsg mem_leveldb ref_codecs (sort_key (\<lambda>m. eCt (mEnvelope m)))
      (LDBDatabase ''mb'') bob_jid ?d)) = {#msg_to_bob#}"
    by (simp only: ref_mbox.query_mset [OF ref_mbox.put_result(2) [OF d(1)]] bob_facts)
  with d(1) show ?thesis by simp
qed

theorem offline_end_to_end_witness:
  "\<exists>w w2 b w3 w4 b' w5. ref_run [group_req] [] = Some w \<and>
    SendMsg ref_codecs (ref_p2p ''alice'') msg_to_bob w = (None, w2) \<and>
    cs_QueryMsg ref_codecs (ref_p2p ''bob'') bob_svc w2 = ((Some b, None), w3) \<and> msg_to_bob \<in> set (Messages b) \<and>
    cs_CleanMsg ref_codecs (ref_p2p ''bob'') bob_svc (map (\<lambda>m. eId (mEnvelope m)) (Messages b)) w3 = (None, w4) \<and>
    cs_QueryMsg ref_codecs (ref_p2p ''bob'') bob_svc w4 = ((Some b', None), w5) \<and> Messages b' = []"
proof -
  from group_run obtain w where w: "ref_run [group_req] [] = Some w" by blast
  note bob = bob_query_run [OF w, THEN conjunct2]
  have full: "\<forall>r\<in>set [group_req]. full_request ref_codecs r" by (simp add: demo_requests)
  have off: "pRequest (ref_p2p ''alice'') (Peerid (csMyid bob_svc)) PID_NORMAL (Message_Bytes ref_codecs msg_to_bob)
      request_timeout w = (Inl ''dial failed'', w)"
    by (simp add: ref_p2p_def)
  have fits: "length (encoded (cJID ref_codecs) (csMyid bob_svc)) \<le> 128"
    "length (encoded (cClean ref_codecs) \<lparr>cJid = csMyid bob_svc, cIds = map (\<lambda>m. eId (mEnvelope m)) (Messages
      (doQueryMsg mem_leveldb ref_codecs (sort_key (\<lambda>m. eCt (mEnvelope m))) (LDBDatabase ''mb'') (csMyid bob_svc)
        (snd (putMsg mem_leveldb ref_codecs (LDBDatabase ''mb'') msg_to_bob w))))\<rparr>) \<le> 2 * 1024 * 1024"
    unfolding bob_facts bob
    by (simp add: encoded_def ref_codecs_def plain_codec_def) (simp add: clean_size)
  have facts: "eType (mEnvelope msg_to_bob) = NormalMsg" "eTo (mEnvelope msg_to_bob) = csMyid bob_svc"
    "eId (mEnvelope msg_to_bob) \<noteq> []" "53 \<le> length (csMyid bob_svc)" "\<not> prefix ''GROUP'' (csMyid bob_svc)"
    "Mailid (csMyid bob_svc) = ref_box"
    by (simp_all add: not_GROUP_bob)
  from offline_end_to_end [OF ref_client ref_client mem_ok_empty map_of.simps(1) w full facts off refl bob_sizes fits] w
  show ?thesis by blast
qed

end
