(* ===== verification/Delivery.thy ===== *)
theory Delivery
  imports NodeProps
begin

text \<open>
  Sending to a peer that is online: what the answer to the request means for the peer's
  service, and how a message arrives twice. The locale states what an
  answered request means: the handler of \<open>PID_NORMAL\<close> ran on the peer, among whatever else the
  peer's service did meanwhile; \<open>hist\<close> is the history of that service since it was started as \<open>c\<close>.
\<close>

locale chat_peer = amino_laws A
  for A :: codecs +
  fixes c :: "'h ChatService" and hist :: "'w \<Rightarrow> 'h event list" and running :: "'w \<Rightarrow> 'h running"
    and P :: "'w p2p" and peer :: string
  assumes answered: "svc_run A (cs_Start c) (hist w) (running w) \<Longrightarrow>
      pRequest P peer PID_NORMAL rw t w = (Inr reply, w') \<Longrightarrow>
      Message_FromReader A rw zero_Message = (m, None) \<Longrightarrow>
      reply = SUCCESS \<and> svc_run A (cs_Start c) (hist w') (running w') \<and>
      (\<exists>es1 es2 e es3. e \<in> {Enqueue m, Unblocked m} \<and> hist w' = hist w @ es1 @ Request rw # es2 @ e # es3)"
    and elsewhere: "svc_run A (cs_Start c) (hist w) (running w) \<Longrightarrow>
      dest \<noteq> peer \<Longrightarrow> pRequest P dest pid rw t w = (r, w') \<Longrightarrow>
      \<exists>es. (\<forall>e\<in>set es. system_event e) \<and> hist w' = hist w @ es \<and> svc_run A (running w) es (running w')"

section \<open>What a run accepted\<close>

lemma svc_run_split:
  "svc_run A s es s'' \<Longrightarrow> es = xs @ ys \<Longrightarrow> \<exists>s'. svc_run A s xs s' \<and> svc_run A s' ys s''"
proof (induction arbitrary: ys rule: svc_run.induct)
  case (run_nil s)
  then show ?case using svc_run.run_nil by auto
next
  case (run_snoc s es s' e s'')
  show ?case
  proof (cases ys rule: rev_cases)
    case Nil
    with run_snoc show ?thesis using svc_run.run_nil svc_run.run_snoc by fastforce
  next
    case (snoc zs z)
    with run_snoc.prems have "es = xs @ zs" "z = e" by auto
    with run_snoc.IH obtain t where "svc_run A s xs t" "svc_run A t zs s'" by blast
    then show ?thesis using run_snoc.hyps(2) snoc \<open>z = e\<close> svc_run.run_snoc by blast
  qed
qed

lemma svc_run_nil: "svc_run A s [] s' \<Longrightarrow> s' = s"
  by (erule svc_runE) auto

lemma svc_run_single: "svc_run A s [e] s' \<Longrightarrow> svc_step A s e s'"
  by (erule svc_runE) (auto dest: svc_run_nil)

lemma accepted_grows_step: "svc_step A s e s' \<Longrightarrow> prefix (sAccepted s) (sAccepted s')"
  by (induction rule: svc_step.induct) (auto simp: AppendHandleMsg_def DropHandleMsg_def Let_def)

lemma accepted_grows: "svc_run A s es s' \<Longrightarrow> prefix (sAccepted s) (sAccepted s')"
  by (induction rule: svc_run.induct) (auto dest: accepted_grows_step intro: prefix_order.trans)

lemma enqueued_accepted:
  assumes "svc_run A s (xs @ Enqueue m # ys) s'"
  shows "m \<in> set (sAccepted s')"
proof -
  from svc_run_split [OF assms refl] obtain s1 where "svc_run A s1 ([Enqueue m] @ ys) s'" by auto
  from svc_run_split [OF this refl] obtain s2 where 2: "svc_run A s1 [Enqueue m] s2" "svc_run A s2 ys s'" by blast
  from svc_run_single [OF 2(1)] have "svc_step A s1 (Enqueue m) s2" .
  then have "m \<in> set (sAccepted s2)" by (auto simp: svc_step_simps)
  with accepted_grows [OF 2(2)] show ?thesis by (auto dest: set_mono_prefix)
qed

text \<open>The messages accepted or waiting, which internal steps only move.\<close>

definition in_hand :: "'h running \<Rightarrow> Message multiset" where
  "in_hand s = mset (sAccepted s) + mset (sWaiting s)"

lemma in_hand_step: "svc_step A s e s' \<Longrightarrow> system_event e \<Longrightarrow> in_hand s' = in_hand s"
  by (induction rule: svc_step.induct) (auto simp: in_hand_def)

lemma in_hand_run: "svc_run A s es s' \<Longrightarrow> \<forall>e\<in>set es. system_event e \<Longrightarrow> in_hand s' = in_hand s"
  by (induction rule: svc_run.induct) (auto simp: in_hand_step)

section \<open>Online delivery\<close>

text \<open>An unblocked request means the service had been stopped or its context cancelled.\<close>

lemma done_step: "svc_step A s e s' \<Longrightarrow> done_closed s' \<Longrightarrow> e \<noteq> CallStop \<Longrightarrow> e \<noteq> CancelCtx \<Longrightarrow> done_closed s"
  by (induction rule: svc_step.induct) (auto simp: done_closed_def AppendHandleMsg_def DropHandleMsg_def Let_def)

lemma done_run:
  "svc_run A s es s' \<Longrightarrow> done_closed s' \<Longrightarrow> CallStop \<notin> set es \<Longrightarrow> CancelCtx \<notin> set es \<Longrightarrow> done_closed s"
  by (induction rule: svc_run.induct) (auto dest: done_step)

lemma unblocked_done:
  assumes "svc_run A s (xs @ Unblocked m # ys) s'"
  shows "\<exists>s1. svc_run A s xs s1 \<and> done_closed s1"
proof -
  from svc_run_split [OF assms refl] obtain s1 where 1: "svc_run A s xs s1" "svc_run A s1 ([Unblocked m] @ ys) s'" by auto
  from svc_run_split [OF 1(2) refl] obtain s2 where "svc_run A s1 [Unblocked m] s2" by blast
  from svc_run_single [OF this] have "done_closed s1" by (simp add: svc_step_simps)
  with 1(1) show ?thesis by blast
qed

lemma not_exited_step:
  "svc_step A s e s' \<Longrightarrow> \<not> done_closed s \<Longrightarrow> sLoop s \<noteq> Exited \<Longrightarrow> sLoop s' \<noteq> Exited"
  by (induction rule: svc_step.induct) auto

lemma not_exited:
  "svc_run A s es s' \<Longrightarrow> \<not> done_closed s \<Longrightarrow> sLoop s \<noteq> Exited \<Longrightarrow> CallStop \<notin> set es \<Longrightarrow> CancelCtx \<notin> set es \<Longrightarrow>
    sLoop s' \<noteq> Exited"
proof (induction rule: svc_run.induct)
  case (run_snoc s es s' e s'')
  then have "\<not> done_closed s'" using done_run [OF run_snoc(1)] by auto
  with run_snoc show ?case by (auto dest: not_exited_step)
qed

lemma answered_enqueues:
  assumes net: "chat_peer A c hist running P peer" and at: "svc_run A (cs_Start c) (hist w) (running w)"
    and ans: "pRequest P peer PID_NORMAL rw t w = (Inr reply, w')"
    and dec: "Message_FromReader A rw zero_Message = (m, None)"
    and on: "\<not> csStop c" "CallStop \<notin> set (hist w')" "CancelCtx \<notin> set (hist w')"
  shows "svc_run A (cs_Start c) (hist w') (running w') \<and> (\<exists>es1 es2. hist w' = hist w @ es1 @ Enqueue m # es2)"
proof -
  from chat_peer.answered [OF net at ans dec] obtain es1 es2 e es3 where
    run: "svc_run A (cs_Start c) (hist w') (running w')" and e: "e = Enqueue m \<or> e = Unblocked m" and
    h: "hist w' = (hist w @ es1 @ Request rw # es2) @ e # es3" by auto
  have "e \<noteq> Unblocked m"
  proof
    assume "e = Unblocked m"
    with run h unblocked_done obtain s1 where
      s1: "svc_run A (cs_Start c) (hist w @ es1 @ Request rw # es2) s1" "done_closed s1" by metis
    from done_run [OF s1] on h show False by (auto simp: cs_Start_def done_closed_def)
  qed
  with e run h show ?thesis
    by (intro conjI exI [of _ "es1 @ Request rw # es2"] exI [of _ es3]) auto
qed

lemma answered_accepts:
  assumes net: "chat_peer A c hist running P peer" and at: "svc_run A (cs_Start c) (hist w) (running w)"
    and ans: "pRequest P peer PID_NORMAL rw t w = (Inr reply, w')"
    and dec: "Message_FromReader A rw zero_Message = (m, None)"
    and on: "\<not> csStop c" "CallStop \<notin> set (hist w')" "CancelCtx \<notin> set (hist w')"
  shows "svc_run A (cs_Start c) (hist w') (running w') \<and> m \<in> set (sAccepted (running w'))"
  using answered_enqueues [OF net at ans dec on] enqueued_accepted [of A "cs_Start c" _ m] by (metis append_assoc)

section \<open>A reference network with an online peer\<close>

text \<open>
  For the witnesses: the world is the database of the mailbox node and the service of the peer
  with its history. A request to the peer runs its handler; \<open>slow\<close> says that the
  answers come too late.
\<close>

record wnet =
  wnDb :: mem
  wnRun :: "unit running"
  wnHist :: "unit event list"

definition wn_request :: "bytes \<Rightarrow> Message \<Rightarrow> wnet \<Rightarrow> wnet" where
  "wn_request rw m w = w\<lparr>wnRun := (wnRun w)\<lparr>sWaiting := sWaiting (wnRun w) @ [m]\<rparr>,
     wnHist := wnHist w @ [Request rw]\<rparr>"

definition wn_enqueue :: "Message \<Rightarrow> wnet \<Rightarrow> wnet" where
  "wn_enqueue m w =
    (let s = wnRun w
     in w\<lparr>wnRun := s\<lparr>sWaiting := remove1 m (sWaiting s),
          sSvc := (sSvc s)\<lparr>csRecvMsgCh := csRecvMsgCh (sSvc s) @ [m]\<rparr>,
          sAccepted := sAccepted s @ [m], sAcked := sAcked s @ [m]\<rparr>,
        wnHist := wnHist w @ [Enqueue m]\<rparr>)"

definition wn_normal :: "bool \<Rightarrow> bytes \<Rightarrow> wnet \<Rightarrow> (err + bytes) \<times> wnet" where
  "wn_normal slow rw w =
    (if sRaced (wnRun w) then (Inl ''stream reset'', w)
     else (case Message_FromReader ref_codecs rw zero_Message of
         (m, Some e) \<Rightarrow> (Inr e, w\<lparr>wnHist := wnHist w @ [Request rw]\<rparr>)
       | (m, None) \<Rightarrow>
           if \<not> slow \<and> length (csRecvMsgCh (sSvc (wnRun w))) < recv_cap
           then (Inr SUCCESS, wn_enqueue m (wn_request rw m w))
           else (Inl ''timeout'', wn_request rw m w)))"

definition chat_p2p :: "bool \<Rightarrow> string \<Rightarrow> wnet p2p" where
  "chat_p2p slow me =
    \<lparr>pRequest = (\<lambda>dest pid rw t w.
       if dest = peer_of CHR ''b'' then
         (if pid = PID_NORMAL then wn_normal slow rw w else (Inl ''protocol not supported'', w))
       else (case pRequest (ref_p2p me) dest pid rw t (wnDb w) of (r, d) \<Rightarrow> (r, w\<lparr>wnDb := d\<rparr>))),
     pMyid = (\<lambda>w. me), pPeers = (\<lambda>w. ([], [], 0)), pFindpeer = (\<lambda>p w. Inl ''not found'')\<rparr>"

lemma run_snoc2: "svc_run A s es s1 \<Longrightarrow> svc_step A s1 e s2 \<Longrightarrow> svc_step A s2 e' s3 \<Longrightarrow> svc_run A s (es @ [e, e']) s3"
  using svc_run.run_snoc [OF svc_run.run_snoc] by fastforce

lemma wn_steps:
  "\<not> sRaced (wnRun w) \<Longrightarrow> Message_FromReader ref_codecs rw zero_Message = (m, None) \<Longrightarrow>
    svc_step ref_codecs (wnRun w) (Request rw) (wnRun (wn_request rw m w))"
  "\<not> sRaced (wnRun w) \<Longrightarrow> length (csRecvMsgCh (sSvc (wnRun w))) < recv_cap \<Longrightarrow>
    svc_step ref_codecs (wnRun (wn_request rw m w)) (Enqueue m) (wnRun (wn_enqueue m (wn_request rw m w)))"
  by (simp_all add: wn_request_def wn_enqueue_def Let_def svc_step_simps)

interpretation chat_net: chat_peer ref_codecs bob_svc wnHist wnRun "chat_p2p slow me" "peer_of CHR ''b''" for slow me
proof unfold_locales
  fix w w' :: wnet and rw t reply m
  assume at: "svc_run ref_codecs (cs_Start bob_svc) (wnHist w) (wnRun w)"
    and ans: "pRequest (chat_p2p slow me) (peer_of CHR ''b'') PID_NORMAL rw t w = (Inr reply, w')"
    and dec: "Message_FromReader ref_codecs rw zero_Message = (m, None)"
  from ans dec have r: "reply = SUCCESS" "w' = wn_enqueue m (wn_request rw m w)" "\<not> sRaced (wnRun w)"
    "length (csRecvMsgCh (sSvc (wnRun w))) < recv_cap"
    by (auto simp: chat_p2p_def wn_normal_def split: if_splits)
  have h: "wnHist w' = wnHist w @ [] @ Request rw # [] @ Enqueue m # []"
    by (simp add: r(2) wn_request_def wn_enqueue_def Let_def)
  moreover from run_snoc2 [OF at wn_steps(1) [OF r(3) dec] wn_steps(2) [OF r(3,4)]]
  have "svc_run ref_codecs (cs_Start bob_svc) (wnHist w') (wnRun w')" unfolding h by (simp add: r(2))
  ultimately show "reply = SUCCESS \<and> svc_run ref_codecs (cs_Start bob_svc) (wnHist w') (wnRun w') \<and>
      (\<exists>es1 es2 e es3. e \<in> {Enqueue m, Unblocked m} \<and> wnHist w' = wnHist w @ es1 @ Request rw # es2 @ e # es3)"
    using r(1) by blast
next
  fix w w' :: wnet and dest pid rw t r
  assume "dest \<noteq> peer_of CHR ''b''" "pRequest (chat_p2p slow me) dest pid rw t w = (r, w')"
  then have "wnHist w' = wnHist w" "wnRun w' = wnRun w"
    by (auto simp: chat_p2p_def split: prod.splits)
  then show "\<exists>es. (\<forall>e\<in>set es. system_event e) \<and> wnHist w' = wnHist w @ es \<and> svc_run ref_codecs (wnRun w) es (wnRun w')"
    by (intro exI [of _ "[]"]) (simp add: svc_run.run_nil)
qed

interpretation chat_box: mailbox_client mem_leveldb mem_ok map_of ref_codecs "sort_key (\<lambda>m. eCt (mEnvelope m))"
  "''mb''" "\<lambda>n. ''u''" ref_box wnDb "chat_p2p slow me" me for slow me
proof unfold_locales
  fix pid h rw and w :: wnet and out d' t
  assume "(pid, h) \<in> set (mailbox_Start mem_leveldb ref_codecs (sort_key (\<lambda>m. eCt (mEnvelope m))) None (\<lambda>n. ''u'')
      \<lparr>mbMyid = ref_box, mbStop = False, mbDb = LDBDatabase ''mb''\<rparr>)"
    and "h me rw (wnDb w) = Returns (out, None, d')"
  with ref_net.serves have "\<exists>v. pRequest (ref_p2p me) ref_box pid rw t (wnDb w) = (Inr out, v) \<and> v = d'" by blast
  moreover have "ref_box \<noteq> peer_of CHR ''b''" using bob_facts(8) by metis
  ultimately show "\<exists>w'. pRequest (chat_p2p slow me) ref_box pid rw t w = (Inr out, w') \<and> wnDb w' = d'"
    by (auto simp: chat_p2p_def)
qed

definition wn_start :: wnet where
  "wn_start = \<lparr>wnDb = [], wnRun = cs_Start bob_svc, wnHist = []\<rparr>"

lemma wn_start_at: "svc_run ref_codecs (cs_Start bob_svc) (wnHist wn_start) (wnRun wn_start)"
  by (simp add: wn_start_def svc_run.run_nil)

lemma bob_svc_sel [simp]: "csRecvMsgCh bob_svc = []" "\<not> csStop bob_svc" "csHandleMsgFn bob_svc = [(''h'', ())]"
  by (simp_all add: bob_svc_def demo_svc_def)

lemma bob_read: "Message_FromReader ref_codecs (Message_Bytes ref_codecs msg_to_bob) zero_Message = (msg_to_bob, None)"
  by (rule refc.Message_read [OF bob_sizes])

section \<open>Delivery to a peer that is online\<close>

text \<open>
  A handler registered while the service runs, as that of a session: the messages accepted after the
  registration reach it.
\<close>

lemma late_handler_gets:
  assumes run: "svc_run A (cs_Start c) (es1 @ Register fid fn # es2 @ Enqueue m # es3) s"
    and new: "csRecvMsgCh c = []" "distinct (map fst (csHandleMsgFn c))"
    and fresh: "fid \<notin> fst ` set (csHandleMsgFn c)" "\<forall>fn. Register fid fn \<notin> set es1"
    and stays: "Unregister fid \<notin> set (es2 @ Enqueue m # es3)"
    and live: "\<not> sRaced s" "sLoop s \<noteq> Exited"
  shows "\<exists>es' s'. svc_run A s es' s' \<and> (\<forall>e\<in>set es'. system_event e) \<and> m \<in> set (calls_of fid s')"
proof -
  from svc_run_split [OF run refl] obtain s1 where
    s1: "svc_run A (cs_Start c) es1 s1" "svc_run A s1 ([Register fid fn] @ es2 @ Enqueue m # es3) s" by auto
  from svc_run_split [OF s1(2) refl] obtain s2 where
    s2: "svc_run A s1 [Register fid fn] s2" "svc_run A s2 (es2 @ Enqueue m # es3) s" by blast
  from svc_run_split [OF s2(2) refl] obtain s3 where
    s3: "svc_run A s2 es2 s3" "svc_run A s3 ([Enqueue m] @ es3) s" by auto
  from svc_run_split [OF s3(2) refl] obtain s4 where
    s4: "svc_run A s3 [Enqueue m] s4" "svc_run A s4 es3 s" by blast
  note inv = register_inv [OF s1(1) svc_run_single [OF s2(1)] new fresh]
  have "prefix (sTaken s1) (sAccepted s2)" using inv by (auto simp: svc_inv_def)
  then have "prefix (sTaken s1) (sAccepted s3)" using accepted_grows [OF s3(1)] by (rule prefix_order.trans)
  moreover have "sAccepted s4 = sAccepted s3 @ [m]"
    using svc_run_single [OF s4(1)] by (auto simp: svc_step_simps)
  ultimately obtain X Y where acc: "sAccepted s = sTaken s1 @ X @ [m] @ Y"
    using accepted_grows [OF s4(2)] by (auto simp: prefix_def)
  from drain_calls_from [OF s2(2) inv stays live] obtain es' s' where
    "svc_run A s es' s'" "\<forall>e\<in>set es'. system_event e" "sTaken s1 @ calls_of fid s' = sAccepted s @ sWaiting s" by blast
  with acc show ?thesis by (intro exI [of _ es'] exI [of _ s']) auto
qed

text \<open>
  A message to a peer that is online reaches the peer's handlers. When the recipient answers the
  request, sending succeeds, without asking the mailbox. Unless the recipient's service was stopped or
  cancelled, or its registry was written during a dispatch, it can then go on by itself until the message has
  been handed to every handler that was registered from the start and not dropped.
\<close>

theorem online_delivery:
  assumes net: "chat_peer A c hist running P (Peerid (eTo (mEnvelope m)))"
    and at: "svc_run A (cs_Start c) (hist w) (running w)"
    and ty: "eType (mEnvelope m) = NormalMsg" and fits: "length (Message_Bytes A m) \<le> MAX_PKG"
    and ans: "pRequest P (Peerid (eTo (mEnvelope m))) PID_NORMAL (Message_Bytes A m) request_timeout w = (Inr reply, w')"
    and new: "csRecvMsgCh c = []" "\<not> csStop c" "distinct (map fst (csHandleMsgFn c))"
    and on: "CallStop \<notin> set (hist w')" "CancelCtx \<notin> set (hist w')" "\<not> sRaced (running w')"
    and reg: "fid \<in> fst ` set (csHandleMsgFn c)" "Unregister fid \<notin> set (hist w')"
  shows "SendMsg A P m w = (None, w') \<and>
    (\<exists>es s'. svc_run A (running w') es s' \<and> (\<forall>e\<in>set es. system_event e) \<and> m \<in> set (calls_of fid s'))"
proof
  show "SendMsg A P m w = (None, w')" using ty ans by (simp add: SendMsg_def send_or_store_def)
  have "amino_laws A" using net by (simp add: chat_peer_def)
  from answered_accepts [OF net at ans amino_laws.Message_read [OF this fits] new(2) on(1,2)]
  have all: "svc_run A (cs_Start c) (hist w') (running w')" and acc: "m \<in> set (sAccepted (running w'))" by blast+
  have "sLoop (running w') \<noteq> Exited"
    using not_exited [OF all] new(2) on by (simp add: cs_Start_def done_closed_def)
  from drain_calls [OF all new(3) reg(1) new(1) reg(2) on(3) this] acc
  show "\<exists>es s'. svc_run A (running w') es s' \<and> (\<forall>e\<in>set es. system_event e) \<and> m \<in> set (calls_of fid s')"
    by fastforce
qed

theorem online_delivery_witness:
  "\<exists>w' es s'. SendMsg ref_codecs (chat_p2p False ''alice'') msg_to_bob wn_start = (None, w') \<and>
    svc_run ref_codecs (wnRun w') es s' \<and> msg_to_bob \<in> set (calls_of ''h'' s')"
proof -
  let ?w = "wn_enqueue msg_to_bob (wn_request (Message_Bytes ref_codecs msg_to_bob) msg_to_bob wn_start)"
  have ans: "pRequest (chat_p2p False ''alice'') (Peerid (eTo (mEnvelope msg_to_bob))) PID_NORMAL
      (Message_Bytes ref_codecs msg_to_bob) request_timeout wn_start = (Inr SUCCESS, ?w)"
    by (simp add: chat_p2p_def wn_normal_def bob_read) (simp add: wn_start_def cs_Start_def recv_cap_def)
  have net: "chat_peer ref_codecs bob_svc wnHist wnRun (chat_p2p False ''alice'') (Peerid (eTo (mEnvelope msg_to_bob)))"
    using chat_net.chat_peer_axioms by simp
  from online_delivery [OF net wn_start_at _ bob_sizes ans, of "''h''"] show ?thesis
    by (auto simp: wn_request_def wn_enqueue_def Let_def wn_start_def cs_Start_def)
qed

section \<open>A request that times out\<close>

lemma quiet_not_raced: "svc_run A s es s' \<Longrightarrow> \<not> sRaced s \<Longrightarrow> \<forall>e\<in>set es. system_event e \<Longrightarrow> \<not> sRaced s'"
proof (induction rule: svc_run.induct)
  case (run_snoc s es s' e s'')
  then have "\<not> sRaced s'" "system_event e" by simp_all
  with run_snoc.hyps(2) show ?case by (induction rule: svc_step.induct) auto
qed

text \<open>
  Property C21: a message can arrive twice. When the recipient's channel is full, the request waits in its handler; if
  it times out at the sender, the sender stores the message in the mailbox as well and reports success. The
  recipient's service, without any further call, hands the waiting message to its handlers, and the
  recipient's next query of its mailbox shows it again.
\<close>

theorem timeout_delivers_twice:
  assumes box: "mailbox_client L ok view A srt fn us box dbs P alice"
    and peer: "chat_peer A c hist running P (Peerid (eTo (mEnvelope m)))"
    and ty: "eType (mEnvelope m) = NormalMsg" and fits: "length (Message_Bytes A m) \<le> MAX_PKG"
    and to: "Mailid (eTo (mEnvelope m)) = box" "box \<noteq> Peerid (eTo (mEnvelope m))" and mid: "eId (mEnvelope m) \<noteq> []"
    and timeout: "pRequest P (Peerid (eTo (mEnvelope m))) PID_NORMAL (Message_Bytes A m) request_timeout w = (Inl e, w1)"
    and at: "svc_run A (cs_Start c) (hist w1) (running w1)" "m \<in> set (sWaiting (running w1))" "ok (dbs w1)"
    and new: "csRecvMsgCh c = []" "\<not> csStop c" "distinct (map fst (csHandleMsgFn c))"
    and on: "CallStop \<notin> set (hist w1)" "CancelCtx \<notin> set (hist w1)" "\<not> sRaced (running w1)"
    and reg: "fid \<in> fst ` set (csHandleMsgFn c)" "Unregister fid \<notin> set (hist w1)"
  shows "\<exists>w'. SendMsg A P m w = (None, w') \<and>
    m \<in> set (Messages (doQueryMsg L A srt (LDBDatabase fn) (eTo (mEnvelope m)) (dbs w'))) \<and>
    (\<exists>es s'. svc_run A (running w') es s' \<and> (\<forall>e\<in>set es. system_event e) \<and> m \<in> set (calls_of fid s'))"
proof -
  have env: "mailbox_store L ok view A srt" using box by (simp add: mailbox_client_def)
  note put = mailbox_store.put_result [OF env at(3), of fn m]
  from mailbox_client.store_request [OF box at(3) fits, of request_timeout] ty obtain w' where
    w': "pRequest P box PID_MAILBOX (Message_Bytes A m) request_timeout w1 = (Inr SUCCESS, w')"
    "dbs w' = snd (putMsg L A (LDBDatabase fn) m (dbs w1))" by blast
  have send: "SendMsg A P m w = (None, w')"
    using ty timeout to(1) w'(1) by (simp add: SendMsg_def send_or_store_def)
  have "mbox_abs A (view (dbs w')) (Peerid (eTo (mEnvelope m))) (eId (mEnvelope m)) = Some m"
    by (simp add: w'(2) put(3) mbox_abs_def mailbox_store.decode_bytes [OF env])
  then have stored: "m \<in> set (Messages (doQueryMsg L A srt (LDBDatabase fn) (eTo (mEnvelope m)) (dbs w')))"
    using mid mailbox_store.query_set [OF env put(2)] w'(2) by auto
  from chat_peer.elsewhere [OF peer at(1) to(2) w'(1)] obtain es1 where
    q: "svc_run A (running w1) es1 (running w')" "\<forall>e\<in>set es1. system_event e" by blast
  have all: "svc_run A (cs_Start c) (hist w1 @ es1) (running w')" by (rule svc_run_append [OF q(1) at(1)])
  have evs: "Unregister fid \<notin> set (hist w1 @ es1)" "CallStop \<notin> set (hist w1 @ es1)" "CancelCtx \<notin> set (hist w1 @ es1)"
    using on reg(2) q(2) by auto
  have live: "\<not> sRaced (running w')" by (rule quiet_not_raced [OF q(1) on(3) q(2)])
  have "sLoop (running w') \<noteq> Exited"
    using not_exited [OF all] new(2) evs by (simp add: cs_Start_def done_closed_def)
  from drain_calls [OF all new(3) reg(1) new(1) evs(1) live this] obtain es' s' where
    s': "svc_run A (running w') es' s'" "\<forall>e\<in>set es'. system_event e"
    "calls_of fid s' = sAccepted (running w') @ sWaiting (running w')" by blast
  have "m \<in># in_hand (running w1)" using at(2) by (simp add: in_hand_def)
  then have "m \<in># in_hand (running w')" by (simp add: in_hand_run [OF q])
  then have "m \<in> set (calls_of fid s')" by (simp add: s'(3) in_hand_def)
  with send stored s' show ?thesis by blast
qed

theorem timeout_delivers_twice_witness:
  "\<exists>w' es s'. SendMsg ref_codecs (chat_p2p True ''alice'') msg_to_bob wn_start = (None, w') \<and>
    msg_to_bob \<in> set (Messages (doQueryMsg mem_leveldb ref_codecs (sort_key (\<lambda>m. eCt (mEnvelope m)))
      (LDBDatabase ''mb'') (eTo (mEnvelope msg_to_bob)) (wnDb w'))) \<and>
    svc_run ref_codecs (wnRun w') es s' \<and> msg_to_bob \<in> set (calls_of ''h'' s')"
proof -
  let ?w = "wn_request (Message_Bytes ref_codecs msg_to_bob) msg_to_bob wn_start"
  have slow: "pRequest (chat_p2p True ''alice'') (Peerid (eTo (mEnvelope msg_to_bob))) PID_NORMAL
      (Message_Bytes ref_codecs msg_to_bob) request_timeout wn_start = (Inl ''timeout'', ?w)"
    by (simp add: chat_p2p_def wn_normal_def bob_read) (simp add: wn_start_def cs_Start_def)
  have net: "chat_peer ref_codecs bob_svc wnHist wnRun (chat_p2p True ''alice'') (Peerid (eTo (mEnvelope msg_to_bob)))"
    using chat_net.chat_peer_axioms by simp
  have "svc_step ref_codecs (wnRun wn_start) (Request (Message_Bytes ref_codecs msg_to_bob)) (wnRun ?w)"
    by (rule wn_steps(1) [OF _ bob_read]) (simp add: wn_start_def cs_Start_def)
  from svc_run.run_snoc [OF wn_start_at this]
  have at: "svc_run ref_codecs (cs_Start bob_svc) (wnHist ?w) (wnRun ?w)" by (simp add: wn_request_def)
  have waits: "msg_to_bob \<in> set (sWaiting (wnRun ?w))" by (simp add: wn_request_def)
  have facts: "eType (mEnvelope msg_to_bob) = NormalMsg" "Mailid (eTo (mEnvelope msg_to_bob)) = ref_box"
    "ref_box \<noteq> Peerid (eTo (mEnvelope msg_to_bob))" "eId (mEnvelope msg_to_bob) \<noteq> []" "mem_ok (wnDb ?w)"
    by (simp_all add: bob_facts(8) [symmetric] wn_request_def wn_start_def mem_ok_empty)
  have hist: "CallStop \<notin> set (wnHist ?w)" "CancelCtx \<notin> set (wnHist ?w)" "\<not> sRaced (wnRun ?w)"
    "Unregister ''h'' \<notin> set (wnHist ?w)"
    by (simp_all add: wn_request_def wn_start_def cs_Start_def)
  have reg: "distinct (map fst (csHandleMsgFn bob_svc))" "''h'' \<in> fst ` set (csHandleMsgFn bob_svc)" by simp_all
  note two = timeout_delivers_twice [OF chat_box.mailbox_client_axioms net facts(1) bob_sizes facts(2-4) slow at waits facts(5)
      bob_svc_sel(1,2) reg(1) hist(1-3) reg(2) hist(4)]
  from two obtain w' where
    "SendMsg ref_codecs (chat_p2p True ''alice'') msg_to_bob wn_start = (None, w')"
    "msg_to_bob \<in> set (Messages (doQueryMsg mem_leveldb ref_codecs (sort_key (\<lambda>m. eCt (mEnvelope m)))
      (LDBDatabase ''mb'') (eTo (mEnvelope msg_to_bob)) (wnDb w')))"
    "\<exists>es s'. svc_run ref_codecs (wnRun w') es s' \<and> (\<forall>e\<in>set es. system_event e) \<and> msg_to_bob \<in> set (calls_of ''h'' s')"
    by (elim exE conjE) (rule that; blast)
  then show ?thesis by blast
qed

end
