(* ===== verification/EndToEnd.thy ===== *)
theory EndToEnd
  imports ConsoleProps Delivery
begin

text \<open>
  From one console to another: a line typed in a session, the request it becomes, the gateway that sends it as a
  message, the recipient's service or, when the recipient is away, its mailbox, the session of the recipient's
  gateway, and the read loop of the console there.
\<close>

section \<open>The message of a line\<close>

definition typed_msg :: "tick \<Rightarrow> ('h, 'd, 'w) gateway \<Rightarrow> JID \<Rightarrow> string \<Rightarrow> Message" where
  "typed_msg tk s t cmd = NewNormalMessage (tkUuid tk) (tkUnix tk) (csMyid (gwChat s)) t (trim_char (CHR '' '') cmd) []"

lemma typed_msg_sel:
  "t \<noteq> [] \<Longrightarrow> eTo (mEnvelope (typed_msg tk s t cmd)) = t"
  "eType (mEnvelope (typed_msg tk s t cmd)) = NormalMsg" "eId (mEnvelope (typed_msg tk s t cmd)) = tkUuid tk"
  "pContent (mPayload (typed_msg tk s t cmd)) = trim_char (CHR '' '') cmd"
  by (simp_all add: typed_msg_def NewNormalMessage_def newMessage_def Let_def zero_Envelope_def)

text \<open>
  A line that can be sent in a session with \<open>t\<close>: it is no command, the token is known, its words
  with \<open>t\<close> are no JSON object, and its request survives the encoding.
\<close>

definition sendable :: "('d, 'w) libs \<Rightarrow> ('h, 'd, 'w) gateway \<Rightarrow> string \<Rightarrow> string \<Rightarrow> string \<Rightarrow> string \<Rightarrow> bool" where
  "sendable lb s uuid token t cmd \<longleftrightarrow> t \<noteq> [] \<and> plain_line cmd \<and> 0 < token_time s token \<and>
    (\<exists>e. jsMap (libJson lb) (join_with '' '' (t # line_words cmd)) = Inl e) \<and>
    Req_FromBytes (libJson lb) (Req_WriteTo (libJson lb) (text_req uuid token t cmd)) zero_Req = text_req uuid token t cmd"

lemma sendable_sent:
  assumes "sendable lb s uuid token t cmd" and "SendMsg (libA lb) (libP2p lb) (typed_msg tk s t cmd) (gwWorld s) = (None, w)"
  shows "\<exists>ws. run_line (libJson lb) uuid token t cmd = Spawn ws \<and>
    http_rpc lb tk (Some (Req_WriteTo (libJson lb) (send_req (libJson lb) uuid token t ws))) s =
      (Some (Rsp_WriteTo (libJson lb) (NewRsp uuid (RStr ''success'') None)), s\<lparr>gwWorld := w\<rparr>)"
  using assms typed_text_sent [of t cmd s token lb _ uuid tk w] unfolding sendable_def typed_msg_def by blast

text \<open>What a login and the opening of a session need of the encodings.\<close>

definition login_coded :: "('d, 'w) libs \<Rightarrow> (nat \<Rightarrow> string) \<Rightarrow> string \<Rightarrow> string \<Rightarrow> string \<Rightarrow> bool" where
  "login_coded lb us token pwd tkn \<longleftrightarrow>
    (\<exists>e. jsMap (libJson lb) pwd = Inl e) \<and>
    Req_FromBytes (libJson lb) (Req_WriteTo (libJson lb) (NewReq (libJson lb) (us 0) token ''auth'' [XStr pwd])) zero_Req =
      NewReq (libJson lb) (us 0) token ''auth'' [XStr pwd] \<and>
    Req_FromBytes (libJson lb) (Req_WriteTo (libJson lb) (open_req lb (us 1) tkn)) zero_Req = open_req lb (us 1) tkn \<and>
    jsRsp (libJson lb) (Rsp_WriteTo (libJson lb) (NewRsp (us 0) (RStr tkn) None)) zero_Rsp =
      (None, NewRsp (us 0) (RVal (XStr tkn)) None)"

section \<open>A line for the witnesses\<close>

definition hi_msg :: Message where
  "hi_msg = NewNormalMessage ''u'' 7 bob_jid bob_jid ''hi  there'' []"

lemma hi_trim: "trim_char (CHR '' '') '' hi  there '' = ''hi  there''"
  by (simp add: trim_char_def)

lemma hi_typed: "csMyid (gwChat s) = bob_jid \<Longrightarrow> typed_msg ref_tick s bob_jid '' hi  there '' = hi_msg"
  by (simp add: typed_msg_def hi_msg_def hi_trim) (simp add: ref_tick_def)

lemma hi_sel [simp]: "eTo (mEnvelope hi_msg) = bob_jid" "eId (mEnvelope hi_msg) = ''u''"
  using demo_user_sel(2) by (simp_all add: hi_msg_def NewNormalMessage_def newMessage_def Let_def zero_Envelope_def)

lemma hi_size: "length (Message_Bytes ref_codecs hi_msg) \<le> MAX_PKG"
  by (simp add: hi_msg_def Message_Bytes_def encoded_def ref_codecs_def field_codec_def Let_def msg_to_def env_to_def
      NewNormalMessage_def newMessage_def zero_Envelope_def length_pack int_str_def NormalMsg_def NoACK_def MAX_PKG_def)

lemma hi_json: "Message_FromJson ref_codecs (Message_Json ref_codecs m) zero_Message = (m, None)"
  by (simp add: Message_FromJson_def Message_Json_def ref_codecs_def field_codec_def Let_def msg_fields)

lemma hi_sendable:
  assumes "libJson lb = ref_json" and "0 < token_time s token"
  shows "sendable lb s ''u'' token bob_jid '' hi  there ''"
proof -
  have h: "hd bob_jid \<noteq> CHR ''{''" "bob_jid \<noteq> []"
    by (simp_all add: bob_jid_def NewJID_def peer_of_def numeral_eq_Suc)
  then have "\<exists>e. jsMap ref_json (join_with '' '' (bob_jid # line_words '' hi  there '')) = Inl e"
    by (simp add: ref_json_def hi_trim)
  with h assms ref_req_coded show ?thesis by (simp add: sendable_def plain_line_def hi_trim)
qed

section \<open>While the recipient is online\<close>

text \<open>
  Property C6: what is typed in a session reaches the console of a peer that is online. A session is open
  at the peer \<open>t\<close>, its handler \<open>conn\<close> registered with the peer's running service under \<open>fid\<close>. A line is typed in a session with
  \<open>t\<close>, and the peer answers the request. Then the gateway answers with success, and the peer's service can go on by
  itself until the session's handler is started with a message whose content is the line without the spaces at its ends; the
  read loop of the console there prints this message for the frame that the handler writes.
\<close>

theorem typed_text_read_online:
  assumes line: "sendable lb s uuid token t cmd" and m: "m = typed_msg tk s t cmd"
    and net: "chat_peer (libA lb) c hist running (libP2p lb) (Peerid t)"
    and at: "svc_run (libA lb) (cs_Start c) (hist (gwWorld s)) (running (gwWorld s))"
    and fits: "length (Message_Bytes (libA lb) m) \<le> MAX_PKG"
    and ans: "pRequest (libP2p lb) (Peerid t) PID_NORMAL (Message_Bytes (libA lb) m) request_timeout (gwWorld s) = (Inr reply, w')"
    and new: "csRecvMsgCh c = []" "\<not> csStop c" "distinct (map fst (csHandleMsgFn c))"
    and sess: "hist (gwWorld s) = es1 @ Register fid conn # es2" "fid \<notin> fst ` set (csHandleMsgFn c)"
      "\<forall>fn. Register fid fn \<notin> set es1" "Unregister fid \<notin> set (hist w')"
    and on: "CallStop \<notin> set (hist w')" "CancelCtx \<notin> set (hist w')" "\<not> sRaced (running w')"
    and json: "Message_FromJson (libA lb) (Message_Json (libA lb) m) zero_Message = (m, None)"
  shows "\<exists>ws es s'. run_line (libJson lb) uuid token t cmd = Spawn ws \<and>
    http_rpc lb tk (Some (Req_WriteTo (libJson lb) (send_req (libJson lb) uuid token t ws))) s =
      (Some (Rsp_WriteTo (libJson lb) (NewRsp uuid (RStr ''success'') None)), s\<lparr>gwWorld := w'\<rparr>) \<and>
    svc_run (libA lb) (running w') es s' \<and> (\<forall>e\<in>set es. system_event e) \<and> m \<in> set (calls_of fid s') \<and>
    read_loop (libA lb) [Some (Message_Json (libA lb) m)] = [(m, None)] \<and>
    pContent (mPayload m) = trim_char (CHR '' '') cmd"
proof -
  have t: "t \<noteq> []" using line by (simp add: sendable_def)
  have amino: "amino_laws (libA lb)" using net by (simp add: chat_peer_def)
  have to: "eTo (mEnvelope m) = t" "eType (mEnvelope m) = NormalMsg" using typed_msg_sel t m by auto
  have "SendMsg (libA lb) (libP2p lb) m (gwWorld s) = (None, w')"
    using ans to by (simp add: SendMsg_def send_or_store_def)
  from sendable_sent [OF line this [unfolded m]] obtain ws where
    ws: "run_line (libJson lb) uuid token t cmd = Spawn ws"
    "http_rpc lb tk (Some (Req_WriteTo (libJson lb) (send_req (libJson lb) uuid token t ws))) s =
      (Some (Rsp_WriteTo (libJson lb) (NewRsp uuid (RStr ''success'') None)), s\<lparr>gwWorld := w'\<rparr>)" by blast
  from answered_enqueues [OF net at ans amino_laws.Message_read [OF amino fits] new(2) on(1,2)] obtain xs ys where
    all: "svc_run (libA lb) (cs_Start c) (hist w') (running w')" and h: "hist w' = hist (gwWorld s) @ xs @ Enqueue m # ys"
    by blast
  have run: "svc_run (libA lb) (cs_Start c) (es1 @ Register fid conn # (es2 @ xs) @ Enqueue m # ys) (running w')"
    using all h sess(1) by simp
  have "Unregister fid \<notin> set ((es2 @ xs) @ Enqueue m # ys)" using sess(4) h sess(1) by auto
  moreover have "sLoop (running w') \<noteq> Exited"
    using not_exited [OF all] new(2) on by (simp add: cs_Start_def done_closed_def)
  ultimately obtain es s' where "svc_run (libA lb) (running w') es s'" "\<forall>e\<in>set es. system_event e" "m \<in> set (calls_of fid s')"
    using late_handler_gets [OF run new(1,3) sess(2,3) _ on(3)] by blast
  moreover have "pContent (mPayload m) = trim_char (CHR '' '') cmd" by (simp add: m typed_msg_sel(4))
  ultimately show ?thesis using ws json by (intro exI conjI) simp_all
qed

definition wn_libs :: "(mem, wnet) libs" where
  "wn_libs = \<lparr>libL = mem_leveldb, libA = ref_codecs, libUser = ref_user, libJson = ref_json,
     libP2p = chat_p2p False ''me'', libSha1 = rev, libOrder = (\<lambda>ks. ks)\<rparr>"

definition wn_session :: wnet where
  "wn_session = \<lparr>wnDb = [], wnRun = (cs_Start bob_svc)\<lparr>sSvc := snd (AppendHandleMsg ''f'' () bob_svc)\<rparr>,
     wnHist = [Register ''f'' ()]\<rparr>"

definition wn_gw :: "(unit, mem, wnet) gateway" where
  "wn_gw = \<lparr>gwChat = bob_svc, gwPwd = ''pw'', gwPort = 9990, gwTokens = [''tok'' \<mapsto> 7],
     gwServices = gwServices ref_gw, gwUserdb = [], gwGroupdb = [], gwWorld = wn_session\<rparr>"

lemma wn_libs_sel [simp]: "libA wn_libs = ref_codecs" "libJson wn_libs = ref_json" "libP2p wn_libs = chat_p2p False ''me''"
  by (simp_all add: wn_libs_def)

lemma wn_gw_sel [simp]: "gwWorld wn_gw = wn_session" "csMyid (gwChat wn_gw) = bob_jid" "0 < token_time wn_gw ''tok''"
  by (simp_all add: wn_gw_def token_time_def)

lemma wn_session_at: "svc_run ref_codecs (cs_Start bob_svc) (wnHist wn_session) (wnRun wn_session)"
proof -
  have "svc_step ref_codecs (cs_Start bob_svc) (Register ''f'' ()) (wnRun wn_session)"
    by (simp add: wn_session_def svc_step_simps cs_Start_def iterating_def)
  from svc_run_cons [OF this svc_run.run_nil] show ?thesis by (simp add: wn_session_def)
qed

theorem typed_text_read_online_witness:
  "\<exists>ws w' es s'. run_line ref_json ''u'' ''tok'' bob_jid '' hi  there '' = Spawn ws \<and>
    http_rpc wn_libs ref_tick (Some (Req_WriteTo ref_json (send_req ref_json ''u'' ''tok'' bob_jid ws))) wn_gw =
      (Some (Rsp_WriteTo ref_json (NewRsp ''u'' (RStr ''success'') None)), wn_gw\<lparr>gwWorld := w'\<rparr>) \<and>
    svc_run ref_codecs (wnRun w') es s' \<and> hi_msg \<in> set (calls_of ''f'' s')"
proof -
  let ?w = "wn_enqueue hi_msg (wn_request (Message_Bytes ref_codecs hi_msg) hi_msg wn_session)"
  have read: "Message_FromReader ref_codecs (Message_Bytes ref_codecs hi_msg) zero_Message = (hi_msg, None)"
    by (rule refc.Message_read [OF hi_size])
  have ans: "pRequest (libP2p wn_libs) (Peerid bob_jid) PID_NORMAL (Message_Bytes (libA wn_libs) hi_msg) request_timeout
      (gwWorld wn_gw) = (Inr SUCCESS, ?w)"
    by (simp add: chat_p2p_def wn_normal_def read)
      (simp add: wn_session_def cs_Start_def recv_cap_def AppendHandleMsg_def Let_def)
  have net: "chat_peer (libA wn_libs) bob_svc wnHist wnRun (libP2p wn_libs) (Peerid bob_jid)"
    using chat_net.chat_peer_axioms by simp
  have line: "sendable wn_libs wn_gw ''u'' ''tok'' bob_jid '' hi  there ''" by (simp add: hi_sendable)
  have m: "hi_msg = typed_msg ref_tick wn_gw bob_jid '' hi  there ''" by (simp add: hi_typed)
  have at: "svc_run (libA wn_libs) (cs_Start bob_svc) (wnHist (gwWorld wn_gw)) (wnRun (gwWorld wn_gw))"
    using wn_session_at by simp
  have w: "wnHist ?w = [Register ''f'' (), Request (Message_Bytes ref_codecs hi_msg), Enqueue hi_msg]"
      "\<not> sRaced (wnRun ?w)" "wnHist wn_session = [Register ''f'' ()]"
    by (simp_all add: wn_session_def wn_request_def wn_enqueue_def Let_def cs_Start_def)
  from typed_text_read_online [OF line m net at _ ans, of "[]" "''f''" "()" "[]"] show ?thesis
    unfolding wn_gw_sel by (simp add: hi_size hi_json w del: gateway.simps) blast
qed

section \<open>While the recipient is away\<close>

text \<open>
  Property C1: what is typed in a session with a peer that is away is printed when the peer's console attaches. The
  mailbox has served any requests whose JIDs have full length since its database was empty. A line is typed
  in a session with \<open>t\<close>, which cannot be reached; the gateway answers with success. When then a console logs in to the gateway
  of \<open>t\<close> with the right password, its read loop prints a message whose content is the line without the spaces at its
  ends, and the mailbox of \<open>t\<close> is empty.
\<close>

theorem typed_text_read_offline:
  assumes line: "sendable lb s uuid token t cmd" and m: "m = typed_msg tk s t cmd" and mid: "tkUuid tk \<noteq> []"
    and alice: "mailbox_client L ok view (libA lb) srt fn uu box dbs (libP2p lb) alice"
    and bob: "mailbox_client L ok view (libA lb) srt fn uu box dbs (libP2p lb') bob" and same: "libA lb' = libA lb"
    and start: "ok d0" "view d0 = Map.empty"
      "node_run L (libA lb) srt (node_of box fn) rs d0 = Some (dbs (gwWorld s))" "\<forall>r\<in>set rs. full_request (libA lb) r"
    and t: "t = csMyid (gwChat sb)" "53 \<le> length t" "\<not> prefix ''GROUP'' t" "Mailid t = box"
    and off: "pRequest (libP2p lb) (Peerid t) PID_NORMAL (Message_Bytes (libA lb) m) request_timeout (gwWorld s) = (Inl e, w1)"
      "dbs w1 = dbs (gwWorld s)"
    and ms: "ms = Messages (doQueryMsg L (libA lb) srt (LDBDatabase fn) t
      (snd (putMsg L (libA lb) (LDBDatabase fn) m (dbs (gwWorld s)))))"
    and fits: "length (Message_Bytes (libA lb) m) \<le> MAX_PKG" "length (encoded (cJID (libA lb)) t) \<le> 128"
      "length (encoded (cClean (libA lb)) \<lparr>cJid = t, cIds = map (\<lambda>m. eId (mEnvelope m)) ms\<rparr>) \<le> 2 * 1024 * 1024"
    and login: "gwPwd sb = pwd" "tkn = new_token lb' pwd tk1" "tkn \<noteq> []" "login_coded lb' us old pwd tkn"
    and json: "\<forall>x\<in>set (hello tk2 # ms). Message_FromJson (libA lb) (Message_Json (libA lb) x) zero_Message = (x, None)"
  shows "\<exists>ws w frames sb'. run_line (libJson lb) uuid token t cmd = Spawn ws \<and>
    http_rpc lb tk (Some (Req_WriteTo (libJson lb) (send_req (libJson lb) uuid token t ws))) s =
      (Some (Rsp_WriteTo (libJson lb) (NewRsp uuid (RStr ''success'') None)), s\<lparr>gwWorld := w\<rparr>) \<and>
    AttachCmd (libJson lb') (gw_post lb' tk1 port) (gw_dial lb' tk2 fid conn port) port us old pwd (sb\<lparr>gwWorld := w\<rparr>) =
      (Some (Inr (rwLoop tkn sb')), sb') \<and>
    ws_open lb' tk2 fid conn (Some (Req_WriteTo (libJson lb') (open_req lb' (us 1) tkn)))
      (sb\<lparr>gwWorld := w, gwTokens := (gwTokens sb)(tkn \<mapsto> tkUnix tk1)\<rparr>) = (frames, Some fid, sb') \<and>
    (m, None) \<in> set (read_loop (libA lb) (map Some frames)) \<and> pContent (mPayload m) = trim_char (CHR '' '') cmd \<and>
    Messages (doQueryMsg L (libA lb) srt (LDBDatabase fn) t (dbs (gwWorld sb'))) = []"
proof -
  let ?d = "snd (putMsg L (libA lb) (LDBDatabase fn) m (dbs (gwWorld s)))"
  have env: "mailbox_store L ok view (libA lb) srt" using alice by (simp add: mailbox_client_def)
  have tne: "t \<noteq> []" using t(2) by auto
  have to: "eTo (mEnvelope m) = t" "eType (mEnvelope m) = NormalMsg" "eId (mEnvelope m) \<noteq> []"
    "pContent (mPayload m) = trim_char (CHR '' '') cmd"
    by (simp_all add: m typed_msg_sel tne mid)
  have ok: "ok (dbs (gwWorld s))"
    using mailbox_store.node_run_refines [OF env start(1,3,4), of "mbox_abs (libA lb) (view d0)"]
    by (simp add: mail_rel_def)
  have old: "eId (mEnvelope m') = i" if "mbox_abs (libA lb) (view (dbs (gwWorld s))) (Peerid t) i = Some m'" for i m'
    using mailbox_store.run_keyed [OF env start full_peer_id [OF t(2,3)] that] by simp
  have keyed: "eId (mEnvelope m') = i" if "mbox_abs (libA lb) (view ?d) (Peerid t) i = Some m'" for i m'
    by (rule put_keyed [OF env ok _ old _ that]) (use t(2) to in \<open>simp_all add: length_Peerid\<close>)
  obtain w where w: "SendMsg (libA lb) (libP2p lb) m (gwWorld s) = (None, w)" "dbs w = ?d"
    using mailbox_client.send_offline [OF alice ok fits(1) to(2)] off t(4) to(1) by auto
  from sendable_sent [OF line w(1) [unfolded m]] obtain ws where
    ws: "run_line (libJson lb) uuid token t cmd = Spawn ws"
    "http_rpc lb tk (Some (Req_WriteTo (libJson lb) (send_req (libJson lb) uuid token t ws))) s =
      (Some (Rsp_WriteTo (libJson lb) (NewRsp uuid (RStr ''success'') None)), s\<lparr>gwWorld := w\<rparr>)" by blast
  obtain e' where coded: "jsMap (libJson lb') pwd = Inl e'"
    "Req_FromBytes (libJson lb') (Req_WriteTo (libJson lb') (NewReq (libJson lb') (us 0) old ''auth'' [XStr pwd])) zero_Req =
      NewReq (libJson lb') (us 0) old ''auth'' [XStr pwd]"
    "Req_FromBytes (libJson lb') (Req_WriteTo (libJson lb') (open_req lb' (us 1) tkn)) zero_Req = open_req lb' (us 1) tkn"
    "jsRsp (libJson lb') (Rsp_WriteTo (libJson lb') (NewRsp (us 0) (RStr tkn) None)) zero_Rsp =
      (None, NewRsp (us 0) (RVal (XStr tkn)) None)"
    using login(4) unfolding login_coded_def by blast
  let ?sb = "sb\<lparr>gwWorld := w\<rparr>"
  have sel: "gwWorld ?sb = w" "csMyid (gwChat ?sb) = t" "gwPwd ?sb = pwd" "gwTokens ?sb = gwTokens sb"
    using t(1) login(1) by simp_all
  have okd: "ok (dbs (gwWorld ?sb))" using mailbox_store.put_result(2) [OF env ok] w(2) by simp
  have found: "m \<in> set ms" using put_found [OF env ok to(3)] to(1) ms by simp
  have "\<exists>frames s'. ws_open lb' tk2 fid conn (Some (Req_WriteTo (libJson lb') (open_req lb' (us 1) tkn)))
        (?sb\<lparr>gwTokens := (gwTokens ?sb)(tkn \<mapsto> tkUnix tk1)\<rparr>) = (frames, Some fid, s') \<and>
    AttachCmd (libJson lb') (gw_post lb' tk1 port) (gw_dial lb' tk2 fid conn port) port us old pwd ?sb =
      (Some (Inr (rwLoop tkn s')), s') \<and>
    read_loop (libA lb') (map Some frames) = map (\<lambda>m. (m, None)) (hello tk2 # ms) \<and>
    gwTokens s' tkn = Some (tkUnix tk1) \<and> map_of (csHandleMsgFn (gwChat s')) fid = Some conn \<and>
    Messages (doQueryMsg L (libA lb') srt (LDBDatabase fn) (csMyid (gwChat ?sb)) (dbs (gwWorld s'))) = []"
    by (rule attach_result [OF bob [folded same]], unfold sel same w(2))
      (fact okd [unfolded sel w(2)] t(2,4) keyed ms fits(2,3) refl coded login(2,3) json)+
  then obtain frames s' where out: "ws_open lb' tk2 fid conn (Some (Req_WriteTo (libJson lb') (open_req lb' (us 1) tkn)))
        (?sb\<lparr>gwTokens := (gwTokens sb)(tkn \<mapsto> tkUnix tk1)\<rparr>) = (frames, Some fid, s')"
      "AttachCmd (libJson lb') (gw_post lb' tk1 port) (gw_dial lb' tk2 fid conn port) port us old pwd ?sb =
        (Some (Inr (rwLoop tkn s')), s')"
      "read_loop (libA lb) (map Some frames) = map (\<lambda>m. (m, None)) (hello tk2 # ms)"
      "Messages (doQueryMsg L (libA lb) srt (LDBDatabase fn) t (dbs (gwWorld s'))) = []"
    unfolding sel same by blast
  have "(m, None) \<in> set (read_loop (libA lb) (map Some frames))" using found out(3) by simp
  with ws out(1,2,4) to(4) show ?thesis by (intro exI conjI)
qed

text \<open>In the reference encodings a login with the password \<open>pw\<close> is coded well.\<close>

lemma ref_login_coded: "login_coded ref_libs us old ''pw'' tkn"
  unfolding login_coded_def
  by (simp add: open_req_def ref_json_def NewReq_def adapt_def Req_FromBytes_def Req_WriteTo_def Req_Bytes_def
      Rsp_WriteTo_def Rsp_Bytes_def NewRsp_def zero_Rsp_def del: pack.simps)

lemma ref_token_ne: "new_token ref_libs ''pw'' tk \<noteq> []"
proof
  assume "new_token ref_libs ''pw'' tk = []"
  then have "length (new_token ref_libs ''pw'' tk) = 0" by simp
  then show False by (simp add: new_token_def length_hex_encode ref_libs_def)
qed

theorem typed_text_read_offline_witness:
  "\<exists>ws w frames sb. run_line ref_json ''u'' ''tok'' bob_jid '' hi  there '' = Spawn ws \<and>
    http_rpc ref_libs ref_tick (Some (Req_WriteTo ref_json (send_req ref_json ''u'' ''tok'' bob_jid ws))) ref_gw_in =
      (Some (Rsp_WriteTo ref_json (NewRsp ''u'' (RStr ''success'') None)), ref_gw_in\<lparr>gwWorld := w\<rparr>) \<and>
    AttachCmd ref_json (gw_post ref_libs ref_tick 9990) (gw_dial ref_libs ref_tick ''f'' () 9990) 9990
      (\<lambda>n. ''u'') [] ''pw'' (ref_gw\<lparr>gwWorld := w\<rparr>) = (Some (Inr (rwLoop (new_token ref_libs ''pw'' ref_tick) sb)), sb) \<and>
    (hi_msg, None) \<in> set (read_loop ref_codecs (map Some frames)) \<and> pContent (mPayload hi_msg) = ''hi  there''"
proof -
  let ?srt = "sort_key (\<lambda>m. eCt (mEnvelope m)) :: Message list \<Rightarrow> Message list" and ?tkn = "new_token ref_libs ''pw'' ref_tick"
  have line: "sendable ref_libs ref_gw_in ''u'' ''tok'' bob_jid '' hi  there ''" by (simp add: hi_sendable)
  have m: "hi_msg = typed_msg ref_tick ref_gw_in bob_jid '' hi  there ''" by (simp add: hi_typed)
  have mid: "tkUuid ref_tick \<noteq> []" by (simp add: ref_tick_def)
  have off: "pRequest (libP2p ref_libs) (Peerid bob_jid) PID_NORMAL (Message_Bytes (libA ref_libs) hi_msg) request_timeout
      (gwWorld ref_gw_in) = (Inl ''dial failed'', [])"
    by (simp add: ref_p2p_def)
  have run: "node_run mem_leveldb (libA ref_libs) ?srt (node_of ref_box ''mb'') [] [] = Some (gwWorld ref_gw_in)" by simp
  have jid: "bob_jid = csMyid (gwChat ref_gw)" "\<not> prefix ''GROUP'' bob_jid" by (simp_all add: bob_jid_def NewJID_def peer_of_def numeral_eq_Suc)
  have ms: "[hi_msg] = Messages (doQueryMsg mem_leveldb (libA ref_libs) ?srt (LDBDatabase ''mb'') bob_jid
      (snd (putMsg mem_leveldb (libA ref_libs) (LDBDatabase ''mb'') hi_msg (gwWorld ref_gw_in))))"
    using ref_query_one [of hi_msg "''mb''"] by simp
  have sizes: "length (Message_Bytes (libA ref_libs) hi_msg) \<le> MAX_PKG" "length (encoded (cJID (libA ref_libs)) bob_jid) \<le> 128"
    "length (encoded (cClean (libA ref_libs)) \<lparr>cJid = bob_jid, cIds = map (\<lambda>m. eId (mEnvelope m)) [hi_msg]\<rparr>) \<le> 2 * 1024 * 1024"
    using hi_size by (simp_all add: clean_size) (simp add: encoded_def ref_codecs_def plain_codec_def)
  have json: "\<forall>x\<in>set (hello ref_tick # [hi_msg]). Message_FromJson (libA ref_libs) (Message_Json (libA ref_libs) x) zero_Message = (x, None)"
    by (simp add: hi_json)
  from typed_text_read_offline [OF line m mid ref_libs_client ref_libs_client refl mem_ok_empty _ run _ jid(1) _ jid(2) _ off _ ms
      sizes _ refl ref_token_ne [of ref_tick] ref_login_coded json,
      where fid = "''f''" and conn = "()" and port = 9990 and us = "\<lambda>n. ''u''" and old = "[]"]
  show ?thesis by (simp add: hi_trim del: pack.simps) blast
qed

end
