(* ===== verification/Startup.thy ===== *)
theory Startup
  imports EndToEnd
begin

text \<open>
  How the program achat comes up (main.go): what it logs while it starts, and its subcommands, as compositions of starting
  a node and attaching a console. The library for the flags is outside the model; a subcommand gets the flags as it left them.
\<close>

section \<open>What is logged\<close>

text \<open>
  \<open>strings.TrimSpace\<close> on bytes: the white space of Unicode in UTF-8, one character at a time from each end.
\<close>

definition space_chars :: "bytes list" where
  "space_chars = map (\<lambda>n. [char_of (n :: nat)]) [0x09, 0x0A, 0x0B, 0x0C, 0x0D, 0x20] @
     map (map (char_of :: nat \<Rightarrow> char))
       ([[0xC2, 0x85], [0xC2, 0xA0], [0xE1, 0x9A, 0x80], [0xE2, 0x80, 0xA8], [0xE2, 0x80, 0xA9], [0xE2, 0x80, 0xAF],
         [0xE2, 0x81, 0x9F], [0xE3, 0x80, 0x80]] @ map (\<lambda>n. [0xE2, 0x80, n]) [0x80..<0x8B])"

definition strip_one :: "bytes list \<Rightarrow> bytes \<Rightarrow> bytes" where
  "strip_one ps s = (case List.find (\<lambda>p. prefix p s) ps of None \<Rightarrow> s | Some p \<Rightarrow> drop (length p) s)"

definition strip_front :: "bytes list \<Rightarrow> bytes \<Rightarrow> bytes" where
  "strip_front ps s = (strip_one ps ^^ length s) s"

definition TrimSpace :: "string \<Rightarrow> string" where
  "TrimSpace s = rev (strip_front (map rev space_chars) (rev (strip_front space_chars s)))"

text \<open>The lines of \<open>logStrings\<close> and \<open>logMultiaddrs\<close>; an address is what its \<open>String\<close> yields, \<open>None\<close> a nil one.\<close>

definition count_line :: "string \<Rightarrow> nat \<Rightarrow> string" where
  "count_line label n = ''achat: '' @ label @ ''.count='' @ nat_text n"

definition item_line :: "string \<Rightarrow> nat \<Rightarrow> string \<Rightarrow> string" where
  "item_line label i s = ''achat: '' @ label @ ''['' @ nat_text i @ '']='' @ s"

definition logStrings :: "string \<Rightarrow> string list \<Rightarrow> string list" where
  "logStrings label ss =
    (if length ss = 0 then [count_line label 0]
     else count_line label (length ss) #
       concat (map (\<lambda>(i, s). let s = TrimSpace s in if s = [] then [] else [item_line label i s])
         (enumerate 0 ss)))"

definition logMultiaddrs :: "string \<Rightarrow> string option list \<Rightarrow> string list" where
  "logMultiaddrs label addrs =
    (if length addrs = 0 then [count_line label 0]
     else count_line label (length addrs) #
       concat (map (\<lambda>(i, a). case a of None \<Rightarrow> [] | Some t \<Rightarrow> [item_line label i t]) (enumerate 0 addrs)))"

definition bool_text :: "bool \<Rightarrow> string" where
  "bool_text b = (if b then ''true'' else ''false'')"

text \<open>
  What \<open>achat\<close> logs on the way to the gateway: \<open>cfg\<close> is the configuration it starts from, \<open>lis\<close> and \<open>addrs\<close> are the addresses of
  the host it started.
\<close>

definition achat_log ::
    "(bytes \<Rightarrow> bytes) \<Rightarrow> flags \<Rightarrow> Config \<Rightarrow> string option list \<Rightarrow> string option list \<Rightarrow> string \<Rightarrow> string list" where
  "achat_log sha256 f cfg lis addrs myid =
    [''achat: cfg homedir='' @ flHomedir f @ '' port='' @ int_text (flPort f) @ '' rpcport='' @ int_text (flRpcport f) @
       '' networkid='' @ int_text (cfgNetworkid cfg) @ '' psk_fp='' @ pskFingerprint sha256 (Some (cfgNetworkid cfg)) @
       '' discover='' @ bool_text (cfgDiscover cfg) @ '' relay='' @ bool_text (cfgRelay cfg) @
       '' nodiscover='' @ bool_text (flNodiscover f)] @
    (if flBootnodes f \<noteq> [] then [''achat: flag.bootnodes='' @ flBootnodes f] else []) @
    (if flNodiscover f then [''achat: nodiscover=true; clearing bootnodes''] else []) @
    logStrings ''cfg.bootnodes'' (cfgBootnodes cfg) @
    logMultiaddrs ''host.listen_addrs'' lis @
    logMultiaddrs ''host.addrs'' addrs @
    [''>> Action on port = '' @ int_text (flPort f), ''>> myid = '' @ myid]"

section \<open>The subcommands\<close>

text \<open>\<open>attach\<close>: no token is known yet; the password and the port of the gateway are flags.\<close>

definition attach_command ::
    "json_lib \<Rightarrow> (string \<Rightarrow> bytes \<Rightarrow> 'n \<Rightarrow> (err + bytes) \<times> 'n) \<Rightarrow> (string \<Rightarrow> bytes \<Rightarrow> 'n \<Rightarrow> 'n option) \<Rightarrow>
     (nat \<Rightarrow> string) \<Rightarrow> flags \<Rightarrow> 'n \<Rightarrow> (err + 'n console) option \<times> 'n" where
  "attach_command J post dial us f n = AttachCmd J post dial (flRpcport f) us [] (flPwd f) n"

text \<open>
  \<open>console\<close>: a goroutine starts the node, and two seconds later the console attaches to port \<open>rpcport\<close>. \<open>late\<close>
  says how the race comes out: \<open>None\<close>, the node serves or has panicked by then; \<open>Some e\<close>, it does not serve yet,
  and the request of the login fails with \<open>e\<close>. In the result, \<open>None\<close> is a panic, \<open>Inl\<close> an error, which ends the program
  with the node in it; \<open>Inr\<close> has the running service, its mailbox's database and the console, whose world is the gateway.
\<close>

definition console_banner :: "flags \<Rightarrow> string list" where
  "console_banner f = [''rpcport '' @ int_text (flRpcport f), ''homedir '' @ flHomedir f]"

definition console_command ::
    "('d, 'w) libs \<Rightarrow> (Config \<Rightarrow> 'w) \<Rightarrow> (string \<Rightarrow> ldb_options \<Rightarrow> err + 'd) \<Rightarrow> string \<Rightarrow> 'h \<Rightarrow>
     tick \<Rightarrow> tick \<Rightarrow> string \<Rightarrow> 'h \<Rightarrow> (nat \<Rightarrow> string) \<Rightarrow> err option \<Rightarrow> flags \<Rightarrow>
     (err + 'h running \<times> 'd \<times> ('h, 'd, 'w) gateway console) option" where
  "console_command lb newService openFile uuid lg tk1 tk2 fid conn us late f =
    (case late of
       Some e \<Rightarrow>
         (case attach_command (libJson lb) (\<lambda>url b n. (Inl e, n)) (\<lambda>url b n. None) us f () of
            (Some (Inl err), _) \<Rightarrow> Some (Inl err)
          | _ \<Rightarrow> None)
     | None \<Rightarrow>
         (case achat newService (libP2p lb) openFile uuid lg f of
            None \<Rightarrow> None
          | Some (r, d, gw) \<Rightarrow>
              (case attach_command (libJson lb) (gw_post lb tk1 (gwPort gw)) (gw_dial lb tk2 fid conn (gwPort gw)) us f gw of
                 (None, _) \<Rightarrow> None
               | (Some (Inl err), _) \<Rightarrow> Some (Inl err)
               | (Some (Inr con), _) \<Rightarrow> Some (Inr (r, d, con)))))"

definition bootnode_command ::
    "(Config \<Rightarrow> 'w) \<Rightarrow> 'w p2p \<Rightarrow> (string \<Rightarrow> ldb_options \<Rightarrow> err + 'd) \<Rightarrow> string \<Rightarrow> 'h \<Rightarrow> flags \<Rightarrow>
     ('h running \<times> 'd \<times> ('h, 'd, 'w) gateway) option" where
  "bootnode_command newService P openFile uuid lg f = achat newService P openFile uuid lg (bootnode_flags f)"

text \<open>The argument of \<open>os.Exit\<close>, or zero when \<open>main\<close> returns.\<close>

definition exit_code :: "err option \<Rightarrow> int" where
  "exit_code r = (case r of Some err \<Rightarrow> -1 | None \<Rightarrow> 0)"

section \<open>Lemmas on the log\<close>

lemma logStrings_bounds: "length (logStrings label ss) \<le> Suc (length ss)"
  and logMultiaddrs_bounds: "length (logMultiaddrs label as) \<le> Suc (length as)"
proof -
  have "length (concat (map (\<lambda>(i, s). let s = TrimSpace s in if s = [] then [] else [item_line label i s]) (enumerate n ss))) \<le> length ss" for n
    by (induction ss arbitrary: n) (simp_all add: Let_def le_SucI)
  then show "length (logStrings label ss) \<le> Suc (length ss)" by (simp add: logStrings_def)
  have "length (concat (map (\<lambda>(i, a). case a of None \<Rightarrow> [] | Some t \<Rightarrow> [item_line label i t]) (enumerate n as))) \<le> length as" for n
    by (induction as arbitrary: n) (simp_all add: le_SucI split: option.split)
  then show "length (logMultiaddrs label as) \<le> Suc (length as)" by (simp add: logMultiaddrs_def)
qed

text \<open>The log does not depend on the password or the mailbox.\<close>

lemma log_keeps_password: "achat_log sha256 (f\<lparr>flPwd := p, flMailbox := mb\<rparr>) cfg lis addrs myid = achat_log sha256 f cfg lis addrs myid"
  by (simp add: achat_log_def)

section \<open>The subcommand console\<close>

lemma achat_starts:
  assumes "flHomedir f \<noteq> []" and "\<forall>fn opts. \<exists>d. openFile fn opts = Inr d"
  shows "\<exists>r d gw. achat newService P openFile uuid lg f = Some (r, d, gw) \<and> gwPort gw = flRpcport f \<and>
    gwPwd gw = flPwd f \<and> gwTokens gw = Map.empty \<and> csHandleMsgFn (gwChat gw) = [(uuid, lg)]"
proof -
  from assms(2) obtain dat where "\<forall>fn opts. openFile fn opts = Inr (dat fn opts)" by metis
  then show ?thesis
    using assms(1)
    by (simp add: achat_def achat_config_def Let_def NewChatService_def newMailbox_def NewLDBDatabase_def StartRPC_def
        NewUserService_def NewGroupService_def AppendHandleMsg_def)
qed

lemma attach_registers:
  assumes pwd: "gwPwd s = pwd" and tkn: "tkn = new_token lb pwd tk" "tkn \<noteq> []" and coded: "login_coded lb us token pwd tkn"
  shows "\<exists>s'. AttachCmd (libJson lb) (gw_post lb tk port) (gw_dial lb tk' fid conn port) port us token pwd s =
      (Some (Inr (rwLoop tkn s')), s') \<and> gwTokens s' = (gwTokens s)(tkn \<mapsto> tkUnix tk) \<and>
    csHandleMsgFn (gwChat s') = AList.update fid conn (csHandleMsgFn (gwChat s))"
proof -
  let ?s = "s\<lparr>gwTokens := (gwTokens s)(tkn \<mapsto> tkUnix tk)\<rparr>"
  let ?s' = "snd (snd (ws_open lb tk' fid conn (Some (Req_WriteTo (libJson lb) (open_req lb (us 1) tkn))) ?s))"
  obtain e where c: "jsMap (libJson lb) pwd = Inl e"
    "Req_FromBytes (libJson lb) (Req_WriteTo (libJson lb) (NewReq (libJson lb) (us 0) token ''auth'' [XStr pwd])) zero_Req =
      NewReq (libJson lb) (us 0) token ''auth'' [XStr pwd]"
    "Req_FromBytes (libJson lb) (Req_WriteTo (libJson lb) (open_req lb (us 1) tkn)) zero_Req = open_req lb (us 1) tkn"
    "jsRsp (libJson lb) (Rsp_WriteTo (libJson lb) (NewRsp (us 0) (RStr tkn) None)) zero_Rsp =
      (None, NewRsp (us 0) (RVal (XStr tkn)) None)"
    using coded unfolding login_coded_def by blast
  have "auth (libJson lb) (gw_post lb tk port) port (us 0) token pwd s = (Some (Inr tkn), ?s)"
    by (rule login_ok [OF pwd c(1,2,4) tkn])
  then have "AttachCmd (libJson lb) (gw_post lb tk port) (gw_dial lb tk' fid conn port) port us token pwd s =
      (Some (Inr (rwLoop tkn ?s')), ?s')"
    by (simp add: AttachCmd_def gw_dial_def open_req_def)
  moreover have "gwTokens ?s' = gwTokens ?s \<and> csHandleMsgFn (gwChat ?s') = AList.update fid conn (csHandleMsgFn (gwChat s))"
    unfolding ws_open_def Let_def option.case c(3) open_req_sel
    by (simp add: AppendHandleMsg_def split: prod.splits option.splits)
  ultimately show ?thesis by auto
qed

text \<open>
  Property C40: \<open>console\<close> ends up attached to its own node, or takes the node down. With a home directory, and databases that can be
  opened, the node starts. If it serves within two seconds, the console logs in to it whatever the password is,
  the empty one included, provided the encodings carry it: the gateway then knows the one token the console has, and the handlers
  registered are the log's and the session's. If it is later, the command fails with the error of the
  login, and the program ends with code -1, the node with it.
\<close>

theorem console_attaches_own:
  assumes home: "flHomedir f \<noteq> []" and dbs: "\<forall>fn opts. \<exists>d. openFile fn opts = Inr d"
    and tkn: "tkn = new_token lb (flPwd f) tk1" "tkn \<noteq> []" and coded: "login_coded lb us [] (flPwd f) tkn" and new: "fid \<noteq> uuid"
  shows "(\<exists>r d s. console_command lb newService openFile uuid lg tk1 tk2 fid conn us None f = Some (Inr (r, d, rwLoop tkn s)) \<and>
      gwTokens s = [tkn \<mapsto> tkUnix tk1] \<and> csHandleMsgFn (gwChat s) = [(uuid, lg), (fid, conn)]) \<and>
    console_command lb newService openFile uuid lg tk1 tk2 fid conn us (Some e) f = Some (Inl e) \<and> exit_code (Some e) = -1"
proof (intro conjI)
  obtain r d gw where node: "achat newService (libP2p lb) openFile uuid lg f = Some (r, d, gw)"
    and gw: "gwPort gw = flRpcport f" "gwPwd gw = flPwd f" "gwTokens gw = Map.empty" "csHandleMsgFn (gwChat gw) = [(uuid, lg)]"
    using achat_starts [OF home dbs, where newService = newService and P = "libP2p lb" and uuid = uuid and lg = lg] by blast
  obtain s where s: "AttachCmd (libJson lb) (gw_post lb tk1 (gwPort gw)) (gw_dial lb tk2 fid conn (gwPort gw)) (gwPort gw) us [] (flPwd f) gw =
      (Some (Inr (rwLoop tkn s)), s)" "gwTokens s = [tkn \<mapsto> tkUnix tk1]"
      "csHandleMsgFn (gwChat s) = AList.update fid conn [(uuid, lg)]"
    using attach_registers [OF gw(2) tkn coded, of "gwPort gw" tk2 fid conn] gw(3,4) by auto
  then show "\<exists>r d s. console_command lb newService openFile uuid lg tk1 tk2 fid conn us None f = Some (Inr (r, d, rwLoop tkn s)) \<and>
      gwTokens s = [tkn \<mapsto> tkUnix tk1] \<and> csHandleMsgFn (gwChat s) = [(uuid, lg), (fid, conn)]"
    using node gw(1) new by (intro exI [of _ r] exI [of _ d] exI [of _ s]) (simp add: console_command_def attach_command_def)
  show "console_command lb newService openFile uuid lg tk1 tk2 fid conn us (Some e) f = Some (Inl e)"
    by (simp add: console_command_def attach_command_def AttachCmd_def auth_def callrpc_def)
qed (simp add: exit_code_def)

theorem console_attaches_own_witness:
  "\<exists>r d s. console_command ref_libs (\<lambda>cfg. []) (\<lambda>fn opts. Inr []) ''log'' () ref_tick ref_tick ''f'' () (\<lambda>n. ''u'') None
      (default_flags\<lparr>flPwd := ''pw''\<rparr>) = Some (Inr (r, d, rwLoop (new_token ref_libs ''pw'' ref_tick) s)) \<and>
    csHandleMsgFn (gwChat s) = [(''log'', ()), (''f'', ())]"
  using console_attaches_own [where f = "default_flags\<lparr>flPwd := ''pw''\<rparr>" and lb = ref_libs and us = "\<lambda>n. ''u''"
      and openFile = "\<lambda>fn opts. Inr []" and newService = "\<lambda>cfg. []" and uuid = "''log''" and fid = "''f''"
      and lg = "()" and conn = "()" and e = "''refused''", OF _ _ refl]
    ref_token_ne ref_login_coded
  by (simp add: default_flags_def) blast

end
