(* ===== verification/Sessions.thy ===== *)
theory Sessions
  imports RpcServer
begin

text \<open>
  The gateway of rpc/server.go while it runs: any number of WebSocket sessions in the midst of what they do,
  requests over HTTP, and the chat service, all in one step relation. Theory RpcServer has the handler of \<open>/chat\<close> as one
  function (\<open>ws_open\<close>); here it is a state machine per connection that stops at every call that others can see.
\<close>

section \<open>A connection\<close>

text \<open>
  Where the handler of a connection is: before its first frame; about to query the mailbox; writing what
  the query returned, with the ids written so far; about to register its message handler; waiting, with the id of its
  handler; returned.
\<close>

datatype phase =
    Greeting
  | Querying
  | Sending "Message list" "string list"
  | Joining
  | Open string
  | Gone

text \<open>
  \<open>cnUp\<close>: the peer of the connection can be reached. \<open>cnSent\<close>: what was passed to \<open>ws.Write\<close>; \<open>cnGot\<close>: what arrived.
  The last three fields record whether the token was accepted, the messages of the mailbox written, and the messages
  whose handler call has run.
\<close>

record conn =
  cnPhase :: phase
  cnUp :: bool
  cnSent :: "bytes list"
  cnGot :: "bytes list"
  cnIn :: bool
  cnQueue :: "Message list"
  cnRan :: "Message list"

definition new_conn :: conn where
  "new_conn = \<lparr>cnPhase = Greeting, cnUp = True, cnSent = [], cnGot = [], cnIn = False, cnQueue = [], cnRan = []\<rparr>"

text \<open>The errors of \<open>ws.Write\<close> are dropped.\<close>

definition ws_Write :: "bytes \<Rightarrow> conn \<Rightarrow> conn" where
  "ws_Write b c = c\<lparr>cnSent := cnSent c @ [b], cnGot := (if cnUp c then cnGot c @ [b] else cnGot c)\<rparr>"

text \<open>The handler returns and closes the connection.\<close>

definition ws_gone :: "conn \<Rightarrow> conn" where
  "ws_gone c = c\<lparr>cnPhase := Gone, cnUp := False\<rparr>"

definition sys_frame :: "codecs \<Rightarrow> tick \<Rightarrow> Req \<Rightarrow> string \<Rightarrow> string \<Rightarrow> bytes" where
  "sys_frame A tk req k v = Message_Json A (NewSysMessage (tkUuid tk) (tkUnix tk) []
     [\<lparr>aKey = ''method'', aVal = reqMethod req\<rparr>, \<lparr>aKey = k, aVal = v\<rparr>])"

section \<open>The state\<close>

text \<open>
  A message handler is \<open>Some n\<close>, that of connection \<open>n\<close>, or \<open>None\<close>, one that is no session's, as the log handler. \<open>syTodo\<close>:
  the goroutines of session handlers that were started and have not run yet. The field \<open>gwChat\<close> of the gateway is not
  used: the service is the one that runs.
\<close>

record ('d, 'w) system =
  syGw :: "(nat option, 'd, 'w) gateway"
  syRun :: "nat option running"
  syConn :: "nat \<Rightarrow> conn option"
  syTodo :: "(nat \<times> Message) list"

definition gw_now :: "('d, 'w) system \<Rightarrow> (nat option, 'd, 'w) gateway" where
  "gw_now s = (syGw s)\<lparr>gwChat := sSvc (syRun s)\<rparr>"

definition set_conn :: "nat \<Rightarrow> conn \<Rightarrow> ('d, 'w) system \<Rightarrow> ('d, 'w) system" where
  "set_conn n c s = s\<lparr>syConn := (syConn s)(n \<mapsto> c)\<rparr>"

definition set_world :: "'w \<Rightarrow> ('d, 'w) system \<Rightarrow> ('d, 'w) system" where
  "set_world w s = s\<lparr>syGw := (syGw s)\<lparr>gwWorld := w\<rparr>\<rparr>"

text \<open>The session calls among the handler calls that a step of the service started.\<close>

definition session_calls :: "(string \<times> nat option \<times> Message) list \<Rightarrow> (nat \<times> Message) list" where
  "session_calls cs = concat (map (\<lambda>(fid, h, m). case h of None \<Rightarrow> [] | Some n \<Rightarrow> [(n, m)]) cs)"

section \<open>Steps\<close>

datatype 'w happening =
    Connects nat | Cuts nat | HangsUp nat | Hello nat tick bytes | Queries nat | Writes nat | Clears nat
  | Joins nat string | Hears nat bytes | Leaves nat string | Runs nat Message
  | Serves "nat option event" | Asks tick "bytes option" | Elsewhere 'w

fun registry_event :: "'h event \<Rightarrow> bool" where
  "registry_event (Register fid h) = True"
| "registry_event (Unregister fid) = True"
| "registry_event e = False"

text \<open>
  A connection comes, breaks (\<open>cut\<close>), or fails before its first frame; the first frame is checked; the mailbox is asked, its
  messages are written one by one and cleared; the handler is registered under a fresh id; later frames are only
  logged; when receiving fails, the handler is dropped. A goroutine of a session's handler writes its message. The
  service makes any step of its own; a request over HTTP runs; the world changes elsewhere.
\<close>

inductive sys_step ::
    "('d, 'w) libs \<Rightarrow> ('d, 'w) system \<Rightarrow> 'w happening \<Rightarrow> ('d, 'w) system \<Rightarrow> bool" for lb where
  connect: "syConn s n = None \<Longrightarrow> sys_step lb s (Connects n) (set_conn n new_conn s)"
| cut: "syConn s n = Some c \<Longrightarrow> sys_step lb s (Cuts n) (set_conn n (c\<lparr>cnUp := False\<rparr>) s)"
| hang_up: "syConn s n = Some c \<Longrightarrow> cnPhase c = Greeting \<Longrightarrow> \<not> cnUp c \<Longrightarrow>
    sys_step lb s (HangsUp n) (set_conn n (ws_gone c) s)"
| bad_token: "syConn s n = Some c \<Longrightarrow> cnPhase c = Greeting \<Longrightarrow> req = Req_FromBytes (libJson lb) dat zero_Req \<Longrightarrow>
    gwTokens (syGw s) (reqToken req) = None \<Longrightarrow>
    sys_step lb s (Hello n tk dat) (set_conn n (ws_gone (ws_Write (sys_frame (libA lb) tk req ''error'' ''error_token'') c)) s)"
| good_token: "syConn s n = Some c \<Longrightarrow> cnPhase c = Greeting \<Longrightarrow> req = Req_FromBytes (libJson lb) dat zero_Req \<Longrightarrow>
    gwTokens (syGw s) (reqToken req) = Some t \<Longrightarrow>
    sys_step lb s (Hello n tk dat)
      (set_conn n ((ws_Write (sys_frame (libA lb) tk req ''result'' ''success'') c)\<lparr>cnPhase := Querying, cnIn := True\<rparr>) s)"
| query: "syConn s n = Some c \<Longrightarrow> cnPhase c = Querying \<Longrightarrow>
    cs_QueryMsg (libA lb) (libP2p lb) (sSvc (syRun s)) (gwWorld (syGw s)) = (r, w) \<Longrightarrow>
    sys_step lb s (Queries n)
      (set_conn n (c\<lparr>cnPhase := (case r of (Some ml, None) \<Rightarrow> Sending (Messages ml) [] | _ \<Rightarrow> Joining)\<rparr>) (set_world w s))"
| write_one: "syConn s n = Some c \<Longrightarrow> cnPhase c = Sending (m # ms) ids \<Longrightarrow>
    sys_step lb s (Writes n)
      (set_conn n ((ws_Write (Message_Json (libA lb) m) c)\<lparr>cnPhase := Sending ms (ids @ [eId (mEnvelope m)]), cnQueue := cnQueue c @ [m]\<rparr>) s)"
| clear: "syConn s n = Some c \<Longrightarrow> cnPhase c = Sending [] ids \<Longrightarrow>
    cs_CleanMsg (libA lb) (libP2p lb) (sSvc (syRun s)) ids (gwWorld (syGw s)) = (e, w) \<Longrightarrow>
    sys_step lb s (Clears n) (set_conn n (c\<lparr>cnPhase := Joining\<rparr>) (set_world w s))"
| join: "syConn s n = Some c \<Longrightarrow> cnPhase c = Joining \<Longrightarrow> fid \<notin> fst ` set (csHandleMsgFn (sSvc (syRun s))) \<Longrightarrow>
    svc_step (libA lb) (syRun s) (Register fid (Some n)) r \<Longrightarrow>
    sys_step lb s (Joins n fid) (set_conn n (c\<lparr>cnPhase := Open fid\<rparr>) (s\<lparr>syRun := r\<rparr>))"
| hear: "syConn s n = Some c \<Longrightarrow> cnPhase c = Open fid \<Longrightarrow> cnUp c \<Longrightarrow> sys_step lb s (Hears n dat) s"
| leave: "syConn s n = Some c \<Longrightarrow> cnPhase c = Open fid \<Longrightarrow> \<not> cnUp c \<Longrightarrow> svc_step (libA lb) (syRun s) (Unregister fid) r \<Longrightarrow>
    sys_step lb s (Leaves n fid) (set_conn n (ws_gone c) (s\<lparr>syRun := r\<rparr>))"
| goroutine: "(n, m) \<in> set (syTodo s) \<Longrightarrow> syConn s n = Some c \<Longrightarrow>
    sys_step lb s (Runs n m)
      (set_conn n ((ws_Write (Message_Json (libA lb) m) c)\<lparr>cnRan := cnRan c @ [m]\<rparr>) (s\<lparr>syTodo := remove1 (n, m) (syTodo s)\<rparr>))"
| serve: "\<not> registry_event e \<Longrightarrow> svc_step (libA lb) (syRun s) e r \<Longrightarrow>
    sys_step lb s (Serves e)
      (s\<lparr>syRun := r, syTodo := syTodo s @ session_calls (drop (length (sStarted (syRun s))) (sStarted r))\<rparr>)"
| ask: "http_rpc lb tk body (gw_now s) = (out, g) \<Longrightarrow> sys_step lb s (Asks tk body) (s\<lparr>syGw := g\<rparr>)"
| elsewhere: "sys_step lb s (Elsewhere w) (set_world w s)"

inductive sys_run ::
    "('d, 'w) libs \<Rightarrow> ('d, 'w) system \<Rightarrow> 'w happening list \<Rightarrow> ('d, 'w) system \<Rightarrow> bool" for lb where
  run_nil: "sys_run lb s [] s"
| run_snoc: "sys_run lb s es s' \<Longrightarrow> sys_step lb s' e s'' \<Longrightarrow> sys_run lb s (es @ [e]) s''"

inductive_simps sys_step_simps:
  "sys_step lb s (Connects n) s'" "sys_step lb s (Cuts n) s'" "sys_step lb s (Hello n tk dat) s'"
  "sys_step lb s (Queries n) s'" "sys_step lb s (Writes n) s'" "sys_step lb s (Clears n) s'" "sys_step lb s (Joins n fid) s'"
  "sys_step lb s (Runs n m) s'" "sys_step lb s (Serves e) s'"

text \<open>The system when the gateway starts to serve.\<close>

definition sys_start :: "(nat option, 'd, 'w) gateway \<Rightarrow> ('d, 'w) system" where
  "sys_start g = \<lparr>syGw = g, syRun = cs_Start (gwChat g), syConn = Map.empty, syTodo = []\<rparr>"

end
