(* ===== verification/SessionProps.thy ===== *)
theory SessionProps
  imports Sessions EndToEnd
begin

text \<open>
  The gateway with its sessions, in every interleaving: what each connection is sent, how the sessions, the registry and
  the goroutines agree, when nothing can happen, and what becomes of messages when a connection breaks.
\<close>

section \<open>The invariant\<close>

definition conn_ok :: "codecs \<Rightarrow> conn \<Rightarrow> bool" where
  "conn_ok A c \<longleftrightarrow>
    (if cnIn c then \<exists>g. cnSent c = g # map (Message_Json A) (cnQueue c @ cnRan c)
     else length (cnSent c) \<le> 1 \<and> cnQueue c = [] \<and> cnRan c = [] \<and> cnPhase c \<in> {Greeting, Gone}) \<and>
    (cnPhase c = Greeting \<longrightarrow> \<not> cnIn c \<and> cnSent c = []) \<and>
    ((\<exists>fid. cnPhase c = Open fid) \<or> cnPhase c = Gone \<or> cnRan c = []) \<and>
    prefix (cnGot c) (cnSent c) \<and> (cnUp c \<longrightarrow> cnGot c = cnSent c)"

definition was_open :: "('d, 'w) system \<Rightarrow> nat \<Rightarrow> bool" where
  "was_open s n \<longleftrightarrow> (\<exists>c. syConn s n = Some c \<and> cnIn c \<and> ((\<exists>fid. cnPhase c = Open fid) \<or> cnPhase c = Gone))"

fun loop_fs :: "'h loop \<Rightarrow> (string \<times> 'h) list" where
  "loop_fs (Dispatching m fs) = fs"
| "loop_fs Idle = []"
| "loop_fs Exited = []"

text \<open>The messages handed to the handler of a connection, those still on the way, and those written.\<close>

definition calls_for :: "nat \<Rightarrow> nat option running \<Rightarrow> Message list" where
  "calls_for n r = map snd (filter (\<lambda>(k, m). k = n) (session_calls (sStarted r)))"

definition todo_for :: "nat \<Rightarrow> ('d, 'w) system \<Rightarrow> Message list" where
  "todo_for n s = map snd (filter (\<lambda>(k, m). k = n) (syTodo s))"

definition ran_of :: "nat \<Rightarrow> ('d, 'w) system \<Rightarrow> Message list" where
  "ran_of n s = (case syConn s n of None \<Rightarrow> [] | Some c \<Rightarrow> cnRan c)"

abbreviation registry :: "('d, 'w) system \<Rightarrow> (string \<times> nat option) list" where
  "registry s \<equiv> csHandleMsgFn (sSvc (syRun s))"

definition sys_inv :: "codecs \<Rightarrow> ('d, 'w) system \<Rightarrow> bool" where
  "sys_inv A s \<longleftrightarrow>
    (\<forall>n c. syConn s n = Some c \<longrightarrow> conn_ok A c) \<and>
    (\<forall>n. mset (calls_for n (syRun s)) = mset (todo_for n s) + mset (ran_of n s)) \<and>
    (\<forall>f n. (f, Some n) \<in> set (registry s) \<longleftrightarrow> (\<exists>c. syConn s n = Some c \<and> cnPhase c = Open f)) \<and>
    (\<forall>f n. (f, Some n) \<in> set (loop_fs (sLoop (syRun s))) \<longrightarrow> was_open s n) \<and>
    (\<forall>n m. (n, m) \<in> set (syTodo s) \<longrightarrow> was_open s n) \<and>
    distinct (map fst (registry s))"

lemma set_conn_sel [simp]:
  "syConn (set_conn n c s) = (syConn s)(n \<mapsto> c)" "syRun (set_conn n c s) = syRun s" "syTodo (set_conn n c s) = syTodo s"
  "syGw (set_conn n c s) = syGw s" "syConn (set_world w s) = syConn s" "syRun (set_world w s) = syRun s"
  "syTodo (set_world w s) = syTodo s" "todo_for k (set_conn n c s) = todo_for k s" "todo_for k (set_world w s) = todo_for k s"
  by (simp_all add: set_conn_def set_world_def todo_for_def)

lemma ws_Write_sel [simp]:
  "cnPhase (ws_Write b c) = cnPhase c" "cnUp (ws_Write b c) = cnUp c" "cnIn (ws_Write b c) = cnIn c"
  "cnQueue (ws_Write b c) = cnQueue c" "cnRan (ws_Write b c) = cnRan c" "cnSent (ws_Write b c) = cnSent c @ [b]"
  "cnGot (ws_Write b c) = (if cnUp c then cnGot c @ [b] else cnGot c)"
  by (simp_all add: ws_Write_def)

lemma session_calls_append [simp]: "session_calls (xs @ ys) = session_calls xs @ session_calls ys"
  by (simp add: session_calls_def)

text \<open>A change of one connection that leaves its handler and its goroutines alone.\<close>

lemma inv_conn:
  assumes inv: "sys_inv A s" and ok: "conn_ok A c" and ran: "cnRan c = ran_of n s"
    and op: "\<And>f. cnPhase c = Open f \<longleftrightarrow> (\<exists>c. syConn s n = Some c \<and> cnPhase c = Open f)"
    and stays: "was_open s n \<Longrightarrow> cnIn c \<and> ((\<exists>fid. cnPhase c = Open fid) \<or> cnPhase c = Gone)"
  shows "sys_inv A (set_conn n c s)"
proof -
  have "was_open (set_conn n c s) k" if "was_open s k" for k
    using that stays by (cases "k = n") (auto simp: was_open_def)
  moreover have "ran_of k (set_conn n c s) = ran_of k s" for k
    using ran by (simp add: ran_of_def)
  ultimately show ?thesis
    using inv ok op by (auto simp: sys_inv_def)
qed

lemma inv_world: "sys_inv A (set_world w s) = sys_inv A s"
  by (simp add: sys_inv_def was_open_def ran_of_def)

lemma serve_facts:
  "svc_step A s e r \<Longrightarrow> \<not> registry_event e \<Longrightarrow>
    csHandleMsgFn (sSvc r) = csHandleMsgFn (sSvc s) \<and>
    set (loop_fs (sLoop r)) \<subseteq> set (loop_fs (sLoop s)) \<union> set (csHandleMsgFn (sSvc s)) \<and>
    (\<exists>news. sStarted r = sStarted s @ news \<and> (\<forall>(f, h, m)\<in>set news. (f, h) \<in> set (loop_fs (sLoop s))))"
proof (induction rule: svc_step.induct)
  case (take s m ms fs)
  then show ?case using mset_eq_setD [OF take(4)] by auto
next
  case (call_stop s c e)
  then show ?case by (auto simp: cs_Stop_def split: if_splits)
qed auto

lemma session_calls_mem: "(n, m) \<in> set (session_calls cs) \<longleftrightarrow> (\<exists>f. (f, Some n, m) \<in> set cs)"
  by (force simp: session_calls_def split: option.splits)

lemma conn_ok_write:
  "conn_ok A c \<Longrightarrow> cnIn c \<Longrightarrow> cnPhase c = Sending (m # ms) ids \<Longrightarrow>
    conn_ok A ((ws_Write (Message_Json A m) c)\<lparr>cnPhase := Sending ms (ids @ [eId (mEnvelope m)]), cnQueue := cnQueue c @ [m]\<rparr>)"
  by (auto simp: conn_ok_def)

lemma conn_ok_ran:
  assumes ok: "conn_ok A c" and op: "cnIn c" "(\<exists>fid. cnPhase c = Open fid) \<or> cnPhase c = Gone"
  shows "conn_ok A ((ws_Write (Message_Json A m) c)\<lparr>cnRan := cnRan c @ [m]\<rparr>)"
  using assms by (auto simp: conn_ok_def)

lemma conn_ok_in: "conn_ok A c \<Longrightarrow> cnPhase c \<noteq> Greeting \<Longrightarrow> cnPhase c \<noteq> Gone \<Longrightarrow> cnIn c"
  by (auto simp: conn_ok_def split: if_splits)

lemma update_fresh: "k \<notin> fst ` set xs \<Longrightarrow> AList.update k v xs = xs @ [(k, v)]"
  by (induction xs) auto

lemma inv_ok: "sys_inv A s \<Longrightarrow> syConn s n = Some c \<Longrightarrow> conn_ok A c"
  by (simp add: sys_inv_def)

lemma inv_join:
  assumes inv: "sys_inv A s" and c: "syConn s n = Some c" "cnPhase c = Joining"
    and fresh: "fid \<notin> fst ` set (registry s)" and reg: "svc_step A (syRun s) (Register fid (Some n)) r"
  shows "sys_inv A (set_conn n (c\<lparr>cnPhase := Open fid\<rparr>) (s\<lparr>syRun := r\<rparr>))"
proof -
  let ?s = "set_conn n (c\<lparr>cnPhase := Open fid\<rparr>) (s\<lparr>syRun := r\<rparr>)"
  have r: "csHandleMsgFn (sSvc r) = registry s @ [(fid, Some n)]" "sLoop r = sLoop (syRun s)" "sStarted r = sStarted (syRun s)"
    using reg fresh by (auto simp: svc_step_simps AppendHandleMsg_def update_fresh)
  have ok: "conn_ok A c" "cnIn c" "cnRan c = []"
    using inv_ok [OF inv c(1)] conn_ok_in [OF inv_ok [OF inv c(1)]] c(2) by (auto simp: conn_ok_def)
  have "was_open ?s k" if "was_open s k" for k
    using that ok(2) by (cases "k = n") (auto simp: was_open_def)
  moreover have "ran_of k ?s = ran_of k s" for k using c by (simp add: ran_of_def)
  moreover have "(f, Some k) \<in> set (registry ?s) \<longleftrightarrow> (\<exists>c. syConn ?s k = Some c \<and> cnPhase c = Open f)" for f k
    using inv c fresh by (cases "k = n") (auto simp: sys_inv_def r)
  moreover have "conn_ok A (c\<lparr>cnPhase := Open fid\<rparr>)" using ok by (auto simp: conn_ok_def)
  moreover have "calls_for k r = calls_for k (syRun s)" "todo_for k ?s = todo_for k s" for k
    using r(3) by (simp_all add: calls_for_def todo_for_def)
  ultimately show ?thesis
    using inv fresh by (auto simp: sys_inv_def r)
qed

lemma inv_leave:
  assumes inv: "sys_inv A s" and c: "syConn s n = Some c" "cnPhase c = Open fid"
    and reg: "svc_step A (syRun s) (Unregister fid) r"
  shows "sys_inv A (set_conn n (ws_gone c) (s\<lparr>syRun := r\<rparr>))"
proof -
  let ?s = "set_conn n (ws_gone c) (s\<lparr>syRun := r\<rparr>)"
  have r: "csHandleMsgFn (sSvc r) = AList.delete fid (registry s)" "sLoop r = sLoop (syRun s)" "sStarted r = sStarted (syRun s)"
    using reg by (auto simp: svc_step_simps DropHandleMsg_def)
  have ok: "conn_ok A c" "cnIn c" using inv c conn_ok_in [of A c] by (auto simp: sys_inv_def)
  have dist: "distinct (map fst (registry s))" "(fid, Some n) \<in> set (registry s)" using inv c by (auto simp: sys_inv_def)
  have "was_open ?s k" if "was_open s k" for k
    using that ok(2) by (cases "k = n") (auto simp: was_open_def ws_gone_def)
  moreover have "ran_of k ?s = ran_of k s" for k using c by (simp add: ran_of_def ws_gone_def)
  moreover have "(f, Some k) \<in> set (registry ?s) \<longleftrightarrow> (\<exists>c. syConn ?s k = Some c \<and> cnPhase c = Open f)" for f k
  proof -
    have del: "(f, Some k) \<in> set (registry ?s) \<longleftrightarrow> (f, Some k) \<in> set (registry s) \<and> f \<noteq> fid"
      by (auto simp: r(1) AList.delete_eq)
    have reg: "(f, Some k) \<in> set (registry s) \<longleftrightarrow> (\<exists>c. syConn s k = Some c \<and> cnPhase c = Open f)"
      using inv by (simp add: sys_inv_def)
    show ?thesis
    proof (cases "k = n")
      case True
      then show ?thesis using reg del c by (simp add: ws_gone_def)
    next
      case False
      have "f \<noteq> fid" if "(f, Some k) \<in> set (registry s)"
        using eq_key_imp_eq_value [OF dist(1) _ dist(2), of "Some k"] that False by blast
      then show ?thesis unfolding del using reg False by auto
    qed
  qed
  moreover have "conn_ok A (ws_gone c)" using ok by (auto simp: conn_ok_def ws_gone_def)
  moreover have "calls_for k r = calls_for k (syRun s)" "todo_for k ?s = todo_for k s" for k
    using r(3) by (simp_all add: calls_for_def todo_for_def)
  moreover have "distinct (map fst (registry ?s))" using dist(1) by (simp add: r(1) distinct_delete)
  ultimately show ?thesis
    using inv by (auto simp: sys_inv_def r(2))
qed

lemma todo_taken:
  "(n, m) \<in> set xs \<Longrightarrow> mset (map snd (filter (\<lambda>(k, m). k = n) xs)) =
    add_mset m (mset (map snd (filter (\<lambda>(k, m). k = n) (remove1 (n, m) xs))))"
  by (induction xs) auto

lemma todo_other: "k \<noteq> n \<Longrightarrow> filter (\<lambda>(k', m). k' = k) (remove1 (n, m) xs) = filter (\<lambda>(k', m). k' = k) xs"
  by (induction xs) auto

lemma inv_goroutine:
  assumes inv: "sys_inv A s" and todo: "(n, m) \<in> set (syTodo s)" and c: "syConn s n = Some c"
  shows "sys_inv A (set_conn n ((ws_Write (Message_Json A m) c)\<lparr>cnRan := cnRan c @ [m]\<rparr>)
    (s\<lparr>syTodo := remove1 (n, m) (syTodo s)\<rparr>))"
proof -
  let ?c = "(ws_Write (Message_Json A m) c)\<lparr>cnRan := cnRan c @ [m]\<rparr>" and ?t = "s\<lparr>syTodo := remove1 (n, m) (syTodo s)\<rparr>"
  have op: "cnIn c" "(\<exists>fid. cnPhase c = Open fid) \<or> cnPhase c = Gone"
    using inv todo c by (auto simp: sys_inv_def was_open_def)
  have stays: "was_open (set_conn n ?c ?t) k" if "was_open s k" for k
    using that op by (cases "k = n") (auto simp: was_open_def)
  moreover have "was_open (set_conn n ?c ?t) k" if "(k, x) \<in> set (remove1 (n, m) (syTodo s))" for k x
    using stays inv subsetD [OF set_remove1_subset that] by (auto simp: sys_inv_def)
  moreover have "mset (todo_for k s) + mset (ran_of k s) =
      mset (todo_for k (set_conn n ?c ?t)) + mset (ran_of k (set_conn n ?c ?t))" for k
  proof (cases "k = n")
    case True
    then have "mset (todo_for k s) = add_mset m (mset (todo_for k ?t))"
      using todo_taken [OF todo] by (simp add: todo_for_def)
    with True c show ?thesis by (simp add: ran_of_def)
  next
    case False
    then have "todo_for k ?t = todo_for k s"
      by (simp add: todo_for_def todo_other)
    with False show ?thesis by (simp add: ran_of_def)
  qed
  moreover have "conn_ok A ?c" by (rule conn_ok_ran [OF inv_ok [OF inv c] op])
  ultimately show ?thesis
    using inv c by (auto simp: sys_inv_def)
qed

lemma inv_serve:
  assumes inv: "sys_inv A s" and svc: "svc_step A (syRun s) e r" "\<not> registry_event e"
  shows "sys_inv A (s\<lparr>syRun := r, syTodo := syTodo s @ session_calls (drop (length (sStarted (syRun s))) (sStarted r))\<rparr>)"
    (is "sys_inv A ?s")
proof -
  obtain news where r: "csHandleMsgFn (sSvc r) = registry s"
      "set (loop_fs (sLoop r)) \<subseteq> set (loop_fs (sLoop (syRun s))) \<union> set (registry s)"
    and news: "sStarted r = sStarted (syRun s) @ news" "\<forall>(f, h, m)\<in>set news. (f, h) \<in> set (loop_fs (sLoop (syRun s)))"
    using serve_facts [OF svc] by blast
  have todo: "syTodo ?s = syTodo s @ session_calls news" using news(1) by simp
  have reg: "was_open s n" if "(f, Some n) \<in> set (registry s)" for f n
    using that inv conn_ok_in [OF inv_ok [OF inv]] by (fastforce simp: sys_inv_def was_open_def)
  have op: "was_open ?s n = was_open s n" "ran_of n ?s = ran_of n s" for n by (simp_all add: was_open_def ran_of_def)
  have "was_open s n" if "(n, m) \<in> set (session_calls news)" for n m
    using that news(2) inv by (fastforce simp: session_calls_mem sys_inv_def)
  then have "\<forall>n m. (n, m) \<in> set (syTodo ?s) \<longrightarrow> was_open ?s n"
    unfolding todo op using inv by (auto simp: sys_inv_def)
  moreover have "\<forall>f n. (f, Some n) \<in> set (loop_fs (sLoop (syRun ?s))) \<longrightarrow> was_open ?s n"
    unfolding op using r(2) reg inv by (auto simp: sys_inv_def)
  moreover have "mset (calls_for n (syRun ?s)) = mset (todo_for n ?s) + mset (ran_of n ?s)" for n
  proof -
    have "mset (calls_for n (syRun s)) = mset (todo_for n s) + mset (ran_of n s)" using inv by (simp add: sys_inv_def)
    then show ?thesis unfolding op todo_for_def todo by (simp add: calls_for_def news(1))
  qed
  ultimately show ?thesis using inv r(1) by (simp add: sys_inv_def)
qed

lemma sys_inv_step: "sys_step lb s e s' \<Longrightarrow> sys_inv (libA lb) s \<Longrightarrow> sys_inv (libA lb) s'"
proof (induction rule: sys_step.induct)
  case (connect s n)
  then show ?case by (intro inv_conn) (auto simp: new_conn_def conn_ok_def ran_of_def was_open_def)
next
  case (cut s n c)
  then show ?case using inv_ok [OF cut.prems cut.hyps(1)]
    by (intro inv_conn) (auto simp: conn_ok_def ran_of_def was_open_def)
next
  case (hang_up s n c)
  then show ?case using inv_ok [OF hang_up.prems hang_up.hyps(1)]
    by (intro inv_conn) (auto simp: conn_ok_def ran_of_def was_open_def ws_gone_def)
next
  case (bad_token s n c req dat tk)
  then show ?case using inv_ok [OF bad_token.prems bad_token.hyps(1)]
    by (intro inv_conn) (auto simp: conn_ok_def ran_of_def was_open_def ws_gone_def)
next
  case (good_token s n c req dat t tk)
  then show ?case using inv_ok [OF good_token.prems good_token.hyps(1)]
    by (intro inv_conn) (auto simp: conn_ok_def ran_of_def was_open_def split: if_splits)
next
  case (query s n c r w)
  let ?p = "case r of (Some ml, None) \<Rightarrow> Sending (Messages ml) [] | _ \<Rightarrow> Joining"
  have "?p = Joining \<or> (\<exists>ms. ?p = Sending ms [])" by (auto split: prod.split option.split)
  moreover from query have "sys_inv (libA lb) (set_world w s)" by (simp add: inv_world)
  ultimately show ?case using inv_ok [OF query.prems query.hyps(1)] query.hyps(1,2)
    by (intro inv_conn) (auto simp: conn_ok_def ran_of_def was_open_def split: if_splits)
next
  case (write_one s n c m ms ids)
  note ok = inv_ok [OF write_one.prems write_one.hyps(1)]
  moreover have "cnIn c" using conn_ok_in [OF ok] write_one.hyps(2) by simp
  ultimately show ?case using write_one
    by (intro inv_conn conn_ok_write) (auto simp: ran_of_def was_open_def)
next
  case (clear s n c ids e w)
  then have "sys_inv (libA lb) (set_world w s)" by (simp add: inv_world)
  then show ?case using inv_ok [OF clear.prems clear.hyps(1)] clear.hyps(1,2)
    by (intro inv_conn) (auto simp: conn_ok_def ran_of_def was_open_def split: if_splits)
next
  case (ask tk body s out g)
  then show ?case by (simp add: sys_inv_def was_open_def ran_of_def todo_for_def)
qed (auto intro: inv_join inv_leave inv_goroutine inv_serve simp: inv_world)

lemma sys_run_append: "sys_run lb s' es' s'' \<Longrightarrow> sys_run lb s es s' \<Longrightarrow> sys_run lb s (es @ es') s''"
proof (induction rule: sys_run.induct)
  case (run_snoc s1 es1 s2 e s3)
  then show ?case using sys_run.run_snoc [of lb s "es @ es1" s2 e s3] by simp
qed simp

lemma sys_run_cons: "sys_step lb s e s1 \<Longrightarrow> sys_run lb s1 es s' \<Longrightarrow> sys_run lb s (e # es) s'"
  using sys_run_append [OF _ sys_run.run_snoc [OF sys_run.run_nil]] by fastforce

lemma sys_inv_run: "sys_run lb s es s' \<Longrightarrow> sys_inv (libA lb) s \<Longrightarrow> sys_inv (libA lb) s'"
  by (induction rule: sys_run.induct) (auto intro: sys_inv_step)

lemma sys_inv_start:
  assumes "distinct (map fst (csHandleMsgFn (gwChat g)))" and "\<forall>(f, h)\<in>set (csHandleMsgFn (gwChat g)). h = None"
  shows "sys_inv A (sys_start g)"
  using assms by (auto simp: sys_inv_def sys_start_def cs_Start_def calls_for_def session_calls_def todo_for_def ran_of_def)

section \<open>A gateway for the witnesses\<close>

definition sess_svc :: "nat option ChatService" where
  "sess_svc = \<lparr>csMyid = bob_jid, csHomedir = ''/tmp'', csRecvMsgCh = [], csStop = False, csHandleMsgFn = [(''log'', None)],
    csMbox = \<lparr>mbMyid = bob_jid, mbStop = False, mbDb = LDBDatabase ''mb''\<rparr>\<rparr>"

definition sess_gw :: "mem \<Rightarrow> (nat option, mem, mem) gateway" where
  "sess_gw w = \<lparr>gwChat = sess_svc, gwPwd = ''pw'', gwPort = 9990, gwTokens = [''tok'' \<mapsto> 7], gwServices = gwServices ref_gw,
     gwUserdb = [], gwGroupdb = [], gwWorld = w\<rparr>"

lemma sess_sel [simp]:
  "csMyid sess_svc = bob_jid" "csRecvMsgCh sess_svc = []" "\<not> csStop sess_svc" "csHandleMsgFn sess_svc = [(''log'', None)]"
  "gwChat (sess_gw w) = sess_svc" "gwTokens (sess_gw w) = [''tok'' \<mapsto> 7]" "gwWorld (sess_gw w) = w"
  by (simp_all add: sess_svc_def sess_gw_def)

lemma sys_start_sel [simp]:
  "syGw (sys_start g) = g" "syRun (sys_start g) = cs_Start (gwChat g)" "syConn (sys_start g) = Map.empty"
  "sSvc (cs_Start c) = c" "sRaced (cs_Start c) = False"
  by (simp_all add: sys_start_def cs_Start_def)

abbreviation hello_frame :: bytes where "hello_frame \<equiv> pack [''1'', ''tok'', ''open'']"

lemma hello_run:
  "\<exists>c. sys_run ref_libs (sys_start (sess_gw w)) [Connects 0, Hello 0 ref_tick hello_frame] (set_conn 0 c (sys_start (sess_gw w))) \<and>
    cnPhase c = Querying \<and> cnUp c \<and> cnIn c"
proof -
  let ?s = "sys_start (sess_gw w)" and ?req = "Req_FromBytes ref_json hello_frame zero_Req"
  let ?c = "(ws_Write (sys_frame ref_codecs ref_tick ?req ''result'' ''success'') new_conn)\<lparr>cnPhase := Querying, cnIn := True\<rparr>"
  have "sys_step ref_libs ?s (Connects 0) (set_conn 0 new_conn ?s)" by (rule sys_step.connect) simp
  moreover have "gwTokens (syGw (set_conn 0 new_conn ?s)) (reqToken ?req) = Some 7"
    unfolding ref_request by (simp del: pack.simps)
  then have "sys_step ref_libs (set_conn 0 new_conn ?s) (Hello 0 ref_tick hello_frame) (set_conn 0 ?c (set_conn 0 new_conn ?s))"
    using sys_step.good_token [of "set_conn 0 new_conn ?s" 0 new_conn ?req ref_libs hello_frame 7 ref_tick]
    by (simp add: new_conn_def del: pack.simps)
  ultimately have "sys_run ref_libs ?s [Connects 0, Hello 0 ref_tick hello_frame] (set_conn 0 ?c (set_conn 0 new_conn ?s))"
    by (rule sys_run_cons [OF _ sys_run_cons [OF _ sys_run.run_nil]])
  then show ?thesis by (intro exI [of _ ?c]) (simp add: new_conn_def set_conn_def del: pack.simps)
qed

section \<open>The history of a connection\<close>
















section \<open>What every connection is sent\<close>



section \<open>The service within the system\<close>

fun svc_part :: "'w happening \<Rightarrow> nat option event list" where
  "svc_part (Joins n fid) = [Register fid (Some n)]"
| "svc_part (Leaves n fid) = [Unregister fid]"
| "svc_part (Serves e) = [e]"
| "svc_part _ = []"

lemma svc_part_step: "sys_step lb s e s' \<Longrightarrow> svc_run (libA lb) (syRun s) (svc_part e) (syRun s')"
  by (induction rule: sys_step.induct)
    (auto simp: svc_run.run_nil intro: svc_run.run_snoc [OF svc_run.run_nil, simplified] svc_run_cons)

lemma svc_part_run: "sys_run lb s es s' \<Longrightarrow> svc_run (libA lb) (syRun s) (concat (map svc_part es)) (syRun s')"
  by (induction rule: sys_run.induct) (auto simp: svc_run.run_nil intro: svc_run_append svc_part_step)

text \<open>A run of the service by itself is one of the system, and leaves the connections alone.\<close>

lemma serves_run:
  "svc_run (libA lb) r es r' \<Longrightarrow> r = syRun s \<Longrightarrow> \<forall>e\<in>set es. system_event e \<Longrightarrow>
    \<exists>s'. sys_run lb s (map Serves es) s' \<and> syRun s' = r' \<and> syConn s' = syConn s"
proof (induction rule: svc_run.induct)
  case (run_nil r)
  then show ?case using sys_run.run_nil by auto
next
  case (run_snoc r es r' e r'')
  then obtain s' where s': "sys_run lb s (map Serves es) s'" "syRun s' = r'" "syConn s' = syConn s" by auto
  have "\<not> registry_event e" using run_snoc.prems by (cases e) auto
  from sys_step.serve [OF this, of lb s' r''] run_snoc.hyps(2) s' show ?case
    using sys_run.run_snoc by fastforce
qed

text \<open>An id belongs to one handler as long as it is not registered with another.\<close>

definition owns :: "string \<Rightarrow> 'h \<Rightarrow> 'h running \<Rightarrow> bool" where
  "owns fid h r \<longleftrightarrow> (\<forall>k. (fid, k) \<in> set (csHandleMsgFn (sSvc r)) \<union> set (loop_fs (sLoop r)) \<longrightarrow> k = h) \<and>
    (\<forall>k m. (fid, k, m) \<in> set (sStarted r) \<longrightarrow> k = h)"

lemma update_subset: "set (AList.update k v xs) \<subseteq> insert (k, v) (set xs)"
  by (induction xs) auto

lemma owns_step: "svc_step A r e r' \<Longrightarrow> owns fid h r \<Longrightarrow> (\<And>k. e = Register fid k \<Longrightarrow> k = h) \<Longrightarrow> owns fid h r'"
proof (induction rule: svc_step.induct)
  case (take s m ms fs)
  then show ?case using mset_eq_setD [OF take(4)] by (auto simp: owns_def)
next
  case (register s uuid fn)
  then show ?case
    using subsetD [OF update_subset [of uuid fn "csHandleMsgFn (sSvc s)"]] by (auto simp: owns_def AppendHandleMsg_def)
next
  case (unregister s f)
  then show ?case by (auto simp: owns_def DropHandleMsg_def AList.delete_eq)
next
  case (call_stop s c e)
  then show ?case by (auto simp: owns_def cs_Stop_def split: if_splits)
qed (auto simp: owns_def)

lemma owns_run:
  "svc_run A r es r' \<Longrightarrow> owns fid h r \<Longrightarrow> (\<And>k. Register fid k \<in> set es \<Longrightarrow> k = h) \<Longrightarrow> owns fid h r'"
  by (induction rule: svc_run.induct) (auto intro: owns_step)

lemma calls_owned: "owns fid (Some n) r \<Longrightarrow> m \<in> set (calls_of fid r) \<Longrightarrow> m \<in> set (calls_for n r)"
  by (force simp: calls_of_def calls_for_def session_calls_mem owns_def)

section \<open>A message reaches an open session\<close>

fun own_step :: "'w happening \<Rightarrow> bool" where
  "own_step (Serves e) \<longleftrightarrow> system_event e"
| "own_step (Runs n m) \<longleftrightarrow> True"
| "own_step _ \<longleftrightarrow> False"

lemma served_events: "sys_run lb s es s' \<Longrightarrow> Serves e \<in> set es \<Longrightarrow> \<not> registry_event e"
  by (induction rule: sys_run.induct) (auto elim: sys_step.cases)

lemma part_register: "Register fid h \<in> set (svc_part x) \<longleftrightarrow> (\<exists>n. x = Joins n fid \<and> h = Some n) \<or> x = Serves (Register fid h)"
  by (cases x) auto

lemma part_unregister: "Unregister fid \<in> set (svc_part x) \<longleftrightarrow> (\<exists>n. x = Leaves n fid) \<or> x = Serves (Unregister fid)"
  by (cases x) auto

lemma part_stop: "e \<in> {CallStop, CancelCtx} \<Longrightarrow> e \<in> set (svc_part x) \<longleftrightarrow> x = Serves e"
  by (cases x) auto

lemma service_calls:
  assumes run: "sys_run lb (sys_start g) (xs @ Joins n fid # ys @ Serves (Enqueue m) # zs) s"
    and start: "csHandleMsgFn (gwChat g) = [(lf, None)]" "csRecvMsgCh (gwChat g) = []" "\<not> csStop (gwChat g)" "fid \<noteq> lf"
    and once: "\<forall>k. Joins k fid \<notin> set (xs @ ys @ zs)" "\<forall>k. Leaves k fid \<notin> set (xs @ ys @ zs)"
    and on: "Serves CallStop \<notin> set (xs @ ys @ zs)" "Serves CancelCtx \<notin> set (xs @ ys @ zs)" "\<not> sRaced (syRun s)"
  shows "\<exists>es s1. sys_run lb s (map Serves es) s1 \<and> (\<forall>e\<in>set es. system_event e) \<and> syConn s1 = syConn s \<and>
    m \<in> set (calls_for n (syRun s1))"
proof -
  let ?part = "\<lambda>xs. concat (map svc_part xs)" and ?c = "gwChat g"
  have all: "svc_run (libA lb) (cs_Start ?c) (?part xs @ Register fid (Some n) # ?part ys @ Enqueue m # ?part zs) (syRun s)"
    using svc_part_run [OF run] by (simp add: sys_start_def)
  note part = part_register part_unregister part_stop
  have served: "Serves (Register fid h) \<notin> set (xs @ ys @ zs)" "Serves (Unregister fid) \<notin> set (xs @ ys @ zs)" for h
    using served_events [OF run, of "Register fid h"] served_events [OF run, of "Unregister fid"] by auto
  have reg: "\<forall>h. Register fid h \<notin> set (?part (xs @ ys @ zs))" "Unregister fid \<notin> set (?part (xs @ ys @ zs))"
    using once served by (auto simp: part)
  have stop: "CallStop \<notin> set (?part (xs @ ys @ zs))" "CancelCtx \<notin> set (?part (xs @ ys @ zs))"
    using on by (auto simp: part)
  have live: "sLoop (syRun s) \<noteq> Exited"
    by (rule not_exited [OF all]) (use start stop in \<open>auto simp: cs_Start_def done_closed_def\<close>)
  obtain es r where r: "svc_run (libA lb) (syRun s) es r" "\<forall>e\<in>set es. system_event e" "m \<in> set (calls_of fid r)"
    using late_handler_gets [OF all start(2) _ _ _ _ on(3) live] start reg by auto
  obtain s1 where s1: "sys_run lb s (map Serves es) s1" "syRun s1 = r" "syConn s1 = syConn s"
    using serves_run [OF r(1) refl r(2)] by blast
  have "owns fid (Some n) (cs_Start ?c)" using start by (auto simp: owns_def cs_Start_def)
  then have "owns fid (Some n) (syRun s)" by (rule owns_run [OF all]) (use reg in auto)
  then have "owns fid (Some n) r" by (rule owns_run [OF r(1)]) (use r(2) in auto)
  from calls_owned [OF this r(3)] s1 r(2) show ?thesis by blast
qed

text \<open>
  Property C8: a message reaches an open session, however busy the gateway is. A gateway has served any mix of
  connections, requests and steps of its chat service; in it a session joined under \<open>fid\<close> and later a message \<open>m\<close> entered the channel of
  the service; the session has not left, its connection is up, and the service was not stopped. Then the system can go on by itself,
  with steps of the service and of the goroutines only, until the peer of the connection has got \<open>m\<close>.
\<close>

theorem message_reaches_session:
  assumes run: "sys_run lb (sys_start g) (xs @ Joins n fid # ys @ Serves (Enqueue m) # zs) s"
    and start: "csHandleMsgFn (gwChat g) = [(lf, None)]" "csRecvMsgCh (gwChat g) = []" "\<not> csStop (gwChat g)" "fid \<noteq> lf"
    and once: "\<forall>k. Joins k fid \<notin> set (xs @ ys @ zs)" "\<forall>k. Leaves k fid \<notin> set (xs @ ys @ zs)"
    and on: "Serves CallStop \<notin> set (xs @ ys @ zs)" "Serves CancelCtx \<notin> set (xs @ ys @ zs)" "\<not> sRaced (syRun s)"
    and c: "syConn s n = Some c" "cnUp c"
  shows "\<exists>es s' c'. sys_run lb s es s' \<and> (\<forall>e\<in>set es. own_step e) \<and> syConn s' n = Some c' \<and>
    Message_Json (libA lb) m \<in> set (cnGot c')"
proof -
  obtain es s1 where s1: "sys_run lb s (map Serves es) s1" "\<forall>e\<in>set es. system_event e" "syConn s1 = syConn s"
    and call: "m \<in> set (calls_for n (syRun s1))"
    using service_calls [OF run start once on] by blast
  have inv: "sys_inv (libA lb) s1"
    by (rule sys_inv_run [OF s1(1) sys_inv_run [OF run sys_inv_start]]) (simp_all add: start(1))
  have c1: "syConn s1 n = Some c" using c(1) s1(3) by simp
  have ok: "conn_ok (libA lb) c" by (rule inv_ok [OF inv c1])
  have quiet: "\<forall>e\<in>set (map Serves es). own_step e" using s1(2) by simp
  have "mset (calls_for n (syRun s1)) = mset (todo_for n s1) + mset (cnRan c)"
    using inv c1 by (simp add: sys_inv_def ran_of_def)
  with call have "m \<in> set (todo_for n s1) \<or> m \<in> set (cnRan c)"
    by (metis set_mset_mset union_iff)
  then show ?thesis
  proof
    assume "m \<in> set (cnRan c)"
    with ok c(2) have "Message_Json (libA lb) m \<in> set (cnGot c)" by (auto simp: conn_ok_def split: if_splits)
    with s1(1) quiet c1 show ?thesis by blast
  next
    assume "m \<in> set (todo_for n s1)"
    then have "(n, m) \<in> set (syTodo s1)" by (auto simp: todo_for_def)
    from sys_step.goroutine [OF this c1] obtain s2 c2 where
      s2: "sys_step lb s1 (Runs n m) s2" "syConn s2 n = Some c2" "Message_Json (libA lb) m \<in> set (cnGot c2)"
      using c(2) by fastforce
    from sys_run.run_snoc [OF s1(1) s2(1)] s2(2,3) quiet show ?thesis by fastforce
  qed
qed

lemma sess_ready:
  "\<exists>c s. sys_run ref_libs (sys_start (sess_gw [])) [Connects 0, Hello 0 ref_tick hello_frame, Queries 0, Clears 0] s \<and>
    syConn s 0 = Some c \<and> cnPhase c = Joining \<and> cnUp c \<and> syRun s = cs_Start sess_svc"
proof -
  let ?s = "sys_start (sess_gw [])"
  obtain c where c: "sys_run ref_libs ?s [Connects 0, Hello 0 ref_tick hello_frame] (set_conn 0 c ?s)"
    "cnPhase c = Querying" "cnUp c"
    using hello_run [of "[]"] by blast
  have none: "Messages (doQueryMsg mem_leveldb ref_codecs (sort_key (\<lambda>m. eCt (mEnvelope m))) (LDBDatabase ''mb'') bob_jid []) = []"
    (is "Messages ?b = []")
    using ref_mbox.query_set [OF mem_ok_empty, of "last (Messages ?b)" "''mb''" bob_jid] last_in_set [of "Messages ?b"]
    by (auto simp: mbox_abs_def)
  have size: "length (encoded (cJID ref_codecs) (csMyid sess_svc)) \<le> 128" by (simp add: encoded_def ref_codecs_def plain_codec_def)
  obtain w where q: "cs_QueryMsg ref_codecs (ref_p2p ''me'') sess_svc [] = ((Some ?b, None), w)"
    using mailbox_client.query_request [OF ref_libs_client _ size [folded ref_libs_sel], of "[]"] by (auto simp: cs_QueryMsg_def)
  let ?c2 = "c\<lparr>cnPhase := Sending [] []\<rparr>" and ?c3 = "c\<lparr>cnPhase := Joining\<rparr>"
  let ?s2 = "set_conn 0 ?c2 (set_world w (set_conn 0 c ?s))"
  have "sys_step ref_libs (set_conn 0 c ?s) (Queries 0) ?s2"
    using sys_step.query [of "set_conn 0 c ?s" 0 c ref_libs "(Some ?b, None)" w] q c(2) none by simp
  moreover have "sys_step ref_libs ?s2 (Clears 0) (set_conn 0 (?c2\<lparr>cnPhase := Joining\<rparr>) (set_world w ?s2))"
    by (rule sys_step.clear [where ids = "[]" and e = None]) (simp_all add: cs_CleanMsg_def set_world_def)
  ultimately have "sys_run ref_libs ?s ([Connects 0, Hello 0 ref_tick hello_frame] @ [Queries 0, Clears 0])
      (set_conn 0 (?c2\<lparr>cnPhase := Joining\<rparr>) (set_world w ?s2))"
    by (intro sys_run_append [OF _ c(1)] sys_run_cons [OF _ sys_run_cons [OF _ sys_run.run_nil]])
  then show ?thesis using c(3) by (intro exI conjI) (assumption | simp)+
qed

theorem message_reaches_session_witness:
  "\<exists>es s c. sys_run ref_libs (sys_start (sess_gw [])) es s \<and> syConn s 0 = Some c \<and>
    Message_Json ref_codecs msg_to_bob \<in> set (cnGot c)"
proof -
  let ?xs = "[Connects 0, Hello 0 ref_tick hello_frame, Queries 0, Clears 0] :: mem happening list"
  let ?req = "Request (Message_Bytes ref_codecs msg_to_bob) :: nat option event"
  obtain c s where s: "sys_run ref_libs (sys_start (sess_gw [])) ?xs s" "syConn s 0 = Some c" "cnPhase c = Joining" "cnUp c"
    "syRun s = cs_Start sess_svc"
    using sess_ready by blast
  let ?r1 = "(cs_Start sess_svc)\<lparr>sSvc := snd (AppendHandleMsg ''f'' (Some 0) sess_svc), sRaced := False\<rparr>"
  have r1: "svc_step ref_codecs (syRun s) (Register ''f'' (Some 0)) ?r1"
    by (simp add: svc_step_simps s(5)) (simp add: iterating_def cs_Start_def)
  let ?s1 = "set_conn 0 (c\<lparr>cnPhase := Open ''f''\<rparr>) (s\<lparr>syRun := ?r1\<rparr>)"
  have join: "sys_step ref_libs s (Joins 0 ''f'') ?s1"
    using sys_step.join [of s 0 c "''f''" ref_libs ?r1] r1 s by simp
  let ?r2 = "?r1\<lparr>sWaiting := sWaiting ?r1 @ [msg_to_bob]\<rparr>"
  have r2: "svc_step ref_codecs ?r1 ?req ?r2" by (rule svc_step.request [OF _ bob_read]) simp
  let ?r3 = "?r2\<lparr>sWaiting := remove1 msg_to_bob (sWaiting ?r2),
      sSvc := (sSvc ?r2)\<lparr>csRecvMsgCh := csRecvMsgCh (sSvc ?r2) @ [msg_to_bob]\<rparr>,
      sAccepted := sAccepted ?r2 @ [msg_to_bob], sAcked := sAcked ?r2 @ [msg_to_bob]\<rparr>"
  have r3: "svc_step ref_codecs ?r2 (Enqueue msg_to_bob) ?r3"
    by (rule svc_step.enqueue) (simp_all add: recv_cap_def AppendHandleMsg_def Let_def)
  obtain s2 where s2: "sys_step ref_libs ?s1 (Serves ?req) s2" "syRun s2 = ?r2" "syConn s2 = syConn ?s1"
    using sys_step.serve [of ?req ref_libs ?s1 ?r2] r2 by fastforce
  obtain s3 where s3: "sys_step ref_libs s2 (Serves (Enqueue msg_to_bob)) s3" "syRun s3 = ?r3" "syConn s3 = syConn ?s1"
    using sys_step.serve [of "Enqueue msg_to_bob" ref_libs s2 ?r3] r3 s2 by fastforce
  have run: "sys_run ref_libs (sys_start (sess_gw [])) (?xs @ Joins 0 ''f'' # [Serves ?req] @ Serves (Enqueue msg_to_bob) # []) s3"
    using sys_run_append [OF sys_run_cons [OF join sys_run_cons [OF s2(1) sys_run_cons [OF s3(1) sys_run.run_nil]]] s(1)] by simp
  obtain es s' c' where "sys_run ref_libs s3 es s'" "syConn s' 0 = Some c'" "Message_Json (libA ref_libs) msg_to_bob \<in> set (cnGot c')"
    using message_reaches_session [OF run, of "''log''" "c\<lparr>cnPhase := Open ''f''\<rparr>"] s(4) s3(2,3) by auto
  then show ?thesis using sys_run_append [OF _ run] by fastforce
qed

section \<open>A session alone\<close>

fun conn_of :: "'w happening \<Rightarrow> nat option" where
  "conn_of (Connects n) = Some n"
| "conn_of (Cuts n) = Some n"
| "conn_of (HangsUp n) = Some n"
| "conn_of (Hello n tk dat) = Some n"
| "conn_of (Queries n) = Some n"
| "conn_of (Writes n) = Some n"
| "conn_of (Clears n) = Some n"
| "conn_of (Joins n fid) = Some n"
| "conn_of (Hears n dat) = Some n"
| "conn_of (Leaves n fid) = Some n"
| "conn_of (Runs n m) = Some n"
| "conn_of _ = None"

lemma set_conn_twice [simp]: "set_conn n c' (set_conn n c s) = set_conn n c' s"
  by (simp add: set_conn_def)

lemma writes_run:
  "syConn s n = Some c \<Longrightarrow> cnPhase c = Sending ms ids \<Longrightarrow>
    \<exists>c'. sys_run lb s (replicate (length ms) (Writes n)) (set_conn n c' s) \<and>
      cnPhase c' = Sending [] (ids @ map (\<lambda>m. eId (mEnvelope m)) ms) \<and> cnUp c' = cnUp c \<and>
      cnGot c' = cnGot c @ (if cnUp c then map (Message_Json (libA lb)) ms else [])"
proof (induction ms arbitrary: s c ids)
  case Nil
  then have "set_conn n c s = s" by (simp add: set_conn_def fun_upd_idem)
  with Nil show ?case using sys_run.run_nil [of lb s] by (intro exI [of _ c]) simp
next
  case (Cons m ms)
  let ?c = "(ws_Write (Message_Json (libA lb) m) c)\<lparr>cnPhase := Sending ms (ids @ [eId (mEnvelope m)]), cnQueue := cnQueue c @ [m]\<rparr>"
  from Cons.IH [of "set_conn n ?c s" ?c "ids @ [eId (mEnvelope m)]"] obtain c' where
    "sys_run lb (set_conn n ?c s) (replicate (length ms) (Writes n)) (set_conn n c' s)"
    "cnPhase c' = Sending [] (ids @ map (\<lambda>m. eId (mEnvelope m)) (m # ms))" "cnUp c' = cnUp c"
    "cnGot c' = cnGot c @ (if cnUp c then map (Message_Json (libA lb)) (m # ms) else [])" by auto
  with sys_run_cons [OF sys_step.write_one [OF Cons.prems]] show ?case by (intro exI [of _ c']) simp
qed

lemma joins:
  assumes "syConn s n = Some c" and "cnPhase c = Joining" and "fid \<notin> fst ` set (registry s)" and "\<not> sRaced (syRun s)"
  shows "\<exists>s' c'. sys_step lb s (Joins n fid) s' \<and> syConn s' = (syConn s)(n \<mapsto> c') \<and> cnGot c' = cnGot c \<and>
    cnPhase c' = Open fid \<and> gw_now s' = (gw_now s)\<lparr>gwChat := snd (AppendHandleMsg fid (Some n) (gwChat (gw_now s)))\<rparr>"
  using sys_step.join [OF assms(1-3) svc_step.register [OF assms(4)], of lb]
  by (intro exI conjI) (assumption | simp add: gw_now_def set_conn_def)+

text \<open>What a session writes of the mailbox, and the world after it.\<close>

definition fetched :: "('d, 'w) libs \<Rightarrow> nat option ChatService \<Rightarrow> 'w \<Rightarrow> Message list \<times> 'w" where
  "fetched lb c w =
    (case cs_QueryMsg (libA lb) (libP2p lb) c w of
       ((Some ml, None), w) \<Rightarrow>
         (Messages ml, snd (cs_CleanMsg (libA lb) (libP2p lb) c (map (\<lambda>m. eId (mEnvelope m)) (Messages ml)) w))
     | (_, w) \<Rightarrow> ([], w))"

lemma fetch_run:
  assumes c: "syConn s n = Some c" "cnPhase c = Querying" "cnUp c"
    and w: "fetched lb (sSvc (syRun s)) (gwWorld (syGw s)) = (queued, w)"
  shows "\<exists>es c'. sys_run lb s es (set_conn n c' (set_world w s)) \<and> (\<forall>e\<in>set es. conn_of e = Some n) \<and>
    cnPhase c' = Joining \<and> cnGot c' = cnGot c @ map (Message_Json (libA lb)) queued"
proof -
  obtain r w1 where q: "cs_QueryMsg (libA lb) (libP2p lb) (sSvc (syRun s)) (gwWorld (syGw s)) = (r, w1)"
    by (cases "cs_QueryMsg (libA lb) (libP2p lb) (sSvc (syRun s)) (gwWorld (syGw s))")
  let ?c2 = "c\<lparr>cnPhase := (case r of (Some ml, None) \<Rightarrow> Sending (Messages ml) [] | _ \<Rightarrow> Joining)\<rparr>"
  let ?s2 = "set_conn n ?c2 (set_world w1 s)"
  note query = sys_step.query [OF c(1,2) q]
  show ?thesis
  proof (cases "\<exists>ml. r = (Some ml, None)")
    case False
    then have "cnPhase ?c2 = Joining" "queued = []" "w = w1"
      using w q by (auto simp: fetched_def split: prod.splits option.splits)
    with sys_run_cons [OF query sys_run.run_nil] show ?thesis
      by (intro exI [of _ "[Queries n]"] exI [of _ ?c2]) simp
  next
    case True
    then obtain ml where ml: "r = (Some ml, None)" by blast
    let ?ids = "map (\<lambda>m. eId (mEnvelope m)) (Messages ml)"
    obtain e where cl: "cs_CleanMsg (libA lb) (libP2p lb) (sSvc (syRun s)) ?ids w1 = (e, w)" "queued = Messages ml"
      using w q ml by (cases "cs_CleanMsg (libA lb) (libP2p lb) (sSvc (syRun s)) ?ids w1") (auto simp: fetched_def)
    obtain c3 where c3: "sys_run lb ?s2 (replicate (length queued) (Writes n)) (set_conn n c3 ?s2)"
      "cnPhase c3 = Sending [] ?ids" "cnGot c3 = cnGot c @ map (Message_Json (libA lb)) queued"
      using writes_run [of ?s2 n ?c2 queued "[]" lb] ml cl(2) c(3) by auto
    have "sys_step lb (set_conn n c3 ?s2) (Clears n) (set_conn n (c3\<lparr>cnPhase := Joining\<rparr>) (set_world w (set_conn n c3 ?s2)))"
      by (rule sys_step.clear [where e = e and ids = ?ids]) (simp_all add: c3(2) cl(1) set_world_def)
    from sys_run_cons [OF query sys_run.run_snoc [OF c3(1) this]] c3(3) show ?thesis
      by (intro exI [of _ "Queries n # replicate (length queued) (Writes n) @ [Clears n]"] exI [of _ "c3\<lparr>cnPhase := Joining\<rparr>"])
        (auto simp: set_conn_def set_world_def)
  qed
qed

text \<open>
  \<open>ws_open\<close> of theory RpcServer, which the theorems on a single session use, is one run of these steps: from any state with a new
  connection, the steps of that connection can follow each other so that its peer gets the frames of \<open>ws_open\<close> and the gateway
  ends up in the state of \<open>ws_open\<close>.
\<close>

lemma session_alone:
  assumes c: "syConn s n = Some new_conn" and free: "fid \<notin> fst ` set (registry s)" "\<not> sRaced (syRun s)"
    and alone: "ws_open lb tk fid (Some n) (Some dat) (gw_now s) = (frames, reg, g)"
  shows "\<exists>es s' c'. sys_run lb s es s' \<and> (\<forall>e\<in>set es. conn_of e = Some n) \<and> syConn s' = (syConn s)(n \<mapsto> c') \<and>
    cnGot c' = frames \<and> gw_now s' = g \<and> cnPhase c' = (case reg of None \<Rightarrow> Gone | Some f \<Rightarrow> Open f)"
proof -
  let ?req = "Req_FromBytes (libJson lb) dat zero_Req"
  let ?sys = "\<lambda>k v. sys_frame (libA lb) tk ?req k v"
  have new: "cnPhase new_conn = Greeting" "cnUp new_conn" "cnGot new_conn = []" by (simp_all add: new_conn_def)
  have gw: "gwTokens (gw_now s) = gwTokens (syGw s)" "gwChat (gw_now s) = sSvc (syRun s)" "gwWorld (gw_now s) = gwWorld (syGw s)"
    by (simp_all add: gw_now_def)
  show ?thesis
  proof (cases "gwTokens (syGw s) (reqToken ?req)")
    case None
    let ?c = "ws_gone (ws_Write (?sys ''error'' ''error_token'') new_conn)"
    from sys_run_cons [OF sys_step.bad_token [OF c new(1) refl None, of tk] sys_run.run_nil]
    have "sys_run lb s [Hello n tk dat] (set_conn n ?c s)" .
    moreover have "frames = cnGot ?c \<and> reg = None \<and> g = gw_now s"
      using alone None by (simp add: ws_open_def Let_def gw sys_frame_def new ws_gone_def)
    ultimately show ?thesis
      by (intro exI [of _ "[Hello n tk dat]"] exI [of _ "set_conn n ?c s"] exI [of _ ?c] conjI)
        (simp_all add: ws_gone_def gw_now_def)
  next
    case (Some t)
    let ?c1 = "(ws_Write (?sys ''result'' ''success'') new_conn)\<lparr>cnPhase := Querying, cnIn := True\<rparr>"
    let ?s1 = "set_conn n ?c1 s"
    have hello: "sys_step lb s (Hello n tk dat) ?s1" by (rule sys_step.good_token [OF c new(1) refl Some])
    obtain queued w where q: "fetched lb (sSvc (syRun s)) (gwWorld (syGw s)) = (queued, w)"
      by (cases "fetched lb (sSvc (syRun s)) (gwWorld (syGw s))")
    have out: "frames = ?sys ''result'' ''success'' # map (Message_Json (libA lb)) queued" "reg = Some fid"
      "g = (gw_now s)\<lparr>gwChat := snd (AppendHandleMsg fid (Some n) (gwChat (gw_now s))), gwWorld := w\<rparr>"
      using alone Some q by (auto simp: ws_open_def Let_def gw sys_frame_def fetched_def split: prod.splits option.splits)
    obtain es c4 where c4: "sys_run lb ?s1 es (set_conn n c4 (set_world w ?s1))" "\<forall>e\<in>set es. conn_of e = Some n"
      "cnPhase c4 = Joining" "cnGot c4 = cnGot ?c1 @ map (Message_Json (libA lb)) queued"
      using fetch_run [of ?s1 n ?c1 lb queued w] q new(2) by auto
    let ?s4 = "set_conn n c4 (set_world w ?s1)"
    obtain s' c' where s': "sys_step lb ?s4 (Joins n fid) s'" "syConn s' = (syConn s)(n \<mapsto> c')" "cnGot c' = cnGot c4"
      "cnPhase c' = Open fid" "gw_now s' = (gw_now s)\<lparr>gwChat := snd (AppendHandleMsg fid (Some n) (gwChat (gw_now s))), gwWorld := w\<rparr>"
      using joins [of ?s4 n c4 fid lb] free c4(3) by (auto simp: gw_now_def set_world_def)
    from sys_run_cons [OF hello sys_run.run_snoc [OF c4(1) s'(1)]] show ?thesis
      using s' out new c4(2,4)
      by (intro exI [of _ "Hello n tk dat # es @ [Joins n fid]"] exI [of _ s'] exI [of _ c'] conjI) auto
  qed
qed

section \<open>A connection that breaks\<close>

text \<open>
  Property C20: a session that breaks while it opens destroys messages. When the connection of a session breaks after its
  token was accepted, the handler does not notice: it queries the mailbox, writes every message to the dead connection,
  drops the errors, and clears them all. Then the mailbox is empty, the peer of the connection got nothing, and neither did any other
  session or the service.
\<close>

theorem cut_session_loses:
  assumes net: "mailbox_client L ok view (libA lb) srt fn us box dbs (libP2p lb) me" and ok: "ok (dbs (gwWorld (syGw s)))"
    and me: "csMyid (sSvc (syRun s)) = jid" "53 \<le> length jid" "Mailid jid = box"
    and keyed: "\<And>i m. mbox_abs (libA lb) (view (dbs (gwWorld (syGw s)))) (Peerid jid) i = Some m \<Longrightarrow> eId (mEnvelope m) = i"
    and ms: "ms = Messages (doQueryMsg L (libA lb) srt (LDBDatabase fn) jid (dbs (gwWorld (syGw s))))"
    and fits: "length (encoded (cJID (libA lb)) jid) \<le> 128"
      "length (encoded (cClean (libA lb)) \<lparr>cJid = jid, cIds = map (\<lambda>m. eId (mEnvelope m)) ms\<rparr>) \<le> 2 * 1024 * 1024"
    and c: "syConn s n = Some c" "cnPhase c = Querying"
  shows "\<exists>s' c'. sys_run lb s ([Cuts n, Queries n] @ replicate (length ms) (Writes n) @ [Clears n]) s' \<and>
    syConn s' = (syConn s)(n \<mapsto> c') \<and> cnGot c' = cnGot c \<and> cnPhase c' = Joining \<and> syRun s' = syRun s \<and>
    Messages (doQueryMsg L (libA lb) srt (LDBDatabase fn) jid (dbs (gwWorld (syGw s')))) = []"
proof -
  let ?svc = "sSvc (syRun s)" and ?ids = "map (\<lambda>m. eId (mEnvelope m)) ms"
  obtain w1 e w2 where w: "cs_QueryMsg (libA lb) (libP2p lb) ?svc (gwWorld (syGw s)) =
      ((Some (doQueryMsg L (libA lb) srt (LDBDatabase fn) jid (dbs (gwWorld (syGw s)))), None), w1)"
    "cs_CleanMsg (libA lb) (libP2p lb) ?svc ?ids w1 = (e, w2)"
    "Messages (doQueryMsg L (libA lb) srt (LDBDatabase fn) jid (dbs w2)) = []"
    using query_then_clean [OF net, of "gwWorld (syGw s)" ?svc ms, unfolded me(1), OF ok me(2,3) keyed ms fits] by blast
  let ?c1 = "c\<lparr>cnUp := False\<rparr>"
  let ?c2 = "?c1\<lparr>cnPhase := Sending ms []\<rparr>"
  let ?s2 = "set_conn n ?c2 (set_world w1 (set_conn n ?c1 s))"
  have cut: "sys_step lb s (Cuts n) (set_conn n ?c1 s)" by (rule sys_step.cut [OF c(1)])
  have query: "sys_step lb (set_conn n ?c1 s) (Queries n) ?s2"
    using sys_step.query [of "set_conn n ?c1 s" n ?c1 lb] w(1) c(2) ms by fastforce
  obtain c3 where c3: "sys_run lb ?s2 (replicate (length ms) (Writes n)) (set_conn n c3 ?s2)"
    "cnPhase c3 = Sending [] ?ids" "cnGot c3 = cnGot c"
    using writes_run [of ?s2 n ?c2 ms "[]" lb] by auto
  let ?c4 = "c3\<lparr>cnPhase := Joining\<rparr>"
  have clear: "sys_step lb (set_conn n c3 ?s2) (Clears n) (set_conn n ?c4 (set_world w2 (set_conn n c3 ?s2)))"
    by (rule sys_step.clear [where e = e and ids = ?ids]) (simp_all add: c3(2) w(2) set_world_def)
  have "sys_run lb s ([Cuts n, Queries n] @ replicate (length ms) (Writes n) @ [Clears n])
      (set_conn n ?c4 (set_world w2 (set_conn n c3 ?s2)))"
    using sys_run_cons [OF cut sys_run_cons [OF query sys_run.run_snoc [OF c3(1) clear]]] by simp
  then show ?thesis
    by (intro exI [of _ "set_conn n ?c4 (set_world w2 (set_conn n c3 ?s2))"] exI [of _ ?c4] conjI)
      (simp_all add: c3(3) w(3) set_world_def set_conn_def)
qed

theorem cut_session_loses_witness:
  "\<exists>s s' c c'. sys_run ref_libs (sys_start (sess_gw (snd (putMsg mem_leveldb ref_codecs (LDBDatabase ''mb'') msg_to_bob []))))
      [Connects 0, Hello 0 ref_tick hello_frame] s \<and> syConn s 0 = Some c \<and>
    sys_run ref_libs s [Cuts 0, Queries 0, Writes 0, Clears 0] s' \<and> syConn s' 0 = Some c' \<and> cnGot c' = cnGot c \<and>
    Messages (doQueryMsg mem_leveldb ref_codecs (sort_key (\<lambda>m. eCt (mEnvelope m))) (LDBDatabase ''mb'') bob_jid
      (gwWorld (syGw s'))) = []"
proof -
  let ?d = "snd (putMsg mem_leveldb ref_codecs (LDBDatabase ''mb'') msg_to_bob [])"
  obtain c where c: "sys_run ref_libs (sys_start (sess_gw ?d)) [Connects 0, Hello 0 ref_tick hello_frame]
      (set_conn 0 c (sys_start (sess_gw ?d)))" "cnPhase c = Querying"
    using hello_run [of ?d] by blast
  let ?s = "set_conn 0 c (sys_start (sess_gw ?d))"
  have ok: "mem_ok (gwWorld (syGw ?s))" using ref_mbox.put_result(2) [OF mem_ok_empty] by simp
  have keyed: "eId (mEnvelope m) = i"
    if "mbox_abs (libA ref_libs) (map_of (gwWorld (syGw ?s))) (Peerid bob_jid) i = Some m" for i m
    using that ref_put_keyed [of msg_to_bob "''mb''" i m] by simp
  have ms: "[msg_to_bob] = Messages (doQueryMsg mem_leveldb (libA ref_libs) (sort_key (\<lambda>m. eCt (mEnvelope m)))
      (LDBDatabase ''mb'') bob_jid (gwWorld (syGw ?s)))"
    using bob_query by simp
  have fits: "length (encoded (cJID (libA ref_libs)) bob_jid) \<le> 128"
    "length (encoded (cClean (libA ref_libs)) \<lparr>cJid = bob_jid, cIds = map (\<lambda>m. eId (mEnvelope m)) [msg_to_bob]\<rparr>) \<le> 2 * 1024 * 1024"
    by (simp_all add: clean_size) (simp add: encoded_def ref_codecs_def plain_codec_def)
  obtain s' c' where "sys_run ref_libs ?s [Cuts 0, Queries 0, Writes 0, Clears 0] s'" "syConn s' 0 = Some c'" "cnGot c' = cnGot c"
    "Messages (doQueryMsg mem_leveldb ref_codecs (sort_key (\<lambda>m. eCt (mEnvelope m))) (LDBDatabase ''mb'') bob_jid
      (gwWorld (syGw s'))) = []"
    using cut_session_loses [OF ref_libs_client ok _ _ _ keyed ms fits _ c(2), of 0] by auto
  with c(1) show ?thesis by (intro exI [of _ ?s] exI [of _ s'] exI [of _ c] exI [of _ c']) simp
qed

section \<open>Without the password\<close>

lemma ask_no_token:
  assumes "gwTokens g = Map.empty" and "\<And>dat. body = Some dat \<Longrightarrow> \<not> logs_in lb (gwPwd g) (HttpReq tk (Some dat) :: 'h gw_event)"
  shows "snd (http_rpc lb tk body g) = g"
proof (cases body)
  case (Some dat)
  then show ?thesis
    using assms handle_no_token [of g "decoded lb dat" lb tk] by (auto simp: http_rpc_def decoded_def)
qed (simp add: http_rpc_def)

text \<open>
  Property C5: without the password nothing happens, in any interleaving. On a gateway started with a password, let connections,
  sessions, HTTP requests and the chat service run in any order, where no HTTP request carries the password. Then there is no token; no
  connection got past its first frame, so that each was sent at most one frame, and no message of the mailbox or of
  the service; no session's handler is registered or about to be called; and the world is as it was or as it was changed elsewhere.
\<close>

theorem no_password_any_order:
  assumes start: "StartRPC openFile pwd port c w = Some g" and log: "csHandleMsgFn c = [(lf, None)]"
    and run: "sys_run lb (sys_start g) es s"
    and none: "\<forall>tk dat. Asks tk (Some dat) \<in> set es \<longrightarrow> \<not> logs_in lb pwd (HttpReq tk (Some dat) :: nat gw_event)"
  shows "gwTokens (syGw s) = Map.empty \<and>
    (\<forall>n k. syConn s n = Some k \<longrightarrow> \<not> cnIn k \<and> length (cnSent k) \<le> 1 \<and> cnQueue k = [] \<and> cnRan k = []) \<and>
    (\<forall>fid n. (fid, Some n) \<notin> set (registry s)) \<and> syTodo s = [] \<and>
    (gwWorld (syGw s) = w \<or> Elsewhere (gwWorld (syGw s)) \<in> set es)"
proof -
  note st = StartRPC_sel [OF start]
  have "gwTokens (syGw s) = Map.empty \<and> gwPwd (syGw s) = pwd \<and> (\<forall>n k. syConn s n = Some k \<longrightarrow> \<not> cnIn k \<and> cnPhase k \<in> {Greeting, Gone}) \<and>
    (gwWorld (syGw s) = w \<or> Elsewhere (gwWorld (syGw s)) \<in> set es)"
    using run none
  proof (induction "sys_start g" es s rule: sys_run.induct)
    case run_nil
    then show ?case using st by (simp add: sys_start_def)
  next
    case (run_snoc es s e s')
    then have IH: "gwTokens (syGw s) = Map.empty" "gwPwd (syGw s) = pwd"
        "\<And>n k. syConn s n = Some k \<Longrightarrow> \<not> cnIn k \<and> cnPhase k \<in> {Greeting, Gone}"
        "gwWorld (syGw s) = w \<or> Elsewhere (gwWorld (syGw s)) \<in> set es" by auto
    from run_snoc.hyps(3) show ?case
    proof (cases rule: sys_step.cases)
      case (ask tk body out g)
      have "snd (http_rpc lb tk body (gw_now s)) = gw_now s"
        by (rule ask_no_token) (use IH(1,2) ask(1) run_snoc.prems in \<open>auto simp: gw_now_def\<close>)
      with ask IH show ?thesis by (auto simp: gw_now_def)
    qed (use IH in \<open>auto simp: new_conn_def ws_gone_def set_world_def dest!: IH(3)\<close>)
  qed
  then have quiet: "gwTokens (syGw s) = Map.empty" "\<And>n k. syConn s n = Some k \<Longrightarrow> \<not> cnIn k \<and> cnPhase k \<in> {Greeting, Gone}"
    "gwWorld (syGw s) = w \<or> Elsewhere (gwWorld (syGw s)) \<in> set es" by auto
  have inv: "sys_inv (libA lb) s"
    by (rule sys_inv_run [OF run sys_inv_start]) (simp_all add: st log)
  have "\<not> cnIn k \<and> length (cnSent k) \<le> 1 \<and> cnQueue k = [] \<and> cnRan k = []" if "syConn s n = Some k" for n k
    using inv_ok [OF inv that] quiet(2) [OF that] by (auto simp: conn_ok_def split: if_splits)
  moreover have "(fid, Some n) \<notin> set (registry s)" for fid n
    using inv quiet(2) by (fastforce simp: sys_inv_def)
  moreover have "(n, m) \<notin> set (syTodo s)" for n m
    using inv quiet(2) by (fastforce simp: sys_inv_def was_open_def)
  then have "syTodo s = []" by (cases "syTodo s") auto
  ultimately show ?thesis using quiet(1,3) by blast
qed

theorem no_password_any_order_witness:
  "\<exists>g s. sys_run ref_libs (sys_start g) [Connects 0, Hello 0 ref_tick hello_frame, Asks ref_tick (Some (pack [''1'', [], ''auth'', ''guess'']))] s \<and>
    gwTokens (syGw s) = Map.empty \<and> gwWorld (syGw s) = []"
proof -
  let ?ask = "pack [''1'', [], ''auth'', ''guess'']"
  obtain g :: "(nat option, mem, mem) gateway" where g: "StartRPC (\<lambda>fn opts. Inr []) ''pw'' 9990 sess_svc [] = Some g"
    by (simp add: StartRPC_def NewUserService_def NewGroupService_def NewLDBDatabase_def)
  let ?s1 = "set_conn 0 new_conn (sys_start g)"
  have "sys_step ref_libs (sys_start g) (Connects 0) ?s1" by (rule sys_step.connect) simp
  moreover obtain s2 where "sys_step ref_libs ?s1 (Hello 0 ref_tick hello_frame) s2"
    using sys_step.bad_token [of ?s1 0 new_conn _ ref_libs hello_frame ref_tick] StartRPC_sel(1) [OF g]
    by (fastforce simp: new_conn_def simp del: pack.simps)
  moreover obtain out g' where "http_rpc ref_libs ref_tick (Some ?ask) (gw_now s2) = (out, g')"
    by (cases "http_rpc ref_libs ref_tick (Some ?ask) (gw_now s2)")
  ultimately have run: "sys_run ref_libs (sys_start g) [Connects 0, Hello 0 ref_tick hello_frame, Asks ref_tick (Some ?ask)] (s2\<lparr>syGw := g'\<rparr>)"
    using sys_run_cons [OF _ sys_run_cons [OF _ sys_run_cons [OF sys_step.ask sys_run.run_nil]]] by blast
  from no_password_any_order [OF g _ run, of "''log''"] run show ?thesis
    by (fastforce simp: decoded_def simp del: pack.simps)
qed

end
