(* ===== verification/NodeLive.thy ===== *)
theory NodeLive
  imports NodeProps
begin

text \<open>
  When member queries end. All the members a node ever stores on request are the owners of groups, each the only item of
  its list, so that no list of a node that serves well-formed requests has a cycle; a single update request with
  a chosen group id makes one.
\<close>

section \<open>Lists of one member\<close>

text \<open>A peer id is not empty and has no underscore in it.\<close>

definition plain_caller :: "JID \<Rightarrow> bool" where
  "plain_caller j \<longleftrightarrow> j \<noteq> [] \<and> CHR ''_'' \<notin> set j"

definition solo :: "codecs \<Rightarrow> (bytes \<rightharpoonup> bytes) \<Rightarrow> bool" where
  "solo A c \<longleftrightarrow> (\<forall>gid i it. item_at A c gid i = Some it \<longrightarrow>
    miPrve it = [] \<and> miNext it = [] \<and> (\<exists>gid' j. plain_caller j \<and> memberK gid i = memberK gid' j))"

lemma plain_key: "plain_caller j \<Longrightarrow> memberK gid [] \<noteq> memberK gid' j"
proof
  assume j: "plain_caller j" and "memberK gid [] = memberK gid' j"
  then have "gid @ ''_'' = gid' @ ''_'' @ j" by (simp add: memberK_def)
  then have "last (gid @ ''_'') = last (gid' @ ''_'' @ j)" by simp
  with j show False by (auto simp: plain_caller_def dest: last_in_set)
qed

lemma solo_no_empty: "solo A c \<Longrightarrow> item_at A c gid [] = None"
  using plain_key [of _ gid] by (cases "item_at A c gid []") (auto simp: solo_def, blast)

lemma solo_same_items: "same_items A view g d d' \<Longrightarrow> solo A (db_contents view (memberTab g) d) \<Longrightarrow>
    solo A (db_contents view (memberTab g) d')"
  by (simp add: same_items_def solo_def items_def)

lemma solo_shrink:
  assumes "solo A c" and "\<And>k. c' k = None \<or> c' k = c k"
  shows "solo A c'"
  using assms by (auto simp: solo_def item_at_def) (metis bind.bind_lunit option.distinct(1) Option.bind.simps(1))+

context member_store
begin

lemma solo_query:
  assumes ok: "ok d" and solo: "solo A (db_contents view (memberTab g) d)"
  shows "\<exists>ms. queryMember L A g gid act i d = Some ms \<and> length ms \<le> 1"
proof (cases "query_fn L A g gid act d i")
  case (Inl e)
  then show ?thesis by (simp add: queryMember_def query_members.simps)
next
  case (Inr r)
  then obtain it where it: "getMember L A g gid i d = Inr it"
    by (auto simp: query_fn_def split: sum.splits)
  then have "item_at A (db_contents view (memberTab g) d) gid i = Some it" by (simp add: getMember_Inr ok)
  with solo have "miPrve it = []" "miNext it = []" by (auto simp: solo_def)
  with Inr it obtain m where r: "query_fn L A g gid act d i = Inr (m, [])"
    by (auto simp: query_fn_def split: if_splits)
  from getMember_Inl [OF ok] solo_no_empty [OF solo] obtain e where "getMember L A g gid [] d = Inl e" by blast
  then have "query_fn L A g gid act d [] = Inl e" by (simp add: query_fn_def)
  with r show ?thesis by (simp add: queryMember_def query_members.simps)
qed

lemma append_log_last:
  assumes ok: "ok d" and run: "append_log L A g uuid gm d = Some (b, d')"
  shows "db_contents view (memberTab g) d' (memberLastK h) = db_contents view (memberTab g) d (memberLastK h)"
  using run ok
  by (cases "db_Get L (memberTab g) (memberLastlogK (gmGid gm)) d")
    (auto simp: append_log_def Let_def store_ops key_simps)

lemma first_member_solo:
  assumes ok: "ok d" and act: "gmAction gm = ADD" and j: "plain_caller (gmId gm)"
    and new: "db_contents view (memberTab g) d (memberLastK (gmGid gm)) = None"
    and solo: "solo A (db_contents view (memberTab g) d)" and run: "handleMember L A g uuid gm d = Some (e, d')"
  shows "solo A (db_contents view (memberTab g) d')"
proof -
  let ?c = "\<lambda>d. db_contents view (memberTab g) d" and ?gid = "gmGid gm"
  from append_log_full [OF ok, of uuid gm] obtain x d1 where 1:
    "append_log L A g uuid gm d = Some (encoded (cMemberLog A) x, d1)" "ok d1" "same_items A view g d d1" by blast
  have solo1: "solo A (?c d1)" by (rule solo_same_items [OF 1(3) solo])
  have "?c d1 (memberLastK ?gid) = None" using append_log_last [OF ok 1(1)] new by simp
  then obtain e1 where none: "db_Get L (memberTab g) (memberLastK ?gid) d1 = Inl e1"
    using get_None [OF 1(2)] by blast
  let ?itm = "zero_MemberItem\<lparr>miId := gmId gm, miMember := Some gm\<rparr>"
  let ?b = "encoded (cMemberItem A) ?itm"
  obtain d2 where d2: "add_member L A g gm d1 = Some d2" "ok d2"
    "?c d2 = (?c d1)(memberK ?gid (gmId gm) \<mapsto> ?b, memberLastK ?gid \<mapsto> ?b)"
    using none 1(2) by (simp add: add_member_def Let_def store_ops zero_MemberItem_def)
  have "?c d' = (?c d2)(memberLastlogK ?gid \<mapsto> encoded (cMemberLog A) x)"
    using run 1(1) d2(1,2) act put_contents [OF d2(2), of "memberLastlogK ?gid" "encoded (cMemberLog A) x"]
    by (auto simp: handleMember_def bind_eq_Some_conv)
  then have item: "item_at A (?c d') h i =
      (if memberK h i = memberK ?gid (gmId gm) then Some (exp_item ?itm) else item_at A (?c d1) h i)" for h i
    using d2(3) by (simp add: item_at_def key_simps)
  have "miPrve (exp_item ?itm) = []" "miNext (exp_item ?itm) = []"
    by (simp_all add: exp_item_def zero_MemberItem_def)
  with solo1 j show ?thesis unfolding solo_def item by (metis option.inject)
qed

lemma update_solo:
  assumes g: "g = newGroupDB db" and ok: "ok d" and solo: "solo A (db_contents view (memberTab g) d)"
    and caller: "plain_caller caller"
    and gid: "\<And>req. Group_FromReader A rw zero_Group = (req, None) \<Longrightarrow> \<not> prefix ''_MEMBER'' (gId req)"
    and run: "groupUpdateService L A g uuid caller rw d = Returns (out, e, d')"
  shows "solo A (db_contents view (memberTab g) d')"
proof (cases "\<exists>req. Group_FromReader A rw zero_Group = (req, None) \<and> gId req \<noteq> []")
  case False
  then have "d' = d"
    using run by (auto simp: groupUpdateService_def Let_def split: prod.splits option.splits if_splits)
  with solo show ?thesis by simp
next
  case True
  then obtain req where req: "Group_FromReader A rw zero_Group = (req, None)" "gId req \<noteq> []" by blast
  let ?grp = "req\<lparr>gOwner := Some (owner_of caller)\<rparr>"
  let ?gm = "\<lparr>gmId = caller, gmName = [], gmGid = gId req, gmAction = ADD\<rparr>"
  let ?T = "table db ''GROUP_MEMBER''"
  note env = member_store_axioms
  from group_put [OF env, OF ok gid [OF req(1)], of db "encoded (cGroup A) ?grp"] obtain d1 where
    put: "db_Put L (table db ''GROUP'') (gId req) (encoded (cGroup A) ?grp) d = (None, d1)" "ok d1"
    "db_contents view ?T d1 = db_contents view ?T d" by blast
  have solo1: "solo A (db_contents view (memberTab g) d1)" using solo put(3) by (simp add: g)
  show ?thesis
  proof (cases "db_contents view ?T d1 (memberLastK (gId req))")
    case (Some b)
    from group_get [OF env put(2) this] have "saveGroup L A g uuid ?grp d = Some (None, d1)"
      using put(1) by (simp add: saveGroup_def g)
    with run req have "d' = d1"
      by (auto simp: groupUpdateService_def Let_def owner_of_def [symmetric] split: sum.splits)
    with solo1 show ?thesis by simp
  next
    case None
    from group_get_none [OF env put(2) this] obtain e1 where
      none: "db_Get L ?T (memberLastK (gId req)) d1 = Inl e1" by blast
    from handle_total [OF put(2), of uuid ?gm] obtain e2 d2 where h: "handleMember L A g uuid ?gm d1 = Some (e2, d2)"
      by blast
    from put(1) none h have "saveGroup L A g uuid ?grp d = Some (None, d2)"
      by (simp add: saveGroup_def g)
    with run req have "d' = d2"
      by (auto simp: groupUpdateService_def Let_def owner_of_def [symmetric] split: sum.splits)
    with first_member_solo [OF put(2) _ _ _ solo1 h] None caller show ?thesis by (simp add: g)
  qed
qed

end


section \<open>Requests\<close>

text \<open>
  A request that leaves the tables of the groups alone: no message is stored under a key of theirs, no group has an id that
  continues their prefix to that of the members, and who updates a group has a peer id.
\<close>

definition tame :: "codecs \<Rightarrow> node_req \<Rightarrow> bool" where
  "tame A r \<longleftrightarrow>
    (\<forall>m. mail_op A r = Some (Put m) \<longrightarrow> \<not> prefix ''GROUP'' (Peerid (eTo (mEnvelope m)) @ eId (mEnvelope m))) \<and>
    (nrPid r = PID_MAILBOX_GROUP_UPDATE \<longrightarrow> plain_caller (nrCaller r) \<and>
      (\<forall>req. Group_FromReader A (nrBytes r) zero_Group = (req, None) \<longrightarrow> \<not> prefix ''_MEMBER'' (gId req)))"

context mailbox_store
begin

abbreviation member_table :: "'d \<Rightarrow> bytes \<rightharpoonup> bytes" where
  "member_table d \<equiv> db_contents view (memberTab (newGroupDB (LDBDatabase fn))) d"

lemma step_solo:
  assumes ok: "ok d" and solo: "solo A (member_table d)" and tame: "tame A r"
    and run: "node_step L A srt (node_of me fn) r d = Some d'"
  shows "ok d' \<and> solo A (member_table d')"
proof (cases "is_group_req r")
  case False
  note step = mail_step [OF ok False, of me]
  show ?thesis
  proof (cases "mail_op A r")
    case None
    with step run ok solo show ?thesis by simp
  next
    case (Some x)
    with step run have d': "d' = mbox_exec L A (LDBDatabase fn) x d" by simp
    have "member_table d' k = None \<or> member_table d' k = member_table d k" for k
    proof (cases x)
      case (Put m)
      with tame Some have "\<not> prefix ''GROUP'' (Peerid (eTo (mEnvelope m)) @ eId (mEnvelope m))"
        by (simp add: tame_def)
      then have "''GROUP_MEMBER'' @ k \<noteq> Peerid (eTo (mEnvelope m)) @ eId (mEnvelope m)"
        by (auto simp: prefix_def) (metis append_Cons append_Nil)
      with d' Put ok show ?thesis by (simp add: db_contents_table put_result)
    next
      case (Clean c)
      with d' ok show ?thesis by (simp add: db_contents_table clean_result)
    qed
    from solo_shrink [OF solo this] exec_ok [OF ok] d' show ?thesis by blast
  qed
next
  case True
  have ok': "ok d'" using group_step [OF ok True run] by (simp add: only_under_def)
  show ?thesis
  proof (cases "nrPid r = PID_MAILBOX_GROUP_UPDATE")
    case True
    with run tame solo ok' member_store.update_solo [OF members refl ok solo, of "nrCaller r" "nrBytes r" "nrUs r 0"]
    show ?thesis by (auto simp: node_step_def serve_pids tame_def split: outcome.splits)
  next
    case False
    with \<open>is_group_req r\<close> have "nrPid r = PID_MAILBOX_GROUP_MEMBER" by (simp add: is_group_req_def)
    with run ok' solo solo_same_items [OF _ solo] member_store.member_service_items [OF members ok]
    show ?thesis by (fastforce simp: node_step_def serve_pids split: outcome.splits)
  qed
qed

lemma run_solo:
  "ok d \<Longrightarrow> solo A (member_table d) \<Longrightarrow> \<forall>r\<in>set rs. tame A r \<Longrightarrow> node_run L A srt (node_of me fn) rs d = Some d' \<Longrightarrow>
    ok d' \<and> solo A (member_table d')"
proof (induction rs arbitrary: d)
  case Nil
  then show ?case by simp
next
  case (Cons r rs)
  then obtain d1 where 1: "node_step L A srt (node_of me fn) r d = Some d1"
    "node_run L A srt (node_of me fn) rs d1 = Some d'" by (auto simp: bind_eq_Some_conv)
  from step_solo [OF Cons.prems(1,2) _ 1(1)] Cons.prems(3) Cons.IH [OF _ _ _ 1(2)] show ?case by simp
qed

end

text \<open>
  Property C9: member queries end. Whatever well-formed requests a node has served since its database was empty, clears
  that name any keys included, every query for members, from any of them in either direction, ends with at most one
  member, and no request at all makes a handler of the node run for ever. Well-formed are requests that store no message under
  a key of the group tables, name no group id that begins with \<open>_MEMBER\<close>, and update groups under a peer id.
\<close>

theorem member_queries_end:
  assumes env: "mailbox_store L ok view A srt" and start: "ok d0" "view d0 = Map.empty"
    and run: "node_run L A srt (node_of me fn) rs d0 = Some d" and tame: "\<forall>r\<in>set rs. tame A r"
  shows "(\<exists>ms. queryMember L A (newGroupDB (LDBDatabase fn)) gid act i d = Some ms \<and> length ms \<le> 1) \<and>
    serve L A srt (node_of me fn) r d \<noteq> Some Hangs"
proof -
  let ?g = "newGroupDB (LDBDatabase fn)"
  note mem = mailbox_store.members [OF env]
  have "solo A (db_contents view (memberTab ?g) d0)"
    by (simp add: solo_def item_at_def db_contents_def start(2))
  from mailbox_store.run_solo [OF env start(1) this tame run]
  have d: "ok d" "solo A (db_contents view (memberTab ?g) d)" by blast+
  have query: "\<exists>ms. queryMember L A ?g gid act i d = Some ms \<and> length ms \<le> 1" for gid act i
    by (rule member_store.solo_query [OF mem, OF d])
  obtain out e d' where "groupUpdateService L A ?g (nrUs r 0) (nrCaller r) (nrBytes r) d = Returns (out, e, d')"
    using update_total [OF mem, OF d(1)] by blast
  moreover have "groupMemberService L A ?g (nrUs r) (nrBytes r) d \<noteq> Hangs"
    using query by (auto simp: groupMemberService_def Let_def split: prod.splits option.splits sum.splits)
      (metis option.distinct(1))+
  ultimately show ?thesis using query by (simp add: serve_pids)
qed

lemma tame_demo: "tame ref_codecs (put_req demo_msg)" "tame ref_codecs group_req"
proof -
  have "\<not> prefix ''GROUP'' (peer_of CHR ''a'' @ ''m1'')"
    by (simp add: peer_of_def prefix_def numeral_eq_Suc)
  moreover have "nrPid (put_req demo_msg) \<noteq> PID_MAILBOX_GROUP_UPDATE" by (simp add: put_req_def)
  ultimately show "tame ref_codecs (put_req demo_msg)" by (simp add: tame_def put_req_op)
  show "tame ref_codecs group_req"
    by (simp add: tame_def group_req_op) (simp add: group_req_def demo_group_read plain_caller_def)
qed

theorem member_queries_end_witness:
  "\<exists>d ms. ref_run [put_req demo_msg, group_req] [] = Some d \<and>
    queryMember mem_leveldb ref_codecs (newGroupDB (LDBDatabase ''mb'')) ''g'' FROM ''ann'' d = Some ms \<and> length ms \<le> 1"
proof -
  obtain d where d: "ref_run [put_req demo_msg, group_req] [] = Some d" using node_demo_run by blast
  have "\<forall>r\<in>set [put_req demo_msg, group_req]. tame ref_codecs r" using tame_demo by simp
  from member_queries_end [OF ref_mailbox_store mem_ok_empty _ d this, of "''g''" FROM "''ann''"] d show ?thesis
    by fastforce
qed

section \<open>A request that makes a query endless\<close>

lemma query_self: "fn i = Inr (m, i) \<Longrightarrow> query_members fn acc i = None"
  by (rule query_members_None [where S = "{i}"]) auto

text \<open>
  Property C19: one request makes a member query run for ever. The wire format numbers the fields of a struct and names no
  type, so an encoded group can be read as a member item whose next member is the name of the group. Then any peer
  can update a group whose id is \<open>_MEMBER\<close> followed by the key of a member of an existing group and whose name is that member's id:
  the node serves it, and from then on the handler of every query \<open>FROM\<close> that member runs for ever.
\<close>

theorem update_hangs_queries:
  assumes env: "mailbox_store L ok view A srt" and ok: "ok d"
    and grp: "getGroup L A (newGroupDB (LDBDatabase fn)) h d = Inr grp"
    and upd: "nrPid u = PID_MAILBOX_GROUP_UPDATE" "Group_FromReader A (nrBytes u) zero_Group = (req, None)"
      "gId req = ''_MEMBER'' @ memberK h x"
    and wire: "aUnmarshal (cMemberItem A) (encoded (cGroup A) (req\<lparr>gOwner := Some (owner_of (nrCaller u))\<rparr>)) zero_MemberItem = (None, itm)"
      "miNext itm = x"
    and query: "nrPid q = PID_MAILBOX_GROUP_MEMBER" "aUnmarshalReader (cMemberReq A) (nrBytes q) zero_MemberReq 4096 = (None, mq)"
      "rqGid mq = h" "rqAction mq = FROM" "rqId mq = x"
  shows "\<exists>d'. node_step L A srt (node_of me fn) u d = Some d' \<and> serve L A srt (node_of me fn) q d' = Some Hangs"
proof -
  let ?g = "newGroupDB (LDBDatabase fn)" and ?db = "LDBDatabase fn"
  note mem = mailbox_store.members [OF env]
  obtain out e d' where run: "groupUpdateService L A ?g (nrUs u 0) (nrCaller u) (nrBytes u) d = Returns (out, e, d')"
    using update_total [OF mem, OF ok] by blast
  from group_id_overwrites_member [OF mem, OF ok upd(2,3) run] have
    d': "ok d'" "db_contents view (memberTab ?g) d' (memberK h x) =
      Some (encoded (cGroup A) (req\<lparr>gOwner := Some (owner_of (nrCaller u))\<rparr>))"
    and same: "db_contents view (table ?db ''GROUP'') d' h = db_contents view (table ?db ''GROUP'') d h"
    by (simp_all add: upd(3) memberK_def)
  have "getMember L A ?g h x d' = Inr itm"
    using member_store.getMember_Inr [OF mem, OF d'(1), of ?g h x itm] d'(2) wire(1) by (simp add: item_at_def dec_item_def)
  then have "query_fn L A ?g h FROM d' x = Inr (miMember itm, x)"
    using wire(2) by (simp add: query_fn_def)
  then have hang: "queryMember L A ?g h FROM x d' = None" by (simp add: queryMember_def query_self)
  have "\<exists>grp'. getGroup L A ?g h d' = Inr grp'"
  proof (cases "db_contents view (table ?db ''GROUP'') d h")
    case None
    with group_get_none [OF mem ok, of "table ?db ''GROUP''" h] grp show ?thesis by (auto simp: getGroup_def)
  next
    case (Some b)
    from group_get [OF mem ok Some] group_get [OF mem d'(1), of "table ?db ''GROUP''" h b] same Some grp show ?thesis
      by (auto simp: getGroup_def split: prod.splits option.splits)
  qed
  then have "groupMemberService L A ?g (nrUs q) (nrBytes q) d' = Hangs"
    using query hang by (auto simp: groupMemberService_def Let_def zero_MemberRsp_def ADD_def SUB_def FROM_def TO_def)
  with run upd(1) query(1) show ?thesis by (simp add: node_step_def serve_pids)
qed

text \<open>The attack on the group \<open>g\<close> of the reference node.\<close>

definition hang_group :: Group where
  "hang_group = zero_Group\<lparr>gId := ''_MEMBER'' @ memberK ''g'' ''ann'', gName := ''ann''\<rparr>"

definition hang_update :: node_req where
  "hang_update = \<lparr>nrPid = PID_MAILBOX_GROUP_UPDATE, nrCaller = ''eve'',
    nrBytes = encoded (cGroup ref_codecs) hang_group, nrUs = (\<lambda>n. ''u2'')\<rparr>"

definition hang_mreq :: GroupMemberReq where
  "hang_mreq = \<lparr>rqGid = ''g'', rqId = ''ann'', rqAction = FROM, rqMembers = []\<rparr>"

definition hang_query :: node_req where
  "hang_query = \<lparr>nrPid = PID_MAILBOX_GROUP_MEMBER, nrCaller = ''bob'',
    nrBytes = encoded (cMemberReq ref_codecs) hang_mreq, nrUs = (\<lambda>n. [])\<rparr>"

lemma hang_update_read:
  "Group_FromReader ref_codecs (nrBytes hang_update) zero_Group = (hang_group, None)"
proof -
  have "length (encoded (cGroup ref_codecs) hang_group) \<le> 10 * MAX_PKG"
    by (simp add: encoded_def ref_codecs_def field_codec_def Let_def group_to_def hang_group_def zero_Group_def
        length_pack MAX_PKG_def memberK_def)
  then have "aUnmarshalReader (cGroup ref_codecs) (encoded (cGroup ref_codecs) hang_group) zero_Group (10 * MAX_PKG) =
      (None, exp_group hang_group)"
    by (intro refc.groupc.reader_encoded) (simp_all add: MAX_PKG_def)
  then show ?thesis
    by (simp add: Group_FromReader_def exp_group_def hang_update_def hang_group_def zero_Group_def)
qed

lemma hang_query_read:
  "aUnmarshalReader (cMemberReq ref_codecs) (nrBytes hang_query) zero_MemberReq 4096 = (None, hang_mreq)"
proof -
  have "length (encoded (cMemberReq ref_codecs) hang_mreq) \<le> 4096"
    by (simp add: encoded_def ref_codecs_def field_codec_def Let_def req_to_def hang_mreq_def list_to_def FROM_def length_pack)
  from refc.reqc.reader_encoded [OF _ this] show ?thesis
    by (simp add: hang_query_def exp_req_def hang_mreq_def wf_req_def)
qed

lemma hang_wire:
  "aUnmarshal (cMemberItem ref_codecs) (encoded (cGroup ref_codecs) (hang_group\<lparr>gOwner := Some (owner_of ''eve'')\<rparr>)) zero_MemberItem =
    (None, \<lparr>miId = gId hang_group, miPrve = pack (opt_to member_to (Some (owner_of ''eve''))), miNext = ''ann'', miMember = None\<rparr>)"
  by (simp add: encoded_def ref_codecs_def field_codec_def Let_def group_to_def hang_group_def zero_Group_def)

theorem update_hangs_queries_witness:
  "\<exists>d d'. node_step mem_leveldb ref_codecs (sort_key (\<lambda>m. eCt (mEnvelope m))) (node_of ref_box ''mb'') hang_update d = Some d' \<and>
    serve mem_leveldb ref_codecs (sort_key (\<lambda>m. eCt (mEnvelope m))) (node_of ref_box ''mb'') hang_query d' = Some Hangs"
proof -
  obtain d grp where d: "mem_ok d" "getGroup mem_leveldb ref_codecs (newGroupDB (LDBDatabase ''mb'')) ''g'' d = Inr grp"
    using group_stored by blast
  have upd: "nrPid hang_update = PID_MAILBOX_GROUP_UPDATE" "gId hang_group = ''_MEMBER'' @ memberK ''g'' ''ann''"
    "nrCaller hang_update = ''eve''" by (simp_all add: hang_update_def hang_group_def)
  from update_hangs_queries [OF ref_mailbox_store d upd(1) hang_update_read upd(2) hang_wire [folded upd(3)] _ _ hang_query_read]
  show ?thesis by (fastforce simp: hang_query_def hang_mreq_def)
qed

end
