(* ===== verification/LogSpec.thy ===== *)
theory LogSpec
  imports GroupAdmin
begin

text \<open>
  The log of member changes. Every change that is tried gets an entry; the last-log key names the
  entry of the last change that was carried out, which is what \<open>getGroup\<close> reports. Walking back from
  it lists the changes carried out, newest first; a change that failed is not on that way.
\<close>

section \<open>The log in a database\<close>

definition dec_log :: "codecs \<Rightarrow> bytes \<Rightarrow> MemberLog option" where
  "dec_log A b = (case aUnmarshal (cMemberLog A) b zero_MemberLog of
     (None, x) \<Rightarrow> Some x | (Some e, x) \<Rightarrow> None)"

definition log_at :: "codecs \<Rightarrow> (bytes \<rightharpoonup> bytes) \<Rightarrow> GID \<Rightarrow> string \<Rightarrow> MemberLog option" where
  "log_at A c gid i = Option.bind (c (memberLogK gid i)) (dec_log A)"

text \<open>What is recorded of a change: the id of its entry, the action, the member.\<close>

type_synonym change_rec = "string \<times> MemberAction \<times> JID"

definition rec_of :: "MemberLog \<Rightarrow> change_rec" where
  "rec_of x = (mlId x, mlAction x, mlMemberId x)"

text \<open>The entries on the way back from an id, newest first.\<close>

fun log_chain :: "codecs \<Rightarrow> (bytes \<rightharpoonup> bytes) \<Rightarrow> GID \<Rightarrow> change_rec list \<Rightarrow> string \<Rightarrow> bool" where
  "log_chain A c gid [] i \<longleftrightarrow> i = []"
| "log_chain A c gid (h # hs) i \<longleftrightarrow> i \<noteq> [] \<and>
     (\<exists>x. log_at A c gid i = Some x \<and> mlId x = i \<and> rec_of x = h \<and> log_chain A c gid hs (mlPrve x))"

text \<open>
  The database holds this log, newest first: the last-log key has the newest entry, with no next
  one; the copy of it under its own key differs from it in the next entry at most.
\<close>

fun holds_log :: "codecs \<Rightarrow> (bytes \<rightharpoonup> bytes) \<Rightarrow> GID \<Rightarrow> change_rec list \<Rightarrow> bool" where
  "holds_log A c gid [] \<longleftrightarrow> c (memberLastlogK gid) = None"
| "holds_log A c gid (h # hs) \<longleftrightarrow> distinct (map fst (h # hs)) \<and>
     (\<exists>x n. c (memberLastlogK gid) = Some (encoded (cMemberLog A) x) \<and> mlNext x = [] \<and> mlId x \<noteq> [] \<and>
        rec_of x = h \<and> log_at A c gid (mlId x) = Some (x\<lparr>mlNext := n\<rparr>) \<and> log_chain A c gid hs (mlPrve x))"

text \<open>The walk back, at most that many entries.\<close>

fun log_walk :: "codecs \<Rightarrow> (bytes \<rightharpoonup> bytes) \<Rightarrow> GID \<Rightarrow> nat \<Rightarrow> string \<Rightarrow> change_rec list" where
  "log_walk A c gid 0 i = []"
| "log_walk A c gid (Suc n) i =
     (if i = [] then [] else
      case log_at A c gid i of None \<Rightarrow> [] | Some x \<Rightarrow> rec_of x # log_walk A c gid n (mlPrve x))"

lemma log_walk_chain: "log_chain A c gid hs i \<Longrightarrow> length hs \<le> n \<Longrightarrow> log_walk A c gid n i = hs"
proof (induction hs arbitrary: i n)
  case Nil
  then show ?case by (cases n) auto
next
  case (Cons h hs)
  then obtain k where "n = Suc k" by (cases n) auto
  with Cons show ?case by auto
qed

lemma holds_log_chain:
  assumes "holds_log A c gid (h # hs)"
  shows "log_chain A c gid (h # hs) (fst h)"
proof -
  from assms obtain x n where "mlId x \<noteq> []" "rec_of x = h" "log_at A c gid (mlId x) = Some (x\<lparr>mlNext := n\<rparr>)"
    "log_chain A c gid hs (mlPrve x)" by auto
  then show ?thesis by (auto simp: rec_of_def)
qed

text \<open>Entries of the log elsewhere, and entries that are not of the log, do not matter.\<close>

lemma log_chain_other:
  "log_chain A c gid hs i \<Longrightarrow> k \<notin> fst ` set hs \<Longrightarrow> log_chain A (c(memberLogK gid k := v)) gid hs i"
proof (induction hs arbitrary: i)
  case Nil
  then show ?case by simp
next
  case (Cons h hs)
  then obtain x where x: "i \<noteq> []" "log_at A c gid i = Some x" "mlId x = i" "rec_of x = h"
    "log_chain A c gid hs (mlPrve x)" by auto
  then have "k \<noteq> i" using Cons.prems(2) by (auto simp: rec_of_def)
  then have "log_at A (c(memberLogK gid k := v)) gid i = Some x"
    using x(2) by (auto simp: log_at_def key_simps)
  moreover have "log_chain A (c(memberLogK gid k := v)) gid hs (mlPrve x)"
    by (rule Cons.IH [OF x(5)]) (use Cons.prems(2) in simp)
  ultimately show ?case unfolding log_chain.simps using x by blast
qed

definition same_logs :: "(bytes \<rightharpoonup> bytes) \<Rightarrow> (bytes \<rightharpoonup> bytes) \<Rightarrow> bool" where
  "same_logs c c' \<longleftrightarrow>
    (\<forall>gid l. c' (memberLogK gid l) = c (memberLogK gid l)) \<and> (\<forall>gid. c' (memberLastlogK gid) = c (memberLastlogK gid))"

lemma same_logs_at: "same_logs c c' \<Longrightarrow> log_at A c' gid i = log_at A c gid i"
  by (simp add: same_logs_def log_at_def)

lemma same_logs_chain: "same_logs c c' \<Longrightarrow> log_chain A c' gid hs i = log_chain A c gid hs i"
  by (induction hs arbitrary: i) (simp_all add: same_logs_at)

lemma same_logs_holds: "same_logs c c' \<Longrightarrow> holds_log A c' gid hs = holds_log A c gid hs"
  by (cases hs) (simp_all add: same_logs_at same_logs_chain, simp_all add: same_logs_def)

lemma same_logs_upd:
  "same_logs c c' \<Longrightarrow> same_logs c (c'(memberK gid i := v))"
  "same_logs c c' \<Longrightarrow> same_logs c (c'(memberLastK gid := v))"
  "same_logs c c"
  by (auto simp: same_logs_def key_simps)

text \<open>The entry of a new change.\<close>

definition new_log :: "string \<Rightarrow> GroupMember \<Rightarrow> string \<Rightarrow> MemberLog" where
  "new_log uuid gm prve = zero_MemberLog\<lparr>mlId := uuid, mlPrve := prve, mlAction := gmAction gm, mlMemberId := gmId gm\<rparr>"

context member_store
begin

lemma dec_log_encoded [simp]: "dec_log A (encoded (cMemberLog A) x) = Some x"
  by (simp add: dec_log_def)

lemma same_logs_put:
  assumes "ok d1" and "same_logs c (db_contents view (memberTab g) d1)"
  shows "same_logs c (db_contents view (memberTab g) (snd (db_Put L (memberTab g) (memberK gid i) v d1)))"
    and "same_logs c (db_contents view (memberTab g) (snd (db_Put L (memberTab g) (memberLastK gid) v d1)))"
    and "same_logs c (db_contents view (memberTab g) (snd (db_Delete L (memberTab g) (memberK gid i) d1)))"
  using assms by (simp_all add: store_ops same_logs_upd)

lemma add_member_logs:
  assumes "ok d" and "add_member L A g gm d = Some d'"
  shows "ok d' \<and> same_logs (db_contents view (memberTab g) d) (db_contents view (memberTab g) d')"
proof (cases "db_Get L (memberTab g) (memberLastK (gmGid gm)) d")
  case (Inl e)
  with assms show ?thesis
    by (auto simp: add_member_def Let_def store_ops intro!: same_logs_upd)
next
  case (Inr b)
  with assms show ?thesis
    by (auto simp: add_member_def Let_def store_ops intro!: same_logs_upd)
qed

lemma sub_member_logs:
  assumes "ok d" and "sub_member L A g gm d = Some (e, d')"
  shows "ok d' \<and> same_logs (db_contents view (memberTab g) d) (db_contents view (memberTab g) d')"
  using assms
  by (auto simp: sub_member_def Let_def bind_eq_Some_conv store_ops split: sum.splits intro!: same_logs_upd)

lemma holds_log_new:
  assumes at: "c (memberLogK (gmGid gm) uuid) = Some (encoded (cMemberLog A) x)"
    and ch: "log_chain A c (gmGid gm) hs (mlPrve x)"
    and dist: "distinct (map fst ((uuid, gmAction gm, gmId gm) # hs))"
    and x: "x = new_log uuid gm prve" and uuid: "uuid \<noteq> []"
  shows "holds_log A (c(memberLastlogK (gmGid gm) \<mapsto> encoded (cMemberLog A) x)) (gmGid gm)
    ((uuid, gmAction gm, gmId gm) # hs)"
proof -
  let ?c = "c(memberLastlogK (gmGid gm) \<mapsto> encoded (cMemberLog A) x)"
  have ats: "log_at A ?c (gmGid gm) i = log_at A c (gmGid gm) i" for i by (simp add: log_at_def key_simps)
  have chains: "log_chain A ?c (gmGid gm) hs i = log_chain A c (gmGid gm) hs i" for hs i
    by (induction hs arbitrary: i) (simp_all add: ats)
  have sel: "mlId x = uuid" "mlNext x = []" "rec_of x = (uuid, gmAction gm, gmId gm)"
    by (simp_all add: x new_log_def rec_of_def zero_MemberLog_def)
  have "x = x\<lparr>mlNext := []\<rparr>" by (simp add: x new_log_def zero_MemberLog_def)
  moreover have "log_at A c (gmGid gm) uuid = Some x" using at by (simp add: log_at_def)
  ultimately have "log_at A c (gmGid gm) uuid = Some (x\<lparr>mlNext := []\<rparr>)" by simp
  then show ?thesis
    unfolding holds_log.simps
    using dist ch uuid sel by (intro conjI exI [of _ x] exI [of _ "[]"]) (simp_all add: ats chains)
qed

lemma append_log_first:
  assumes ok: "ok d" and none: "db_contents view (memberTab g) d (memberLastlogK (gmGid gm)) = None"
  shows "\<exists>d'. append_log L A g uuid gm d = Some (encoded (cMemberLog A) (new_log uuid gm []), d') \<and> ok d' \<and>
    db_contents view (memberTab g) d' =
      (db_contents view (memberTab g) d)(memberLogK (gmGid gm) uuid \<mapsto> encoded (cMemberLog A) (new_log uuid gm []))"
proof -
  from get_None [OF ok none] obtain e where "db_Get L (memberTab g) (memberLastlogK (gmGid gm)) d = Inl e" by blast
  with ok show ?thesis
    by (simp add: append_log_def Let_def store_ops zero_MemberLog_def new_log_def)
qed

lemma append_log_next:
  assumes ok: "ok d"
    and some: "db_contents view (memberTab g) d (memberLastlogK (gmGid gm)) = Some (encoded (cMemberLog A) x)"
  shows "\<exists>d'. append_log L A g uuid gm d = Some (encoded (cMemberLog A) (new_log uuid gm (mlId x)), d') \<and> ok d' \<and>
    db_contents view (memberTab g) d' =
      (db_contents view (memberTab g) d)
        (memberLogK (gmGid gm) (mlId x) \<mapsto> encoded (cMemberLog A) (x\<lparr>mlNext := uuid\<rparr>),
         memberLogK (gmGid gm) uuid \<mapsto> encoded (cMemberLog A) (new_log uuid gm (mlId x)))"
proof -
  have "db_Get L (memberTab g) (memberLastlogK (gmGid gm)) d = Inr (encoded (cMemberLog A) x)"
    by (rule get_Some [OF ok some])
  with ok log_decoded [of x] show ?thesis
    by (simp add: append_log_def Let_def store_ops zero_MemberLog_def new_log_def)
qed

text \<open>
  Trying a change: the log as it stands is kept whether or not the change goes on; when it does,
  writing the last-log key adds the change to it.
\<close>

lemma append_log_holds:
  assumes ok: "ok d" and holds: "holds_log A (db_contents view (memberTab g) d) (gmGid gm) hs"
    and fresh: "uuid \<noteq> []" "uuid \<notin> fst ` set hs"
  shows "\<exists>b d'. append_log L A g uuid gm d = Some (b, d') \<and> ok d' \<and>
    holds_log A (db_contents view (memberTab g) d') (gmGid gm) hs \<and>
    (\<forall>c. same_logs (db_contents view (memberTab g) d') c \<longrightarrow>
      holds_log A (c(memberLastlogK (gmGid gm) \<mapsto> b)) (gmGid gm) ((uuid, gmAction gm, gmId gm) # hs))"
proof (cases hs)
  case Nil
  with holds have "db_contents view (memberTab g) d (memberLastlogK (gmGid gm)) = None" by simp
  from append_log_first [OF ok this, of uuid] obtain d' where d': "append_log L A g uuid gm d =
      Some (encoded (cMemberLog A) (new_log uuid gm []), d')" "ok d'"
    "db_contents view (memberTab g) d' = (db_contents view (memberTab g) d)
      (memberLogK (gmGid gm) uuid \<mapsto> encoded (cMemberLog A) (new_log uuid gm []))" by blast
  have "holds_log A (db_contents view (memberTab g) d') (gmGid gm) []"
    using holds Nil by (simp add: d'(3) key_simps)
  moreover have "holds_log A (c(memberLastlogK (gmGid gm) \<mapsto> encoded (cMemberLog A) (new_log uuid gm [])))
      (gmGid gm) [(uuid, gmAction gm, gmId gm)]" if "same_logs (db_contents view (memberTab g) d') c" for c
  proof -
    have "c (memberLogK (gmGid gm) uuid) = Some (encoded (cMemberLog A) (new_log uuid gm []))"
      using that by (simp add: same_logs_def d'(3))
    then show ?thesis
      using fresh(1) by (intro holds_log_new [OF _ _ _ refl]) (simp_all add: new_log_def)
  qed
  ultimately show ?thesis using d' Nil by blast
next
  case (Cons h hs')
  with holds obtain x n where x: "distinct (map fst (h # hs'))"
    "db_contents view (memberTab g) d (memberLastlogK (gmGid gm)) = Some (encoded (cMemberLog A) x)"
    "mlNext x = []" "mlId x \<noteq> []" "rec_of x = h"
    "log_chain A (db_contents view (memberTab g) d) (gmGid gm) hs' (mlPrve x)" by auto
  let ?c = "db_contents view (memberTab g) d" and ?gid = "gmGid gm" and ?new = "new_log uuid gm (mlId x)"
  from append_log_next [OF ok x(2), of uuid] obtain d' where d': "append_log L A g uuid gm d =
      Some (encoded (cMemberLog A) ?new, d')" "ok d'"
    "db_contents view (memberTab g) d' = ?c(memberLogK ?gid (mlId x) \<mapsto> encoded (cMemberLog A) (x\<lparr>mlNext := uuid\<rparr>),
         memberLogK ?gid uuid \<mapsto> encoded (cMemberLog A) ?new)" by blast
  have h: "fst h = mlId x" using x(5) by (auto simp: rec_of_def)
  then have neq: "uuid \<noteq> mlId x" "mlId x \<notin> fst ` set hs'" "uuid \<notin> fst ` set hs'"
    using fresh(2) x(1) Cons by auto
  have chain: "log_chain A (db_contents view (memberTab g) d') ?gid hs' (mlPrve x)"
    unfolding d'(3) by (intro log_chain_other x(6) neq)
  have at: "log_at A (db_contents view (memberTab g) d') ?gid (mlId x) = Some (x\<lparr>mlNext := uuid\<rparr>)"
    using neq(1) by (simp add: d'(3) log_at_def key_simps)
  have old: "holds_log A (db_contents view (memberTab g) d') ?gid hs"
    using x(1,3,4,5) x(2) at chain by (auto simp: Cons d'(3) key_simps)
  have "log_chain A (db_contents view (memberTab g) d') ?gid hs (mlId x)"
    using at chain x(4,5) by (auto simp: Cons rec_of_def)
  moreover have "holds_log A (c(memberLastlogK ?gid \<mapsto> encoded (cMemberLog A) ?new)) ?gid
      ((uuid, gmAction gm, gmId gm) # hs)"
    if same: "same_logs (db_contents view (memberTab g) d') c"
      and ch: "log_chain A (db_contents view (memberTab g) d') ?gid hs (mlId x)" for c
  proof -
    have "c (memberLogK ?gid uuid) = Some (encoded (cMemberLog A) ?new)"
      using same by (simp add: same_logs_def d'(3))
    moreover have "mlPrve ?new = mlId x" by (simp add: new_log_def)
    with ch have "log_chain A c ?gid hs (mlPrve ?new)" by (simp only: same_logs_chain [OF same])
    moreover have "distinct (map fst ((uuid, gmAction gm, gmId gm) # hs))" using fresh(2) x(1) Cons by simp
    ultimately show ?thesis using fresh(1) by (intro holds_log_new [OF _ _ _ refl])
  qed
  ultimately show ?thesis using d' old by blast
qed

lemma handle_log:
  assumes ok: "ok d" and holds: "holds_log A (db_contents view (memberTab g) d) (gmGid gm) hs"
    and fresh: "uuid \<noteq> []" "uuid \<notin> fst ` set hs"
    and run: "handleMember L A g uuid gm d = Some (e, d')"
  shows "ok d' \<and> holds_log A (db_contents view (memberTab g) d') (gmGid gm)
    (if e = None then (uuid, gmAction gm, gmId gm) # hs else hs)"
proof -
  let ?gid = "gmGid gm" and ?new = "(uuid, gmAction gm, gmId gm) # hs"
  from append_log_holds [OF ok holds fresh] obtain b d1 where log: "append_log L A g uuid gm d = Some (b, d1)" "ok d1"
    "holds_log A (db_contents view (memberTab g) d1) ?gid hs"
    and add: "\<And>c. same_logs (db_contents view (memberTab g) d1) c \<Longrightarrow> holds_log A (c(memberLastlogK ?gid \<mapsto> b)) ?gid ?new"
    by blast
  have last: "e3 = None \<and> ok d3 \<and> holds_log A (db_contents view (memberTab g) d3) ?gid ?new"
    if "db_Put L (memberTab g) (memberLastlogK ?gid) b d2 = (e3, d3)" and "ok d2"
      "same_logs (db_contents view (memberTab g) d1) (db_contents view (memberTab g) d2)" for d2 e3 d3
    using put_err [OF that(2), of "memberLastlogK ?gid" b] put_ok [OF that(2), of "memberLastlogK ?gid" b]
      put_contents [OF that(2), of "memberLastlogK ?gid" b] that(1) add [OF that(3)] by simp
  consider (add) "gmAction gm = ADD" | (sub) "gmAction gm = SUB" "gmAction gm \<noteq> ADD" | (none) "gmAction gm \<notin> {ADD, SUB}" by auto
  then show ?thesis
  proof cases
    case add
    with run log(1) obtain d2 where "add_member L A g gm d1 = Some d2"
      "db_Put L (memberTab g) (memberLastlogK ?gid) b d2 = (e, d')"
      by (auto simp: handleMember_def bind_eq_Some_conv)
    with add_member_logs [OF log(2)] last show ?thesis by simp
  next
    case sub
    with run log(1) obtain e2 d2 where s: "sub_member L A g gm d1 = Some (e2, d2)"
      "(case e2 of Some x \<Rightarrow> Some (Some x, d2)
        | None \<Rightarrow> Some (db_Put L (memberTab g) (memberLastlogK ?gid) b d2)) = Some (e, d')"
      by (auto simp: handleMember_def bind_eq_Some_conv)
    from sub_member_logs [OF log(2) s(1)] log(3) last s(2) show ?thesis
      by (cases e2) (auto simp: same_logs_holds)
  next
    case none
    with run log show ?thesis by (auto simp: handleMember_def)
  qed
qed

text \<open>A change that fails touches the log in the first part of the call only.\<close>

lemma failed_same_logs:
  assumes log: "append_log L A g uuid gm d = Some (b, d1)" and ok1: "ok d1"
    and fails: "handleMember L A g uuid gm d = Some (Some e, d')"
  shows "same_logs (db_contents view (memberTab g) d1) (db_contents view (memberTab g) d')"
proof -
  have put: "fst (db_Put L (memberTab g) k v d2) = None" if "ok d2" for k v d2 by (rule put_err [OF that])
  consider (add) "gmAction gm = ADD" | (sub) "gmAction gm = SUB" "gmAction gm \<noteq> ADD" | (none) "gmAction gm \<notin> {ADD, SUB}" by auto
  then show ?thesis
  proof cases
    case add
    with fails log obtain d2 where "add_member L A g gm d1 = Some d2"
      "db_Put L (memberTab g) (memberLastlogK (gmGid gm)) b d2 = (Some e, d')"
      by (auto simp: handleMember_def bind_eq_Some_conv)
    with add_member_logs [OF ok1] put [of d2 "memberLastlogK (gmGid gm)" b] show ?thesis by simp
  next
    case sub
    with fails log obtain e2 d2 where s: "sub_member L A g gm d1 = Some (e2, d2)"
      "(case e2 of Some x \<Rightarrow> Some (Some x, d2)
        | None \<Rightarrow> Some (db_Put L (memberTab g) (memberLastlogK (gmGid gm)) b d2)) = Some (Some e, d')"
      by (auto simp: handleMember_def bind_eq_Some_conv)
    with sub_member_logs [OF ok1 s(1)] put [of d2 "memberLastlogK (gmGid gm)" b] show ?thesis
      by (cases e2) auto
  next
    case none
    with fails log show ?thesis by (auto simp: handleMember_def same_logs_def)
  qed
qed

end

section \<open>Runs\<close>

text \<open>The changes of a run that were carried out, oldest first, and the database after it.\<close>

fun log_run ::
    "'d leveldb \<Rightarrow> codecs \<Rightarrow> groupdb \<Rightarrow> (nat \<Rightarrow> string) \<Rightarrow> GroupMember list \<Rightarrow> 'd \<Rightarrow>
     (change_rec list \<times> 'd) option" where
  "log_run L A g us [] d = Some ([], d)"
| "log_run L A g us (gm # gms) d =
     (case handleMember L A g (us 0) gm d of
        None \<Rightarrow> None
      | Some (e, d1) \<Rightarrow>
          map_option (\<lambda>(hs, d2). ((if e = None then [(us 0, gmAction gm, gmId gm)] else []) @ hs, d2))
            (log_run L A g (\<lambda>n. us (Suc n)) gms d1))"

lemma log_run_handle: "handle_members L A g us (map Some gms) d = map_option snd (log_run L A g us gms d)"
  by (induction gms arbitrary: us d) (auto simp: option.map_comp comp_def split: option.split prod.split intro!: option.map_cong)

lemma log_run_refines:
  assumes env: "member_store L ok view A"
  shows "ok d \<Longrightarrow> holds_log A (db_contents view (memberTab g) d) gid hs \<Longrightarrow> \<forall>gm\<in>set gms. gmGid gm = gid \<Longrightarrow>
    inj_on us {..<length gms} \<Longrightarrow> \<forall>n<length gms. us n \<noteq> [] \<and> us n \<notin> fst ` set hs \<Longrightarrow>
    \<exists>new d'. log_run L A g us gms d = Some (new, d') \<and> ok d' \<and>
      holds_log A (db_contents view (memberTab g) d') gid (rev new @ hs)"
proof (induction gms arbitrary: us d hs)
  case Nil
  then show ?case by simp
next
  case (Cons gm gms)
  from member_store.handle_total [OF env, OF Cons.prems(1), of g "us 0" gm] obtain e d1 where
    h: "handleMember L A g (us 0) gm d = Some (e, d1)" by blast
  let ?hs = "if e = None then (us 0, gmAction gm, gmId gm) # hs else hs"
  have gid: "gmGid gm = gid" "\<forall>gm\<in>set gms. gmGid gm = gid" using Cons.prems(3) by simp_all
  have 1: "ok d1" "holds_log A (db_contents view (memberTab g) d1) gid ?hs"
    using member_store.handle_log [OF env, OF Cons.prems(1) _ _ _ h, of hs] Cons.prems(2,5) gid by auto
  have inj: "inj_on (\<lambda>n. us (Suc n)) {..<length gms}"
    using Cons.prems(4) by (auto simp: inj_on_def)
  have "us (Suc n) \<noteq> us 0" if "n < length gms" for n
    using Cons.prems(4) that by (auto simp: inj_on_def)
  then have "\<forall>n<length gms. us (Suc n) \<noteq> [] \<and> us (Suc n) \<notin> fst ` set ?hs"
    using Cons.prems(5) by auto
  from Cons.IH [OF 1 gid(2) inj this] h show ?case by auto
qed

text \<open>
  Property C12: the log refines the list of changes carried out. After any run of member changes of a
  group, supported by the member list or not, with fresh non-empty UUIDs, the group's last log is the newest change that was
  carried out, and the way back from it through the entries lists exactly the changes that were carried out since
  the log was empty, newest first, each with its action and its member; a change that failed is not among them.
\<close>

theorem member_log_refinement:
  assumes env: "member_store L ok view A" and ok: "ok d"
    and holds: "holds_log A (db_contents view (memberTab g) d) gid hs"
    and gids: "\<forall>gm\<in>set gms. gmGid gm = gid"
    and uuids: "inj_on us {..<length gms}" "\<forall>n<length gms. us n \<noteq> [] \<and> us n \<notin> fst ` set hs"
  shows "\<exists>new d'. log_run L A g us gms d = Some (new, d') \<and> handle_members L A g us (map Some gms) d = Some d' \<and>
    holds_log A (db_contents view (memberTab g) d') gid (rev new @ hs) \<and>
    (\<forall>grp n. gId grp = gid \<and> rev new @ hs \<noteq> [] \<and> length (rev new @ hs) \<le> n \<longrightarrow>
      gLastlog (setLastlog L A g grp d') = fst (hd (rev new @ hs)) \<and>
      log_walk A (db_contents view (memberTab g) d') gid n (gLastlog (setLastlog L A g grp d')) = rev new @ hs)"
proof -
  from log_run_refines [OF env ok holds gids uuids] obtain new d' where
    run: "log_run L A g us gms d = Some (new, d')" and ok': "ok d'" and
    h: "holds_log A (db_contents view (memberTab g) d') gid (rev new @ hs)" by blast
  have "gLastlog (setLastlog L A g grp d') = fst (hd (rev new @ hs)) \<and>
      log_walk A (db_contents view (memberTab g) d') gid n (gLastlog (setLastlog L A g grp d')) = rev new @ hs"
    if "gId grp = gid" "rev new @ hs \<noteq> []" "length (rev new @ hs) \<le> n" for grp n
  proof -
    from that(2) obtain c cs where l: "rev new @ hs = c # cs" by (cases "rev new @ hs") auto
    with h obtain x where x: "db_contents view (memberTab g) d' (memberLastlogK gid) = Some (encoded (cMemberLog A) x)"
      "rec_of x = c" by auto
    from x(1) have "db_Get L (memberTab g) (memberLastlogK gid) d' = Inr (encoded (cMemberLog A) x)"
      by (rule group_get [OF env, OF ok'])
    then have "gLastlog (setLastlog L A g grp d') = mlId x"
      using that(1) member_store.log_decoded [OF env, of x] by (simp add: setLastlog_def)
    moreover have "mlId x = fst c" using x(2) by (auto simp: rec_of_def)
    moreover have "log_chain A (db_contents view (memberTab g) d') gid (c # cs) (fst c)"
      by (rule holds_log_chain) (use h l in simp)
    from log_walk_chain [OF this] that(3) l have "log_walk A (db_contents view (memberTab g) d') gid n (fst c) = c # cs" by simp
    ultimately show ?thesis by (simp add: l)
  qed
  with run h log_run_handle [of L A g us gms d] show ?thesis by auto
qed

definition demo_changes :: "GroupMember list" where
  "demo_changes = [change ''a'' ADD, change ''z'' SUB, change ''b'' ADD]"

definition demo_uuids :: "nat \<Rightarrow> string" where
  "demo_uuids n = replicate (Suc n) CHR ''u''"

lemma demo_changes_run:
  "map_option fst (log_run mem_leveldb ref_codecs mem_group_tab demo_uuids demo_changes []) =
    Some [(''u'', ADD, ''a''), (''uuu'', ADD, ''b'')]"
  by code_simp

theorem member_log_refinement_witness:
  "\<exists>d'. handle_members mem_leveldb ref_codecs mem_group_tab demo_uuids (map Some demo_changes) [] = Some d' \<and>
    log_walk ref_codecs (db_contents map_of (memberTab mem_group_tab) d') ''g'' 2 ''uuu'' =
      [(''uuu'', ADD, ''b''), (''u'', ADD, ''a'')]"
proof -
  have 1: "holds_log ref_codecs (db_contents map_of (memberTab mem_group_tab) []) ''g'' []"
    by (simp add: db_contents_def)
  have 2: "\<forall>gm\<in>set demo_changes. gmGid gm = ''g''" by (simp add: demo_changes_def)
  have 3: "inj_on demo_uuids {..<length demo_changes}"
    by (rule inj_onI) (metis demo_uuids_def length_replicate nat.inject)
  have 4: "\<forall>n<length demo_changes. demo_uuids n \<noteq> [] \<and> demo_uuids n \<notin> fst ` set ([] :: change_rec list)"
    by (simp add: demo_uuids_def)
  from member_log_refinement [OF ref_member_store mem_ok_empty 1 2 3 4] obtain new d' where
    run: "log_run mem_leveldb ref_codecs mem_group_tab demo_uuids demo_changes [] = Some (new, d')" and
    hm: "handle_members mem_leveldb ref_codecs mem_group_tab demo_uuids (map Some demo_changes) [] = Some d'" and
    walk: "\<forall>grp n. gId grp = ''g'' \<and> rev new @ [] \<noteq> [] \<and> length (rev new @ []) \<le> n \<longrightarrow>
      gLastlog (setLastlog mem_leveldb ref_codecs mem_group_tab grp d') = fst (hd (rev new @ [])) \<and>
      log_walk ref_codecs (db_contents map_of (memberTab mem_group_tab) d') ''g'' n
        (gLastlog (setLastlog mem_leveldb ref_codecs mem_group_tab grp d')) = rev new @ []" by blast
  from run demo_changes_run have "new = [(''u'', ADD, ''a''), (''uuu'', ADD, ''b'')]" by simp
  with walk [rule_format, of demo_group 2] hm show ?thesis by auto
qed

text \<open>
  Property C27: a change that failed is linked into the log. When the log has an entry and a change fails, the group's last
  log stays, but that entry names the failed change as its next one, and the failed change has an entry of its own
  that points back: a reader that walks the log forwards sees a change that never happened.
\<close>

theorem failed_change_linked:
  assumes env: "member_store L ok view A" and ok: "ok d"
    and holds: "holds_log A (db_contents view (memberTab g) d) (gmGid gm) (h # hs)"
    and fresh: "uuid \<noteq> []" "uuid \<notin> fst ` set (h # hs)"
    and fails: "handleMember L A g uuid gm d = Some (Some e, d')"
  shows "holds_log A (db_contents view (memberTab g) d') (gmGid gm) (h # hs) \<and>
    (\<exists>x y. log_at A (db_contents view (memberTab g) d') (gmGid gm) (fst h) = Some x \<and> rec_of x = h \<and> mlNext x = uuid \<and>
      log_at A (db_contents view (memberTab g) d') (gmGid gm) uuid = Some y \<and> rec_of y = (uuid, gmAction gm, gmId gm) \<and>
      mlPrve y = fst h)"
proof
  show "holds_log A (db_contents view (memberTab g) d') (gmGid gm) (h # hs)"
    using member_store.handle_log [OF env, OF ok holds fresh fails] by simp
  let ?gid = "gmGid gm" and ?c = "db_contents view (memberTab g) d"
  from holds obtain x where x: "?c (memberLastlogK ?gid) = Some (encoded (cMemberLog A) x)" "rec_of x = h" by auto
  then have id: "mlId x = fst h" by (auto simp: rec_of_def)
  let ?new = "new_log uuid gm (mlId x)"
  from member_store.append_log_next [OF env, OF ok x(1), of uuid] obtain d1 where d1: "append_log L A g uuid gm d =
      Some (encoded (cMemberLog A) ?new, d1)" "ok d1"
    "db_contents view (memberTab g) d1 = ?c(memberLogK ?gid (mlId x) \<mapsto> encoded (cMemberLog A) (x\<lparr>mlNext := uuid\<rparr>),
         memberLogK ?gid uuid \<mapsto> encoded (cMemberLog A) ?new)" by blast
  have same: "same_logs (db_contents view (memberTab g) d1) (db_contents view (memberTab g) d')"
    by (rule member_store.failed_same_logs [OF env, OF d1(1,2) fails])
  have at: "log_at A (db_contents view (memberTab g) d') ?gid i = log_at A (db_contents view (memberTab g) d1) ?gid i" for i
    by (rule same_logs_at [OF same])
  have "uuid \<noteq> mlId x" using fresh(2) id by auto
  then have "log_at A (db_contents view (memberTab g) d') ?gid (fst h) = Some (x\<lparr>mlNext := uuid\<rparr>)"
    "log_at A (db_contents view (memberTab g) d') ?gid uuid = Some ?new"
    unfolding at by (simp_all add: d1(3) log_at_def key_simps id [symmetric] member_store.dec_log_encoded [OF env])
  then show "\<exists>x y. log_at A (db_contents view (memberTab g) d') ?gid (fst h) = Some x \<and> rec_of x = h \<and> mlNext x = uuid \<and>
      log_at A (db_contents view (memberTab g) d') ?gid uuid = Some y \<and> rec_of y = (uuid, gmAction gm, gmId gm) \<and>
      mlPrve y = fst h"
    using x(2) id by (auto simp: rec_of_def new_log_def zero_MemberLog_def)
qed

lemma demo_failure:
  "map_option fst (log_run mem_leveldb ref_codecs mem_group_tab demo_uuids [change ''a'' ADD] []) = Some [(''u'', ADD, ''a'')]"
  "(case log_run mem_leveldb ref_codecs mem_group_tab demo_uuids [change ''a'' ADD] [] of
     None \<Rightarrow> False
   | Some (hs, d) \<Rightarrow> (case handleMember mem_leveldb ref_codecs mem_group_tab ''v'' (change ''z'' SUB) d of
        Some (Some e, d') \<Rightarrow> True | r \<Rightarrow> False))"
  by code_simp+

theorem failed_change_linked_witness:
  "\<exists>d e d' x y. handleMember mem_leveldb ref_codecs mem_group_tab ''v'' (change ''z'' SUB) d = Some (Some e, d') \<and>
    log_at ref_codecs (db_contents map_of (memberTab mem_group_tab) d') ''g'' ''u'' = Some x \<and> mlNext x = ''v'' \<and>
    log_at ref_codecs (db_contents map_of (memberTab mem_group_tab) d') ''g'' ''v'' = Some y \<and> mlAction y = SUB"
proof -
  have 1: "holds_log ref_codecs (db_contents map_of (memberTab mem_group_tab) []) ''g'' []"
    by (simp add: db_contents_def)
  have "inj_on demo_uuids {..<length [change ''a'' ADD]}"
    "\<forall>n<length [change ''a'' ADD]. demo_uuids n \<noteq> [] \<and> demo_uuids n \<notin> fst ` set ([] :: change_rec list)"
    by (simp_all add: demo_uuids_def inj_on_def)
  with log_run_refines [OF ref_member_store mem_ok_empty 1, of "[change ''a'' ADD]" demo_uuids] obtain new d where
    d: "log_run mem_leveldb ref_codecs mem_group_tab demo_uuids [change ''a'' ADD] [] = Some (new, d)" "mem_ok d"
    "holds_log ref_codecs (db_contents map_of (memberTab mem_group_tab) d) ''g'' (rev new @ [])" by auto
  with demo_failure(1) have new: "new = [(''u'', ADD, ''a'')]" by simp
  from demo_failure(2) d(1) obtain e d' where
    f: "handleMember mem_leveldb ref_codecs mem_group_tab ''v'' (change ''z'' SUB) d = Some (Some e, d')"
    by (auto split: option.splits)
  have h: "holds_log ref_codecs (db_contents map_of (memberTab mem_group_tab) d) (gmGid (change ''z'' SUB)) [(''u'', ADD, ''a'')]"
    using d(3) by (simp add: new)
  from failed_change_linked [OF ref_member_store d(2) h _ _ f] f show ?thesis
    by (fastforce simp: rec_of_def)
qed

end
