(* ===== verification/Spec2Isabelle.thy ===== *)
theory Spec2Isabelle
  imports Startup SessionProps NodeLive LogSpec
begin

text \<open>
  A verification development for go-achat-node, a peer-to-peer chat node with offline
  mailboxes, groups and a local JSON-RPC gateway.

  The program. A node has a JID: 53 bytes of peer id, optionally followed by the 53 bytes of the
  peer id of its mailbox, another node that keeps messages while it is offline. The chat service
  (service.go) sends a message to its recipient and, when the recipient cannot be reached, to the
  recipient's mailbox; it receives messages on a p2p protocol, queues them in a channel and hands
  them to the registered handlers. Every node also runs a mailbox (mailbox.go), which serves
  put, query and clear requests on a LevelDB, and the group store (mailbox_group.go), which keeps groups
  and their member lists in the same database. The gateway (rpc/) lets local programs use
  the node over HTTP and WebSocket; the program achat (app/achat/cmd/achat) starts a node and
  has a console that talks to the gateway.

  The model. Go code becomes functions with explicit state: the contents of a database, the state of
  a service, the world outside the node are arguments and results. Strings and byte slices are
  lists of 8-bit characters; an error is its text, and \<open>nil\<close> is \<open>None\<close>; a function that panics
  returns an option (or a value of \<open>outcome\<close>, when it can also run for ever). UUIDs, clock
  readings and fresh keys are arguments. LevelDB, amino, package json, \<open>sort.Sort\<close>, the digests
  and the p2p service are records of parameters (theory Platform, and where they are used); locales
  state the documented behaviour the code relies on, and theories Reference, RefCodecs and
  RefGateway instantiate them concretely for the witnesses.

  The theories, in the order in which they import each other:

  \<^item> Prelude: byte strings, the functions of packages strings, path, fmt and hex the code calls, fact collections.
  \<^item> Platform: the parameters for third-party code and the locales \<open>leveldb_laws\<close>, \<open>codec_laws\<close>,
    \<open>sort_contract\<close>. Reference, RefCodecs: instances of them.
  \<^item> Ldb (ldb/database.go, ldb/interface.go): the types \<open>Database\<close> and \<open>Batch\<close> with a constructor for each
    implementation, the methods of both, the interfaces themselves as records of methods, the key filter, the options. The
    locale \<open>kv_store\<close> is the contract of \<open>Database\<close>, and every database over a lawful LevelDB is an instance of it.
    Batches equal puts, through the interfaces; tables with prefixes of one length are isolated; the options stay in bounds.
  \<^item> Types (types.go and the types of mailbox_group.go, constants of service.go): messages, identifiers,
    constructors, codec methods; the locale \<open>amino_laws\<close>, in which the only field that an encoding loses is
    the unexported \<open>action\<close> of a member.
  \<^item> Mailbox (mailbox.go): store operations, handlers and client calls. MailboxSpec: the abstract mailbox
    (a map from peers to messages by id), the refinement, isolation and draining, and what ids of
    the wrong length do.
  \<^item> GroupDb, GroupService (mailbox_group.go): keys, the linked list of members and the log, groups, the two handlers
    and the client call. \<open>query_members\<close> is a partial function: \<open>None\<close> is a query that never ends.
    MemberChain: the layout of a member list as linked items. GroupSpec: each operation on the
    database is the operation on the items. GroupProps: runs of changes refine a list; what breaks
    it. GroupAdmin: the handlers, creation and takeover of groups, isolation of groups. LogSpec: the log of changes
    refines the list of changes carried out, read backwards from its last entry; what a failed change leaves in it.
  \<^item> Service (service.go): the chat service; \<open>svc_step\<close> is one step of the handler of incoming messages, the dispatch
    loop, the registry or a stop, with a history of what was accepted, taken, acknowledged and started.
    \<open>mailbox_Start\<close> and \<open>groupService\<close> are the handlers a node registers. ServiceProps: the
    invariant of every run, progress, acknowledgements. The capacity of the channel is the code's 128.
  \<^item> Network: the locale \<open>mailbox_client\<close>, a p2p service that runs the registered handler of a mailbox node on a
    request and brings its answer back; sending and its outcomes.
  \<^item> Node: the handlers of a mailbox node as one server: a request is a protocol id, a caller and bytes, and \<open>node_run\<close> serves
    any list of them on the one database. The abstract specification of its mail part, and the type of the entries.
    NodeProps: the refinement for every list of requests, independence of mail and groups, which requests
    stop a node, and the offline message end to end, from an empty database. NodeLive: on a node that served well-formed
    requests every member query ends; one update request with a chosen group id makes some run for ever.
  \<^item> Delivery: the locale \<open>chat_peer\<close>, a p2p service whose peer runs \<open>svc_step\<close>; a message to a peer that is online, and one that times
    out. Its instance is a world with such a peer and a mailbox node.
  \<^item> RpcTypes, RpcUser, RpcServer (rpc/): values, requests and responses, the user service, and the gateway with its
    token check, methods, services and handlers. RpcProps: who gets in, where things are
    stored and found, what sending and opening a session do, and where the gateway panics.
  \<^item> Sessions: the gateway while it runs, with any number of sessions in the midst of opening, requests and the chat service,
    as the step relation \<open>sys_step\<close>. SessionProps: the accounts of every connection in every interleaving, that a
    message reaches the open sessions, that \<open>ws_open\<close>, the handler in one piece, is a run of the steps, what a broken connection destroys, and that
    nothing happens without the password.
  \<^item> App (app/achat/cmd/achat): configuration, start, login, what a line of the console means and the command loop. AppProps: the
    state of a started node, login, and the way of a typed line into a message.
  \<^item> Console (console.go): attaching, the read loop, and the command loop, the goroutines of the lines and the write loop as the
    step relation \<open>con_step\<close>. ConsoleProps: what becomes of every line in every interleaving, that all get sent
    while the console is open, the races, and attaching to a gateway.
  \<^item> EndToEnd: from one console to another, through both gateways and the peer's service or its mailbox.
  \<^item> Startup (main.go): the log lines of a start, and the subcommands as compositions of starting a node and attaching.

  The properties are the theorems whose text names a number. They say of each component what it does on every
  branch that matters, errors and panics included, and several follow a request through all
  of them. Some show behaviour the authors will not have wanted; these are stated as they are.

  Bounds. The handlers' limits on the size of a request (2048, 20480, 4096, 128 bytes and 2 MiB)
  are hypotheses of the delivery theorems, with the code's values. No fuel is used: loops are
  structural, and the one that may not end is a partial function.

  Not modelled: log output (save that of a start), the terminal and its history, reading the flags, the HTTP and WebSocket
  libraries beyond what they hand to the handlers, the indentation of JSON (\<open>jshow\<close>). A handler of a
  mailbox node and a request over HTTP run as one step; the chat service, the sessions of the gateway and the console are interleaved
  step by step. The chat service is one shared object in the program; the functions of the gateway get a
  copy of it (\<open>gwChat\<close>), which in \<open>sys_step\<close> is the running one (\<open>sSvc\<close>). Races on
  the package variables of the gateway are outside the model, and a write to the registry during a dispatch ends a
  run of \<open>svc_step\<close>. In the model of the console a call runs as one step, so that two calls never overlap.
  Integers that are only compared and copied are unbounded; where a width matters (the options of LevelDB, the
  size of a batch, the port) the wrap-around is written out.

  Next: the interface \<open>Msg\<close> with its round trips, and the delivery theorems restated over \<open>sys_step\<close>.
\<close>

end
